(* ===== verification/Prelude.thy ===== *)
theory Prelude
  imports Main "HOL-Library.Word" "HOL-Library.AList" "HOL-Library.Sublist"
begin

text \<open>
  The prelude of the development: the type synonyms shared by all components, the
  rule collections the component proofs draw on, the generic facts about association lists
  (Go maps with an iteration order), lists and options that more than one component needs,
  and the interface \<open>inv_system\<close> of a step system with an invariant, which every state
  machine of the model interprets.

  Go strings are byte sequences, modelled as \<open>string\<close> (a list of 8-bit characters); a
  Go \<open>uint32\<close> is a \<open>32 word\<close>, a \<open>uint64\<close> a \<open>64 word\<close>. A Go map
  is an association list with distinct keys: the list order is the (unspecified) iteration
  order of the map, so a theorem about all lists is a theorem about all iteration orders.
\<close>

type_synonym port = "32 word"
type_synonym 'v gomap = "(string \<times> 'v) list"

named_theorems host_simps \<open>facts about normalised host names\<close>
named_theorems header_simps \<open>facts about header maps\<close>
named_theorems effect_simps \<open>what the helpers of a handler change of its state\<close>
named_theorems inv_intros \<open>preservation facts of invariants\<close>

section \<open>Go maps as association lists\<close>

definition map_ok :: "'v gomap \<Rightarrow> bool" where
  "map_ok m \<longleftrightarrow> distinct (map fst m)"

lemma map_ok_Nil [simp, inv_intros]: "map_ok []"
  by (simp add: map_ok_def)

lemma map_ok_update [inv_intros]: "map_ok m \<Longrightarrow> map_ok (AList.update k v m)"
  by (simp add: map_ok_def AList.distinct_update)

lemma map_ok_delete [inv_intros]: "map_ok m \<Longrightarrow> map_ok (AList.delete k m)"
  by (simp add: map_ok_def AList.distinct_delete)

lemma map_ok_filter [inv_intros]: "map_ok m \<Longrightarrow> map_ok (filter P m)"
  by (auto simp: map_ok_def distinct_map intro: inj_on_subset)

lemma map_ok_ConsD: "map_ok ((k, v) # m) \<Longrightarrow> map_ok m \<and> k \<notin> fst ` set m"
  by (simp add: map_ok_def)

lemma map_of_filter_key:
  "map_of (filter (\<lambda>(k, v). P k) m) x = (if P x then map_of m x else None)"
  by (induction m) auto

lemma length_map_ok: "map_ok m \<Longrightarrow> length m = card (dom (map_of m))"
  by (metis distinct_card dom_map_of_conv_image_fst length_map list.set_map map_ok_def)

lemma map_of_foldr_update:
  "map_of (fold (\<lambda>(k, v). AList.update k v) kvs m) = (map_of m) ++ map_of (rev kvs)"
  by (induction kvs arbitrary: m) (auto simp: update_conv' map_add_upds fun_eq_iff map_add_def
      split: option.splits)

section \<open>Lists\<close>

lemma find_Some_in: "List.find P xs = Some x \<Longrightarrow> x \<in> set xs \<and> P x"
  by (induction xs) (auto split: if_splits)

lemma find_None_iff_all: "List.find P xs = None \<longleftrightarrow> (\<forall>x \<in> set xs. \<not> P x)"
  by (induction xs) auto

lemma find_append:
  "List.find P (xs @ ys) = (case List.find P xs of None \<Rightarrow> List.find P ys | Some x \<Rightarrow> Some x)"
  by (induction xs) auto

lemma map_of_find: "map_of kvs k = map_option snd (List.find (\<lambda>p. fst p = k) kvs)"
  by (induction kvs) auto

lemma find_filter: "List.find P (filter Q xs) = List.find (\<lambda>x. Q x \<and> P x) xs"
  by (induction xs) auto

lemma find_map: "List.find P (map f xs) = map_option f (List.find (P \<circ> f) xs)"
  by (induction xs) auto

section \<open>Step systems and their invariants\<close>

text \<open>
  A state machine of the model is a predicate on start states and a step relation. The
  reachable states are those a finite run of steps leads to.
\<close>

definition reachable :: "('s \<Rightarrow> bool) \<Rightarrow> ('s \<Rightarrow> 's \<Rightarrow> bool) \<Rightarrow> 's \<Rightarrow> bool" where
  "reachable start step s \<longleftrightarrow> (\<exists>s0. start s0 \<and> step\<^sup>*\<^sup>* s0 s)"

lemma reachable_start: "start s \<Longrightarrow> reachable start step s"
  by (auto simp: reachable_def)

lemma reachable_step: "reachable start step s \<Longrightarrow> step s t \<Longrightarrow> reachable start step t"
  by (auto simp: reachable_def intro: rtranclp.rtrancl_into_rtrancl)

text \<open>
  The interface a machine with an invariant offers: whoever provides a start predicate, a
  step relation and a state predicate that the steps keep gets the facts below for every
  reachable state and every run.
\<close>

locale inv_system =
  fixes start :: "'s \<Rightarrow> bool"
    and step :: "'s \<Rightarrow> 's \<Rightarrow> bool"
    and good :: "'s \<Rightarrow> bool"
  assumes start_good: "start s \<Longrightarrow> good s"
    and step_good: "good s \<Longrightarrow> step s t \<Longrightarrow> good t"
begin

lemma run_good: "step\<^sup>*\<^sup>* s t \<Longrightarrow> good s \<Longrightarrow> good t"
  by (induction rule: rtranclp_induct) (auto intro: step_good)

lemma reachable_good: "reachable start step s \<Longrightarrow> good s"
  by (auto simp: reachable_def intro: run_good start_good)

end

text \<open>
  A machine that also has a measure every step decreases cannot run forever: every run from a
  state is bounded by the measure of that state.
\<close>

locale terminating_system = inv_system +
  fixes rank :: "'s \<Rightarrow> nat"
  assumes step_rank: "good s \<Longrightarrow> step s t \<Longrightarrow> rank t < rank s"
begin

lemma run_length: "(step ^^ n) s t \<Longrightarrow> good s \<Longrightarrow> n + rank t \<le> rank s"
proof (induction n arbitrary: t)
  case 0
  then show ?case by simp
next
  case (Suc n)
  from Suc.prems(1) obtain u where u: "(step ^^ n) s u" "step u t" by auto
  have "good u" using u(1) Suc.prems(2) by (auto intro: run_good dest: relpowp_imp_rtranclp)
  then have "rank t < rank u" using u(2) by (rule step_rank)
  moreover have "n + rank u \<le> rank s" using u(1) Suc.prems(2) by (rule Suc.IH)
  ultimately show ?case by simp
qed

lemma ends: "good s \<Longrightarrow> \<exists>t. step\<^sup>*\<^sup>* s t \<and> (\<forall>u. \<not> step t u)"
proof (induction "rank s" arbitrary: s rule: less_induct)
  case less
  show ?case
  proof (cases "\<exists>u. step s u")
    case True
    then obtain u where u: "step s u" by blast
    have "\<exists>t. step\<^sup>*\<^sup>* u t \<and> (\<forall>v. \<not> step t v)"
      by (rule less.hyps) (use u less.prems step_rank step_good in auto)
    then show ?thesis using u by (meson converse_rtranclp_into_rtranclp)
  qed auto
qed

end

section \<open>A store that is reloaded\<close>

text \<open>
  The contract of a hot-reloaded value: an attempt that yields a value replaces the stored one,
  an attempt that fails leaves it. After any sequence of attempts the stored value is that of
  the last one that yielded any.
\<close>

locale reloadable =
  fixes attempt :: "'f \<Rightarrow> 'm \<Rightarrow> 'm"
    and stored :: "'m \<Rightarrow> 'v option"
    and yields :: "'m \<Rightarrow> 'f \<Rightarrow> 'v option"
  assumes attempt_stored:
      "stored (attempt f m) = (case yields m f of Some v \<Rightarrow> Some v | None \<Rightarrow> stored m)"
    and attempt_yields: "yields (attempt f m) = yields m"
begin

lemma attempts_yields: "yields (fold attempt fs m) = yields m"
  by (induction fs arbitrary: m) (simp_all add: attempt_yields)

lemma attempts_stored:
  "stored (fold attempt fs m) =
     (case List.find (\<lambda>f. yields m f \<noteq> None) (rev fs) of
        Some f \<Rightarrow> yields m f | None \<Rightarrow> stored m)"
proof (induction fs rule: rev_induct)
  case Nil
  then show ?case by simp
next
  case (snoc f fs)
  then show ?case
    by (cases "yields m f") (simp_all add: attempt_stored attempts_yields)
qed

lemma stored_stays: "stored m \<noteq> None \<Longrightarrow> stored (fold attempt fs m) \<noteq> None"
  by (auto simp: attempts_stored dest!: find_Some_in split: option.splits)

lemma stored_good:
  assumes "\<And>f v. yields m f = Some v \<Longrightarrow> good v" "\<And>v. stored m = Some v \<Longrightarrow> good v"
    and "stored (fold attempt fs m) = Some v"
  shows "good v"
  using assms by (auto simp: attempts_stored split: option.splits)

end

end
