(* ===== verification/Go_Strings.thy ===== *)
theory Go_Strings
  imports Prelude
begin

text \<open>
  What the program uses of Go's \<open>strings\<close>, \<open>strconv\<close> and \<open>net/textproto\<close>
  packages, on byte strings: prefix and suffix tests, case conversion, \<open>Index\<close>,
  \<open>ParseUint\<close>, decimal printing and the canonical form of header names.

  \<open>strings.ToLower\<close> maps ASCII strings byte by byte; on a string with a byte above 127
  it decodes UTF-8 and consults the Unicode tables. That second case is the parameter
  \<open>ul\<close> of \<open>ToLower\<close>: every definition that lowers a string takes it as an argument,
  and the theorems hold for every such function.
\<close>

section \<open>Bytes\<close>

definition byte :: "char \<Rightarrow> nat" where
  "byte c = of_char c"

definition is_ascii :: "string \<Rightarrow> bool" where
  "is_ascii s \<longleftrightarrow> list_all (\<lambda>c. byte c < 128) s"

definition is_digit :: "char \<Rightarrow> bool" where
  "is_digit c \<longleftrightarrow> 48 \<le> byte c \<and> byte c \<le> 57"

definition is_upper :: "char \<Rightarrow> bool" where
  "is_upper c \<longleftrightarrow> 65 \<le> byte c \<and> byte c \<le> 90"

definition is_lower :: "char \<Rightarrow> bool" where
  "is_lower c \<longleftrightarrow> 97 \<le> byte c \<and> byte c \<le> 122"

definition lower_byte :: "char \<Rightarrow> char" where
  "lower_byte c = (if is_upper c then char_of (byte c + 32) else c)"

definition upper_byte :: "char \<Rightarrow> char" where
  "upper_byte c = (if is_lower c then char_of (byte c - 32) else c)"

text \<open>
  The same tests on the bits of a character: they evaluate on literals, in the simplifier
  (collection \<open>eval_simps\<close>) as in generated code.
\<close>

named_theorems eval_simps \<open>rules that evaluate the string functions on literals\<close>

lemma is_digit_Char [code, eval_simps]:
  "is_digit (Char b0 b1 b2 b3 b4 b5 b6 b7) \<longleftrightarrow>
     \<not> b7 \<and> \<not> b6 \<and> b5 \<and> b4 \<and> \<not> (b3 \<and> (b2 \<or> b1))"
  by (cases b0; cases b1; cases b2; cases b3; cases b4; cases b5; cases b6; cases b7)
     (simp_all add: is_digit_def byte_def)

lemma is_upper_Char [code, eval_simps]:
  "is_upper (Char b0 b1 b2 b3 b4 b5 b6 b7) \<longleftrightarrow>
     \<not> b7 \<and> b6 \<and> \<not> b5 \<and> (b0 \<or> b1 \<or> b2 \<or> b3 \<or> b4) \<and> \<not> (b4 \<and> b3 \<and> (b2 \<or> b1 \<and> b0))"
  by (cases b0; cases b1; cases b2; cases b3; cases b4; cases b5; cases b6; cases b7)
     (simp_all add: is_upper_def byte_def)

lemma is_lower_Char [code, eval_simps]:
  "is_lower (Char b0 b1 b2 b3 b4 b5 b6 b7) \<longleftrightarrow>
     \<not> b7 \<and> b6 \<and> b5 \<and> (b0 \<or> b1 \<or> b2 \<or> b3 \<or> b4) \<and> \<not> (b4 \<and> b3 \<and> (b2 \<or> b1 \<and> b0))"
  by (cases b0; cases b1; cases b2; cases b3; cases b4; cases b5; cases b6; cases b7)
     (simp_all add: is_lower_def byte_def)

lemma ascii_Char [eval_simps]: "byte (Char b0 b1 b2 b3 b4 b5 b6 b7) < 128 \<longleftrightarrow> \<not> b7"
  by (cases b0; cases b1; cases b2; cases b3; cases b4; cases b5; cases b6; cases b7)
     (simp_all add: byte_def)

lemma lower_byte_Char [code, eval_simps]:
  "lower_byte (Char b0 b1 b2 b3 b4 b5 b6 b7) =
     (if is_upper (Char b0 b1 b2 b3 b4 b5 b6 b7) then Char b0 b1 b2 b3 b4 True b6 b7
      else Char b0 b1 b2 b3 b4 b5 b6 b7)"
proof (cases "is_upper (Char b0 b1 b2 b3 b4 b5 b6 b7)")
  case True
  then have "\<not> b5" by (simp add: is_upper_Char)
  then have "(of_char (Char b0 b1 b2 b3 b4 b5 b6 b7) :: nat) + 32 =
    of_char (Char b0 b1 b2 b3 b4 True b6 b7)" by simp
  then show ?thesis using True by (simp add: lower_byte_def byte_def del: of_char_Char)
qed (simp add: lower_byte_def)

lemma upper_byte_Char [code, eval_simps]:
  "upper_byte (Char b0 b1 b2 b3 b4 b5 b6 b7) =
     (if is_lower (Char b0 b1 b2 b3 b4 b5 b6 b7) then Char b0 b1 b2 b3 b4 False b6 b7
      else Char b0 b1 b2 b3 b4 b5 b6 b7)"
proof (cases "is_lower (Char b0 b1 b2 b3 b4 b5 b6 b7)")
  case True
  then have "b5" by (simp add: is_lower_Char)
  then have "(of_char (Char b0 b1 b2 b3 b4 b5 b6 b7) :: nat) - 32 =
    of_char (Char b0 b1 b2 b3 b4 False b6 b7)" by simp
  then show ?thesis using True by (simp add: upper_byte_def byte_def del: of_char_Char)
qed (simp add: upper_byte_def)

definition crlf :: string where
  "crlf = [CHR 0x0D, CHR 0x0A]"

lemma byte_char_of [simp]: "n < 256 \<Longrightarrow> byte (char_of n) = n"
  by (simp add: byte_def)

lemma byte_less [simp]: "byte c < 256"
  by (simp add: byte_def)

lemma byte_inject: "byte c = byte d \<longleftrightarrow> c = d"
  by (simp add: byte_def)

lemma byte_lower: "byte (lower_byte c) = (if is_upper c then byte c + 32 else byte c)"
  by (simp add: lower_byte_def is_upper_def)

lemma byte_upper: "byte (upper_byte c) = (if is_lower c then byte c - 32 else byte c)"
proof -
  have "byte c - 32 < 256" using byte_less [of c] by linarith
  then show ?thesis by (simp add: upper_byte_def)
qed

lemma not_upper_lower_byte [simp]: "\<not> is_upper (lower_byte c)"
  by (simp add: is_upper_def byte_lower)

lemma lower_byte_idem [simp]: "lower_byte (lower_byte c) = lower_byte c"
  by (metis lower_byte_def not_upper_lower_byte)

lemma lower_byte_eq_iff:
  "is_upper c = is_upper d \<Longrightarrow> lower_byte c = lower_byte d \<longleftrightarrow> c = d"
  by (auto simp: byte_inject [symmetric] byte_lower)

lemma lower_byte_other: "\<not> is_upper c \<Longrightarrow> lower_byte c = c"
  by (simp add: lower_byte_def)

lemma lower_byte_eq_sep:
  "\<not> is_lower d \<Longrightarrow> \<not> is_upper d \<Longrightarrow> lower_byte c = d \<longleftrightarrow> c = d"
  by (auto simp: byte_inject [symmetric] byte_lower is_lower_def is_upper_def)

lemma is_ascii_code [code]:
  "is_ascii s = list_all (\<lambda>c. case c of Char b0 b1 b2 b3 b4 b5 b6 b7 \<Rightarrow> \<not> b7) s"
  unfolding is_ascii_def by (rule list.pred_cong) (auto simp: ascii_Char split: char.splits)

lemma is_ascii_append [simp]: "is_ascii (s @ t) \<longleftrightarrow> is_ascii s \<and> is_ascii t"
  by (simp add: is_ascii_def)

lemma is_ascii_Cons [simp]: "is_ascii (c # t) \<longleftrightarrow> byte c < 128 \<and> is_ascii t"
  by (simp add: is_ascii_def)

lemma is_ascii_Nil [simp]: "is_ascii []"
  by (simp add: is_ascii_def)

lemma is_ascii_map_lower [simp]: "is_ascii (map lower_byte s) = is_ascii s"
  by (induction s) (auto simp: byte_lower is_upper_def)

section \<open>Package strings\<close>

definition HasPrefix :: "string \<Rightarrow> string \<Rightarrow> bool" where
  "HasPrefix s p \<longleftrightarrow> prefix p s"

definition HasSuffix :: "string \<Rightarrow> string \<Rightarrow> bool" where
  "HasSuffix s p \<longleftrightarrow> suffix p s"

definition TrimSuffix :: "string \<Rightarrow> string \<Rightarrow> string" where
  "TrimSuffix s p = (if HasSuffix s p then take (length s - length p) s else s)"

definition ToLower :: "(string \<Rightarrow> string) \<Rightarrow> string \<Rightarrow> string" where
  "ToLower ul s = (if is_ascii s then map lower_byte s else ul s)"

text \<open>The least position at which \<open>p\<close> occurs in \<open>s\<close>, as in \<open>strings.Index\<close>.\<close>

fun Index :: "string \<Rightarrow> string \<Rightarrow> nat option" where
  "Index [] p = (if p = [] then Some 0 else None)"
| "Index (c # s) p = (if prefix p (c # s) then Some 0 else map_option Suc (Index s p))"

definition IndexByte :: "string \<Rightarrow> char \<Rightarrow> nat option" where
  "IndexByte s c = Index s [c]"

definition LastIndexByte :: "string \<Rightarrow> char \<Rightarrow> nat option" where
  "LastIndexByte s c = map_option (\<lambda>i. length s - Suc i) (IndexByte (rev s) c)"

lemma HasSuffix_append [simp]: "HasSuffix (s @ p) p"
  by (auto simp: HasSuffix_def suffix_def)

lemma HasSuffix_iff: "HasSuffix s p \<longleftrightarrow> (\<exists>q. s = q @ p)"
  by (auto simp: HasSuffix_def suffix_def)

lemma HasPrefix_iff: "HasPrefix s p \<longleftrightarrow> (\<exists>q. s = p @ q)"
  by (auto simp: HasPrefix_def prefix_def)

lemma TrimSuffix_append [simp]: "TrimSuffix (s @ p) p = s"
  by (simp add: TrimSuffix_def)

lemma TrimSuffix_other: "\<not> HasSuffix s p \<Longrightarrow> TrimSuffix s p = s"
  by (simp add: TrimSuffix_def)

lemma TrimSuffix_ascii: "is_ascii s \<Longrightarrow> is_ascii (TrimSuffix s p)"
  by (auto simp: TrimSuffix_def is_ascii_def list_all_iff dest: in_set_takeD)

lemma ToLower_ascii: "is_ascii s \<Longrightarrow> ToLower ul s = map lower_byte s"
  by (simp add: ToLower_def)

lemma Index_bound: "Index s p = Some i \<Longrightarrow> i + length p \<le> length s"
  by (induction s p arbitrary: i rule: Index.induct)
     (auto split: if_splits dest: prefix_length_le)

lemma Index_prefix: "Index s p = Some i \<Longrightarrow> prefix p (drop i s)"
  by (induction s p arbitrary: i rule: Index.induct) (auto split: if_splits)

lemma Index_first: "Index s p = Some i \<Longrightarrow> j < i \<Longrightarrow> \<not> prefix p (drop j s)"
proof (induction s p arbitrary: i j rule: Index.induct)
  case (2 c s p)
  then show ?case by (cases j) (auto split: if_splits)
qed (auto split: if_splits)

lemma Index_None: "Index s p = None \<Longrightarrow> \<not> sublist p s"
proof (induction s p rule: Index.induct)
  case (2 c s p)
  then show ?case by (auto split: if_splits simp: sublist_Cons_right)
qed (auto split: if_splits)

lemma Index_append_at:
  assumes "\<And>j. j < length a \<Longrightarrow> \<not> prefix p (drop j (a @ p @ b))"
  shows "Index (a @ p @ b) p = Some (length a)"
  using assms
proof (induction a)
  case Nil
  have "prefix p (p @ b)" by simp
  then show ?case by (cases "p @ b") auto
next
  case (Cons c a)
  have "\<not> prefix p (c # a @ p @ b)" using Cons.prems [of 0] by simp
  moreover have "Index (a @ p @ b) p = Some (length a)"
    by (rule Cons.IH) (use Cons.prems [of "Suc j" for j] in auto)
  ultimately show ?case by simp
qed

lemma IndexByte_None [simp]: "IndexByte s c = None \<longleftrightarrow> c \<notin> set s"
  by (induction s) (auto simp: IndexByte_def)

lemma IndexByte_append: "c \<notin> set a \<Longrightarrow> IndexByte (a @ c # b) c = Some (length a)"
  by (induction a) (auto simp: IndexByte_def)

lemma LastIndexByte_None: "LastIndexByte s c = None \<longleftrightarrow> c \<notin> set s"
  by (simp add: LastIndexByte_def)

lemma LastIndexByte_append: "c \<notin> set b \<Longrightarrow> LastIndexByte (a @ c # b) c = Some (length a)"
  by (simp add: LastIndexByte_def IndexByte_append)

lemma LastIndexByte_Some:
  assumes "LastIndexByte s c = Some i"
  obtains a b where "s = a @ c # b" "c \<notin> set b" "i = length a"
proof -
  have "c \<in> set s" using assms LastIndexByte_None [of s c] by (metis option.distinct(1))
  then obtain a b where ab: "s = a @ c # b" "c \<notin> set b" using split_list_last by fastforce
  then have "i = length a" using assms by (simp add: LastIndexByte_append)
  then show thesis using ab that by blast
qed

section \<open>strconv.ParseUint in base 10\<close>

datatype num_error = ErrSyntax | ErrRange

definition digit_val :: "char \<Rightarrow> 64 word" where
  "digit_val c = of_nat (byte c - 48)"

text \<open>The cutoff is \<open>maxUint64/base + 1\<close>: multiplying a larger number overflows.\<close>

definition cutoff10 :: "64 word" where
  "cutoff10 = 1844674407370955162"

fun parse_uint_loop :: "64 word \<Rightarrow> 64 word \<Rightarrow> string \<Rightarrow> num_error + 64 word" where
  "parse_uint_loop maxv n [] = Inr n"
| "parse_uint_loop maxv n (c # s) =
     (if \<not> is_digit c then Inl ErrSyntax
      else if cutoff10 \<le> n then Inl ErrRange
      else let m = n * 10; n1 = m + digit_val c
           in if n1 < m \<or> maxv < n1 then Inl ErrRange else parse_uint_loop maxv n1 s)"

definition ParseUint32 :: "string \<Rightarrow> num_error + 64 word" where
  "ParseUint32 s = (if s = [] then Inl ErrSyntax else parse_uint_loop (2 ^ 32 - 1) 0 s)"

text \<open>The number a string of decimal digits denotes.\<close>

fun dec_acc :: "nat \<Rightarrow> string \<Rightarrow> nat" where
  "dec_acc n [] = n"
| "dec_acc n (c # s) = dec_acc (10 * n + (byte c - 48)) s"

definition dec_val :: "string \<Rightarrow> nat" where
  "dec_val s = dec_acc 0 s"

lemma dec_acc_mono: "n \<le> dec_acc n s"
proof (induction s arbitrary: n)
  case (Cons c s)
  have "n \<le> 10 * n + (byte c - 48)" by simp
  also have "\<dots> \<le> dec_acc (10 * n + (byte c - 48)) s" by (rule Cons.IH)
  finally show ?case by simp
qed simp

lemma parse_uint_step:
  fixes n :: "64 word"
  assumes n: "unat n < 2 ^ 32" and d: "is_digit c"
  shows "unat (n * 10 + digit_val c) = 10 * unat n + (byte c - 48)"
    and "\<not> cutoff10 \<le> n" and "\<not> n * 10 + digit_val c < n * 10"
proof -
  have dv: "unat (digit_val c) = byte c - 48"
  proof -
    have "byte c - 48 < 18446744073709551616" using byte_less [of c] by linarith
    then show ?thesis unfolding digit_val_def unat_of_nat by simp
  qed
  have m: "unat (n * 10) = 10 * unat n"
    using n by (simp add: unat_word_ariths)
  have dl: "byte c - 48 < 10" using d unfolding is_digit_def by arith
  show s: "unat (n * 10 + digit_val c) = 10 * unat n + (byte c - 48)"
    using n dl by (simp add: unat_word_ariths(1) m dv)
  show "\<not> cutoff10 \<le> n"
    using n by (simp add: cutoff10_def word_le_nat_alt)
  show "\<not> n * 10 + digit_val c < n * 10"
    using s m by (simp add: word_less_nat_alt)
qed

text \<open>
  In the 32-bit range the word arithmetic never wraps: the loop computes the decimal value,
  and it fails exactly when a byte is no digit or the value needs more than 32 bits.
\<close>

lemma parse_uint_loop_correct:
  assumes "unat n < 2 ^ 32" and "list_all is_digit s"
  shows "parse_uint_loop (2 ^ 32 - 1) n s =
    (if dec_acc (unat n) s < 2 ^ 32 then Inr (of_nat (dec_acc (unat n) s)) else Inl ErrRange)"
  using assms
proof (induction s arbitrary: n)
  case (Cons c s)
  let ?n1 = "n * 10 + digit_val c"
  have c: "is_digit c" "list_all is_digit s" using Cons.prems by auto
  note st = parse_uint_step [OF Cons.prems(1) c(1)]
  have gt: "(2 ^ 32 - 1 < ?n1) \<longleftrightarrow> \<not> unat ?n1 < 2 ^ 32"
    by (simp add: word_less_nat_alt) arith
  show ?case
  proof (cases "unat ?n1 < 2 ^ 32")
    case True
    then show ?thesis using st c gt Cons.IH [OF True c(2)] by (simp add: Let_def)
  next
    case False
    moreover have "unat ?n1 \<le> dec_acc (unat ?n1) s" by (rule dec_acc_mono)
    ultimately show ?thesis using st c gt by (simp add: Let_def)
  qed
qed simp

lemma parse_uint_loop_syntax:
  "\<not> list_all is_digit s \<Longrightarrow> \<exists>e. parse_uint_loop maxv n s = Inl e"
  by (induction maxv n s rule: parse_uint_loop.induct) (auto simp: Let_def)

lemma ParseUint32_Inr:
  "ParseUint32 s = Inr p \<longleftrightarrow>
     s \<noteq> [] \<and> list_all is_digit s \<and> dec_val s < 2 ^ 32 \<and> p = of_nat (dec_val s)"
proof (cases "s \<noteq> [] \<and> list_all is_digit s")
  case True
  then show ?thesis
    using parse_uint_loop_correct [of 0 s] by (auto simp: ParseUint32_def dec_val_def)
next
  case False
  then show ?thesis
    using parse_uint_loop_syntax [of s "2 ^ 32 - 1" 0] by (auto simp: ParseUint32_def)
qed

section \<open>Decimal printing\<close>

fun nat_dec :: "nat \<Rightarrow> string" where
  "nat_dec n = (if n < 10 then [char_of (48 + n)]
                else nat_dec (n div 10) @ [char_of (48 + n mod 10)])"

declare nat_dec.simps [simp del]

lemma dec_acc_append: "dec_acc n (s @ t) = dec_acc (dec_acc n s) t"
  by (induction s arbitrary: n) auto

lemma nat_dec_val: "dec_val (nat_dec n) = n"
proof (induction n rule: nat_dec.induct)
  case (1 n)
  then show ?case
    by (cases "n < 10")
       (auto simp: nat_dec.simps [of n] dec_val_def dec_acc_append)
qed

lemma nat_dec_digits: "list_all is_digit (nat_dec n)"
proof (induction n rule: nat_dec.induct)
  case (1 n)
  then show ?case
    by (cases "n < 10") (auto simp: nat_dec.simps [of n] is_digit_def)
qed

lemma nat_dec_nonempty: "nat_dec n \<noteq> []"
  by (subst nat_dec.simps) simp

lemma ParseUint32_nat_dec: "n < 2 ^ 32 \<Longrightarrow> ParseUint32 (nat_dec n) = Inr (of_nat n)"
  by (simp add: ParseUint32_Inr nat_dec_val nat_dec_digits nat_dec_nonempty)

section \<open>Canonical header names\<close>

text \<open>
  \<open>textproto.CanonicalMIMEHeaderKey\<close>: a name made of token bytes only is put into the
  form \<open>Xxx-Yyy\<close>, any other name (the empty one included) is left as it is. Token bytes
  are the letters, the digits and fifteen punctuation marks.
\<close>

definition valid_header_byte :: "char \<Rightarrow> bool" where
  "valid_header_byte c \<longleftrightarrow> is_digit c \<or> is_upper c \<or> is_lower c \<or>
     c \<in> set [CHR 0x21, CHR 0x23, CHR 0x24, CHR 0x25, CHR 0x26, CHR 0x27, CHR 0x2A, CHR 0x2B,
              CHR 0x2D, CHR 0x2E, CHR 0x5E, CHR 0x5F, CHR 0x60, CHR 0x7C, CHR 0x7E]"

fun canon_loop :: "bool \<Rightarrow> string \<Rightarrow> string" where
  "canon_loop up [] = []"
| "canon_loop up (c # s) =
     (let d = (if up then upper_byte c else lower_byte c) in d # canon_loop (d = CHR ''-'') s)"

definition CanonicalKey :: "string \<Rightarrow> string" where
  "CanonicalKey s = (if list_all valid_header_byte s then canon_loop True s else s)"

lemma upper_byte_idem [simp]: "upper_byte (upper_byte c) = upper_byte c"
  by (auto simp: byte_inject [symmetric] byte_upper is_lower_def)

lemma canon_loop_idem: "canon_loop up (canon_loop up s) = canon_loop up s"
  by (induction up s rule: canon_loop.induct) (auto simp: Let_def)

lemma valid_upper_lower:
  "valid_header_byte c \<Longrightarrow> valid_header_byte (upper_byte c) \<and> valid_header_byte (lower_byte c)"
  by (auto simp: valid_header_byte_def upper_byte_def lower_byte_def is_upper_def is_lower_def)

lemma canon_loop_valid:
  "list_all valid_header_byte s \<Longrightarrow> list_all valid_header_byte (canon_loop up s)"
  by (induction up s rule: canon_loop.induct) (auto simp: Let_def valid_upper_lower)

lemma CanonicalKey_idem [simp]: "CanonicalKey (CanonicalKey s) = CanonicalKey s"
  by (simp add: CanonicalKey_def canon_loop_idem canon_loop_valid)

lemma lower_upper_byte [simp]: "lower_byte (upper_byte c) = lower_byte c"
  by (auto simp: byte_inject [symmetric] byte_upper byte_lower is_lower_def is_upper_def)

lemma map_lower_canon_loop [simp]: "map lower_byte (canon_loop up s) = map lower_byte s"
  by (induction up s rule: canon_loop.induct) (auto simp: Let_def)

lemma map_lower_CanonicalKey [simp]: "map lower_byte (CanonicalKey s) = map lower_byte s"
  by (simp add: CanonicalKey_def)

lemma upper_lower_byte [simp]: "upper_byte (lower_byte c) = upper_byte c"
  by (auto simp: byte_inject [symmetric] byte_upper byte_lower is_lower_def is_upper_def)

lemma canon_loop_cong:
  "map lower_byte s = map lower_byte t \<Longrightarrow> canon_loop up s = canon_loop up t"
proof (induction s arbitrary: t up)
  case (Cons c s)
  then obtain d t' where t: "t = d # t'" "lower_byte c = lower_byte d"
    "map lower_byte s = map lower_byte t'" by (cases t) auto
  have "upper_byte c = upper_byte d" by (metis t(2) upper_lower_byte)
  then show ?case using t Cons.IH [OF t(3)] by (simp add: Let_def)
qed simp

lemma valid_lower_iff: "valid_header_byte (lower_byte c) = valid_header_byte c"
proof
  assume a: "valid_header_byte (lower_byte c)"
  show "valid_header_byte c"
    by (cases "is_upper c") (use a in \<open>auto simp: valid_header_byte_def lower_byte_def\<close>)
qed (simp add: valid_upper_lower)

lemma list_all_valid_lower:
  "list_all valid_header_byte (map lower_byte s) = list_all valid_header_byte s"
  by (induction s) (auto simp: valid_lower_iff)

text \<open>
  Names that differ only in case have the same canonical form, unless they contain a byte that
  no token has.
\<close>

lemma CanonicalKey_cong:
  "list_all valid_header_byte s \<Longrightarrow> map lower_byte s = map lower_byte t \<Longrightarrow>
   CanonicalKey s = CanonicalKey t"
  using list_all_valid_lower [of s] list_all_valid_lower [of t] canon_loop_cong [of s t True]
  by (simp add: CanonicalKey_def)

end
