(* ===== verification/Go_Net.thy ===== *)
theory Go_Net
  imports Go_Strings
begin

text \<open>
  What the program uses of Go's \<open>net\<close> package: \<open>net.SplitHostPort\<close>,
  \<open>net.ParseIP\<close> and \<open>IP.IsLoopback\<close>, with the case order of the library's code.
  Addresses are lists of 8-bit words, sixteen of them once parsed, as in Go.
\<close>

section \<open>SplitHostPort\<close>

datatype addr_error =
    MissingPort | TooManyColons | MissingBracket | UnexpectedOpen | UnexpectedClose

definition colon :: char where "colon = CHR '':''"
definition lbrack :: char where "lbrack = CHR ''[''"
definition rbrack :: char where "rbrack = CHR 0x5D"

text \<open>
  The last part of the library function: no bracket may stand where it is not expected. The
  searches start at the offsets \<open>j\<close> and \<open>k\<close> that the bracketed form has passed.
\<close>

definition check_brackets ::
  "string \<Rightarrow> nat \<Rightarrow> nat \<Rightarrow> string \<Rightarrow> string \<Rightarrow> addr_error + string \<times> string" where
  "check_brackets hostport j k host port =
     (if lbrack \<in> set (drop j hostport) then Inl UnexpectedOpen
      else if rbrack \<in> set (drop k hostport) then Inl UnexpectedClose
      else Inr (host, port))"

definition SplitHostPort :: "string \<Rightarrow> addr_error + string \<times> string" where
  "SplitHostPort hostport =
     (case LastIndexByte hostport colon of
        None \<Rightarrow> Inl MissingPort
      | Some i \<Rightarrow>
          if take 1 hostport = [lbrack] then
            (case IndexByte hostport rbrack of
               None \<Rightarrow> Inl MissingBracket
             | Some e \<Rightarrow>
                 if Suc e = length hostport then Inl MissingPort
                 else if Suc e = i then
                   check_brackets hostport 1 (Suc e) (drop 1 (take e hostport))
                     (drop (Suc i) hostport)
                 else if hostport ! Suc e = colon then Inl TooManyColons
                 else Inl MissingPort)
          else if colon \<in> set (take i hostport) then Inl TooManyColons
          else check_brackets hostport 0 0 (take i hostport) (drop (Suc i) hostport))"

text \<open>A host name with no colon and no bracket, then a port: the plain form.\<close>

lemma SplitHostPort_plain:
  assumes "colon \<notin> set h" "lbrack \<notin> set h" "rbrack \<notin> set h"
    and "colon \<notin> set p" "lbrack \<notin> set p" "rbrack \<notin> set p"
  shows "SplitHostPort (h @ colon # p) = Inr (h, p)"
proof -
  have ne: "colon \<noteq> lbrack" "colon \<noteq> rbrack" by (simp_all add: colon_def lbrack_def rbrack_def)
  have "take 1 (h @ colon # p) \<noteq> [lbrack]"
    using assms(2) ne by (cases h) auto
  then show ?thesis
    using assms ne by (simp add: SplitHostPort_def LastIndexByte_append check_brackets_def)
qed

text \<open>An IPv6 literal in brackets, then a port.\<close>

lemma SplitHostPort_bracketed:
  assumes "lbrack \<notin> set h" "rbrack \<notin> set h"
    and "colon \<notin> set p" "lbrack \<notin> set p" "rbrack \<notin> set p"
  shows "SplitHostPort (lbrack # h @ rbrack # colon # p) = Inr (h, p)"
proof -
  let ?s = "lbrack # h @ rbrack # colon # p"
  have ne: "colon \<noteq> lbrack" "colon \<noteq> rbrack" "lbrack \<noteq> rbrack"
    by (simp_all add: colon_def lbrack_def rbrack_def)
  have i: "LastIndexByte ?s colon = Some (length h + 2)"
    using LastIndexByte_append [OF assms(3), of "lbrack # h @ [rbrack]"] by simp
  have e: "IndexByte ?s rbrack = Some (Suc (length h))"
    using IndexByte_append [of rbrack "lbrack # h" "colon # p"] assms(2) ne by simp
  show ?thesis
    using assms ne by (simp add: SplitHostPort_def i e check_brackets_def numeral_2_eq_2)
qed

text \<open>An address without a colon has no port.\<close>

lemma SplitHostPort_no_colon: "colon \<notin> set s \<Longrightarrow> SplitHostPort s = Inl MissingPort"
proof -
  assume "colon \<notin> set s"
  then have "LastIndexByte s colon = None" by (simp add: LastIndexByte_None)
  then show ?thesis by (simp add: SplitHostPort_def)
qed

text \<open>The port the library returns is the text after the last colon, with no colon in it.\<close>

lemma SplitHostPort_port:
  assumes "SplitHostPort s = Inr (h, p)"
  shows "colon \<notin> set p \<and> (\<exists>q. s = q @ colon # p) \<and> (set h \<subseteq> set s)"
proof (cases "LastIndexByte s colon")
  case None
  then show ?thesis using assms by (simp add: SplitHostPort_def)
next
  case (Some i)
  then obtain a b where ab: "s = a @ colon # b" "colon \<notin> set b" "i = length a"
    by (rule LastIndexByte_Some)
  have "p = drop (Suc i) s \<and> set h \<subseteq> set s"
    using assms Some
    by (auto simp: SplitHostPort_def check_brackets_def dest: in_set_takeD in_set_dropD
        split: if_splits option.splits)
  then show ?thesis using ab by auto
qed

section \<open>ParseIP\<close>

type_synonym ip = "8 word list"

definition dot :: char where "dot = CHR ''.''"
definition percent :: char where "percent = CHR 0x25"

text \<open>
  The four octets of a dotted address: each a decimal number of at most 255 without a leading
  zero. The arguments are the value and the digit count of the current octet, the octets read
  so far and the preceding byte.
\<close>

fun parse_ipv4_fields :: "nat \<Rightarrow> nat \<Rightarrow> ip \<Rightarrow> char option \<Rightarrow> string \<Rightarrow> ip option" where
  "parse_ipv4_fields val n fields prev [] =
     (if length fields < 3 then None else Some (fields @ [of_nat val]))"
| "parse_ipv4_fields val n fields prev (c # s) =
     (if is_digit c then
        (if n = 1 \<and> val = 0 then None
         else let v = val * 10 + (byte c - 48)
              in if 255 < v then None else parse_ipv4_fields v (Suc n) fields (Some c) s)
      else if c = dot then
        (if prev = None \<or> s = [] \<or> prev = Some dot then None
         else if length fields = 3 then None
         else parse_ipv4_fields 0 0 (fields @ [of_nat val]) (Some c) s)
      else None)"

definition hex_val :: "char \<Rightarrow> nat option" where
  "hex_val c =
     (if is_digit c then Some (byte c - 48)
      else if 97 \<le> byte c \<and> byte c \<le> 102 then Some (byte c - 97 + 10)
      else if 65 \<le> byte c \<and> byte c \<le> 70 then Some (byte c - 65 + 10)
      else None)"

text \<open>
  A group of hexadecimal digits: the value, the number of digits and the rest, or None when
  the group has more than four digits.
\<close>

fun parse_group :: "nat \<Rightarrow> nat \<Rightarrow> string \<Rightarrow> (nat \<times> nat \<times> string) option" where
  "parse_group acc off [] = Some (acc, off, [])"
| "parse_group acc off (c # s) =
     (case hex_val c of
        None \<Rightarrow> Some (acc, off, c # s)
      | Some d \<Rightarrow> if 3 < off then None
                  else if 65535 < acc * 16 + d then None
                  else parse_group (acc * 16 + d) (Suc off) s)"

lemma parse_group_length:
  "parse_group acc off s = Some (a, n, r) \<Longrightarrow> length r + n = length s + off"
  by (induction acc off s rule: parse_group.induct) (auto split: option.splits if_splits)

text \<open>
  The groups of an IPv6 address. \<open>ip\<close> holds the bytes read so far, \<open>ell\<close> the
  position of the double colon. The loop ends after sixteen bytes or at the end of the text;
  the result still has to be expanded at the double colon.
\<close>

function parse_ipv6_loop ::
  "ip \<Rightarrow> nat option \<Rightarrow> string \<Rightarrow> (ip \<times> nat option \<times> string) option" where
  "parse_ipv6_loop ip ell s =
     (if 16 \<le> length ip then Some (ip, ell, s)
      else case parse_group 0 0 s of
        None \<Rightarrow> None
      | Some (acc, off, r) \<Rightarrow>
          if off = 0 then None
          else if take 1 r = [dot] then
            (if ell = None \<and> length ip \<noteq> 12 then None
             else if 16 < length ip + 4 then None
             else map_option (\<lambda>v4. (ip @ v4, ell, [])) (parse_ipv4_fields 0 0 [] None s))
          else
            let ip' = ip @ [of_nat (acc div 256), of_nat (acc mod 256)] in
            (case r of
               [] \<Rightarrow> Some (ip', ell, [])
             | c # s1 \<Rightarrow>
                 if c \<noteq> colon then None
                 else (case s1 of
                   [] \<Rightarrow> None
                 | d # s2 \<Rightarrow>
                     if d = colon then
                       (if ell \<noteq> None then None
                        else if s2 = [] then Some (ip', Some (length ip'), [])
                        else parse_ipv6_loop ip' (Some (length ip')) s2)
                     else parse_ipv6_loop ip' ell s1)))"
  by pat_completeness auto
termination
  by (relation "measure (\<lambda>(ip, ell, s). length s)") (auto dest: parse_group_length)

declare parse_ipv6_loop.simps [simp del]

text \<open>
  The end of the library function: the whole text must be used up, and the double colon, which
  must stand for at least one group, is expanded with zeros.
\<close>

definition ipv6_finish :: "ip \<times> nat option \<times> string \<Rightarrow> ip option" where
  "ipv6_finish r = (case r of (ip, ell, rest) \<Rightarrow>
     if rest \<noteq> [] then None
     else if length ip < 16 then
       (case ell of
          None \<Rightarrow> None
        | Some e \<Rightarrow> Some (take e ip @ replicate (16 - length ip) 0 @ drop e ip))
     else if ell \<noteq> None then None
     else Some ip)"

definition parse_ipv6 :: "string \<Rightarrow> ip option" where
  "parse_ipv6 s =
     (if percent \<in> set s then None
      else if take 2 s = [colon, colon] then
        (if drop 2 s = [] then Some (replicate 16 0)
         else Option.bind (parse_ipv6_loop [] (Some 0) (drop 2 s)) ipv6_finish)
      else Option.bind (parse_ipv6_loop [] None s) ipv6_finish)"

text \<open>
  \<open>net.ParseIP\<close>: the first dot, colon or percent sign decides between the two
  syntaxes; an address with a zone is no IP. An IPv4 address is kept in its IPv4-mapped form.
\<close>

definition v4_mapped :: "ip \<Rightarrow> ip" where
  "v4_mapped v4 = replicate 10 0 @ [255, 255] @ v4"

definition ParseIP :: "string \<Rightarrow> ip option" where
  "ParseIP s =
     (case List.find (\<lambda>c. c = dot \<or> c = colon \<or> c = percent) s of
        None \<Rightarrow> None
      | Some c \<Rightarrow>
          if c = dot then map_option v4_mapped (parse_ipv4_fields 0 0 [] None s)
          else if c = colon then parse_ipv6 s
          else None)"

definition To4 :: "ip \<Rightarrow> ip option" where
  "To4 ip = (if length ip = 4 then Some ip
             else if length ip = 16 \<and> take 10 ip = replicate 10 0 \<and> ip ! 10 = 255 \<and> ip ! 11 = 255
               then Some (drop 12 ip)
             else None)"

definition IsLoopback :: "ip \<Rightarrow> bool" where
  "IsLoopback ip = (case To4 ip of
      Some v4 \<Rightarrow> v4 ! 0 = 127
    | None \<Rightarrow> ip = replicate 15 0 @ [1])"

lemma parse_ipv4_fields_length:
  "parse_ipv4_fields v n fields prev s = Some ip \<Longrightarrow> length fields \<le> 3 \<Longrightarrow> length ip = 4"
  by (induction v n fields prev s rule: parse_ipv4_fields.induct)
     (auto simp: Let_def split: if_splits)

text \<open>What holds of the loop's result: at most sixteen bytes, the double colon among them.\<close>

definition loop_wf :: "ip \<times> nat option \<times> string \<Rightarrow> bool" where
  "loop_wf r = (case r of (ip, ell, rest) \<Rightarrow>
     length ip \<le> 16 \<and> even (length ip) \<and> (\<forall>e. ell = Some e \<longrightarrow> e \<le> length ip))"

lemma loop_wf_word: "loop_wf (ip, ell, s) \<Longrightarrow> \<not> 16 \<le> length ip \<Longrightarrow>
  loop_wf (ip @ [a, b], ell, s') \<and> loop_wf (ip @ [a, b], Some (length ip + 2), s')"
proof -
  assume w: "loop_wf (ip, ell, s)" and lt: "\<not> 16 \<le> length ip"
  have "even (length ip)" using w by (simp add: loop_wf_def)
  with lt have "length ip + 2 \<le> 16" by presburger
  with w show ?thesis by (auto simp: loop_wf_def)
qed

lemma loop_wf_v4: "parse_ipv4_fields 0 0 [] None s = Some v4 \<Longrightarrow> \<not> 16 < length ip + 4 \<Longrightarrow>
  loop_wf (ip, ell, s') \<Longrightarrow> loop_wf (ip @ v4, ell, [])"
  by (auto simp: loop_wf_def dest!: parse_ipv4_fields_length)

lemma parse_ipv6_loop_wf:
  "parse_ipv6_loop ip ell s = Some r \<Longrightarrow> loop_wf (ip, ell, s) \<Longrightarrow> loop_wf r"
proof (induction ip ell s rule: parse_ipv6_loop.induct)
  case (1 ip ell s)
  note eq = parse_ipv6_loop.simps [of ip ell s]
  show ?case
  proof (cases "16 \<le> length ip")
    case True
    then show ?thesis using "1.prems" eq by auto
  next
    case lt: False
    then obtain acc off t where g: "parse_group 0 0 s = Some (acc, off, t)" and off: "off \<noteq> 0"
      using "1.prems"(1) eq by (auto split: option.splits if_splits)
    note IH = "1.IH" [OF lt g refl refl off]
    note w = loop_wf_word [OF "1.prems"(2) lt]
    show ?thesis
    proof (cases "take 1 t = [dot]")
      case True
      then show ?thesis using "1.prems" eq lt g off loop_wf_v4 [of s _ ip ell s]
        by (auto split: if_splits)
    next
      case nd: False
      show ?thesis
      proof (cases t)
        case Nil
        then show ?thesis using "1.prems"(1) eq lt g off w by (auto simp: Let_def)
      next
        case (Cons c s1)
        then obtain d s2 where s1: "s1 = d # s2" and c: "c = colon"
          using "1.prems"(1) eq lt g off nd by (cases s1) (auto simp: Let_def split: if_splits)
        show ?thesis
          using "1.prems"(1) lt g off nd Cons s1 c w IH(1) [OF nd refl Cons _ s1]
            IH(2) [OF nd refl Cons _ s1]
          by (auto simp: Let_def eq split: if_splits)
      qed
    qed
  qed
qed
lemma ipv6_finish_length: "ipv6_finish r = Some ip \<Longrightarrow> loop_wf r \<Longrightarrow> length ip = 16"
  by (auto simp: ipv6_finish_def loop_wf_def split: if_splits option.splits)

lemma parse_ipv6_length: "parse_ipv6 s = Some ip \<Longrightarrow> length ip = 16"
  by (auto simp: parse_ipv6_def bind_eq_Some_conv loop_wf_def split: if_splits
      dest!: parse_ipv6_loop_wf elim!: ipv6_finish_length)

text \<open>Whatever the syntax, a parsed address has sixteen bytes.\<close>

lemma ParseIP_length: "ParseIP s = Some ip \<Longrightarrow> length ip = 16"
  by (auto simp: ParseIP_def v4_mapped_def dest!: parse_ipv4_fields_length parse_ipv6_length
      split: option.splits if_splits)

lemma IsLoopback_v4: "length v4 = 4 \<Longrightarrow> IsLoopback (v4_mapped v4) \<longleftrightarrow> v4 ! 0 = 127"
  by (simp add: IsLoopback_def To4_def v4_mapped_def nth_append eval_nat_numeral)

section \<open>Printing and reading dotted addresses\<close>

definition print_ipv4 :: "ip \<Rightarrow> string" where
  "print_ipv4 v4 = (case v4 of [a, b, c, d] \<Rightarrow>
      nat_dec (unat a) @ dot # nat_dec (unat b) @ dot # nat_dec (unat c) @ dot # nat_dec (unat d)
    | _ \<Rightarrow> [])"

lemma nat_dec_1: "n < 10 \<Longrightarrow> nat_dec n = [char_of (48 + n)]"
  by (simp add: nat_dec.simps [of n])

lemma nat_dec_more: "10 \<le> n \<Longrightarrow> nat_dec n = nat_dec (n div 10) @ [char_of (48 + n mod 10)]"
  by (simp add: nat_dec.simps [of n])

lemma is_digit_char_of [simp]: "n < 10 \<Longrightarrow> is_digit (char_of (48 + n :: nat))"
  by (simp add: is_digit_def)

lemma not_digit_dot [simp]: "\<not> is_digit dot"
  by (simp add: is_digit_def dot_def byte_def)

text \<open>Reading one digit, then one printed octet: it is consumed and leaves its value.\<close>

lemma parse_digit:
  assumes "k < 10" "n \<noteq> 1 \<or> val \<noteq> 0" "val * 10 + k \<le> 255"
  shows "parse_ipv4_fields val n fields prev (char_of (48 + k) # s) =
    parse_ipv4_fields (val * 10 + k) (Suc n) fields (Some (char_of (48 + k))) s"
  using assms by (auto simp: Let_def)

lemma parse_octet:
  assumes "n < 256"
  shows "\<exists>k c. is_digit c \<and> parse_ipv4_fields 0 0 fields prev (nat_dec n @ s) =
    parse_ipv4_fields n (Suc k) fields (Some c) s"
proof -
  have one: "parse_ipv4_fields 0 0 fields prev (nat_dec n @ s) =
    parse_ipv4_fields n 1 fields (Some (char_of (48 + n))) s" if "n < 10" for n s
    using that parse_digit [of n 0 0 fields prev s] by (simp add: nat_dec_1)
  have two: "parse_ipv4_fields 0 0 fields prev (nat_dec n @ s) =
    parse_ipv4_fields n 2 fields (Some (char_of (48 + n mod 10))) s"
    if "10 \<le> n" "n < 100" for n s
  proof -
    have "n div 10 < 10" "n div 10 \<noteq> 0" "n div 10 * 10 + n mod 10 = n" using that by auto
    then show ?thesis using that one [of "n div 10"]
        parse_digit [of "n mod 10" 1 "n div 10" fields "Some (char_of (48 + n div 10))" s]
      by (simp add: nat_dec_more numeral_2_eq_2)
  qed
  have three: "parse_ipv4_fields 0 0 fields prev (nat_dec n @ s) =
    parse_ipv4_fields n 3 fields (Some (char_of (48 + n mod 10))) s" if "100 \<le> n"
  proof -
    have "10 \<le> n div 10" "n div 10 < 100" "n div 10 * 10 + n mod 10 = n" using assms that by auto
    then show ?thesis using that assms two [of "n div 10"]
        parse_digit [of "n mod 10" 2 "n div 10" fields
          "Some (char_of (48 + n div 10 mod 10))" s]
      by (simp add: nat_dec_more [of n] numeral_3_eq_3)
  qed
  consider "n < 10" | "10 \<le> n" "n < 100" | "100 \<le> n" by linarith
  then show ?thesis
  proof cases
    case 1
    then show ?thesis using one [of n s] is_digit_char_of [of n] by (metis One_nat_def)
  next
    case 2
    then show ?thesis using two [of n s] is_digit_char_of [of "n mod 10"]
      by (metis Suc_1 mod_less_divisor zero_less_numeral)
  next
    case 3
    then show ?thesis using three is_digit_char_of [of "n mod 10"]
      by (metis numeral_3_eq_3 mod_less_divisor zero_less_numeral)
  qed
qed

lemma unat_octet: "unat (a :: 8 word) < 256"
proof -
  have "unat a < 2 ^ LENGTH(8)" by (rule unsigned_less)
  then show ?thesis by simp
qed

lemma parse_octet_dot:
  assumes "length fields < 3" "s \<noteq> []"
  shows "parse_ipv4_fields 0 0 fields prev (nat_dec (unat a) @ dot # s) =
    parse_ipv4_fields 0 0 (fields @ [a]) (Some dot) s"
proof -
  from parse_octet [OF unat_octet [of a], of fields prev "dot # s"] obtain k c where
    "is_digit c" "parse_ipv4_fields 0 0 fields prev (nat_dec (unat a) @ dot # s) =
      parse_ipv4_fields (unat a) (Suc k) fields (Some c) (dot # s)" by blast
  then show ?thesis using assms by auto
qed

lemma parse_octet_end:
  assumes "length fields = 3"
  shows "parse_ipv4_fields 0 0 fields prev (nat_dec (unat a)) = Some (fields @ [a])"
proof -
  from parse_octet [OF unat_octet [of a], of fields prev "[]"] show ?thesis using assms by auto
qed

lemma parse_print_ipv4:
  assumes "length v4 = 4"
  shows "parse_ipv4_fields 0 0 [] None (print_ipv4 v4) = Some v4"
proof -
  obtain a b c d where "v4 = [a, b, c, d]"
    using assms by (auto simp: numeral_eq_Suc length_Suc_conv)
  then show ?thesis
    by (simp add: print_ipv4_def parse_octet_dot parse_octet_end nat_dec_nonempty)
qed

lemma digit_sep: "is_digit c \<Longrightarrow> c \<noteq> colon \<and> c \<noteq> percent \<and> c \<noteq> lbrack \<and> c \<noteq> rbrack \<and> c \<noteq> dot"
  by (auto simp: is_digit_def colon_def percent_def lbrack_def rbrack_def dot_def byte_def)

lemma nat_dec_sep: "c \<in> set (nat_dec n) \<Longrightarrow> is_digit c"
  using nat_dec_digits [of n] by (auto simp: list_all_iff)

lemma print_ipv4_bytes: "c \<in> set (print_ipv4 v4) \<Longrightarrow> is_digit c \<or> c = dot"
  by (auto simp: print_ipv4_def split: list.splits dest: nat_dec_sep)

lemma find_digits_dot:
  "list_all is_digit s \<Longrightarrow>
   List.find (\<lambda>c. c = dot \<or> c = colon \<or> c = percent) (s @ dot # t) = Some dot"
  by (induction s) (auto dest: digit_sep)

lemma ParseIP_print:
  assumes "length v4 = 4"
  shows "ParseIP (print_ipv4 v4) = Some (v4_mapped v4)"
proof -
  obtain a b c d where v: "v4 = [a, b, c, d]"
    using assms by (auto simp: numeral_eq_Suc length_Suc_conv)
  have "List.find (\<lambda>c. c = dot \<or> c = colon \<or> c = percent) (print_ipv4 v4) = Some dot"
    by (simp add: v print_ipv4_def find_digits_dot nat_dec_digits)
  then show ?thesis by (simp add: ParseIP_def parse_print_ipv4 [OF assms])
qed

end
