(* ===== verification/Watcher.thy ===== *)
theory Watcher
  imports Go_Net
begin

text \<open>
  The ServiceEntry watcher (internal/serviceentry/watcher.go, handlers.go): the allowlist it
  keeps, \<open>AllowHost\<close> and \<open>rebuild\<close>.

  The tables are exactly the code's: a map from exact host names and a list of wildcard
  suffixes. Beside them stands the abstract reading of a listing, the flat list of its rules
  in order, and the decision made by scanning that list; \<open>AllowHost\<close> after
  \<open>rebuild\<close> is proved to be that scan. The ServiceEntry listing itself comes from the
  Kubernetes client library and is an argument (None when the lister fails).
\<close>

section \<open>Data\<close>

record host_entry =
  Namespace :: string
  Name :: string
  Ports :: "port list"
  AllowedPorts :: "port list"

record wildcard_entry =
  Suffix :: string
  Entry :: host_entry

record watcher =
  hosts :: "host_entry gomap"
  wildcards :: "wildcard_entry list"
  synced :: bool

text \<open>The parts of a ServiceEntry object the code reads.\<close>

record service_port =
  Number :: port

record service_entry =
  se_Namespace :: string
  se_Name :: string
  Spec_Hosts :: "string list"
  Spec_Ports :: "service_port list"

definition no_entry :: host_entry where
  "no_entry = \<lparr>Namespace = [], Name = [], Ports = [], AllowedPorts = []\<rparr>"

text \<open>The watcher as \<open>NewWatcher\<close> returns it.\<close>

definition NewWatcher :: watcher where
  "NewWatcher = \<lparr>hosts = [], wildcards = [], synced = False\<rparr>"

definition Synced :: "watcher \<Rightarrow> bool" where
  "Synced w = synced w"

definition Count :: "watcher \<Rightarrow> nat" where
  "Count w = length (hosts w) + length (wildcards w)"

section \<open>AllowHost\<close>

definition norm_host :: "(string \<Rightarrow> string) \<Rightarrow> string \<Rightarrow> string" where
  "norm_host ul h = ToLower ul (TrimSuffix h ''.'')"

fun port_loop :: "port list \<Rightarrow> port \<Rightarrow> bool" where
  "port_loop [] port = False"
| "port_loop (p # ps) port = (if p = port then True else port_loop ps port)"

definition portAllowed :: "host_entry \<Rightarrow> port \<Rightarrow> bool" where
  "portAllowed e port = (if length (AllowedPorts e) = 0 then True else port_loop (AllowedPorts e) port)"

fun wildcard_loop :: "wildcard_entry list \<Rightarrow> string \<Rightarrow> port \<Rightarrow> bool \<times> host_entry" where
  "wildcard_loop [] host port = (False, no_entry)"
| "wildcard_loop (wc # ws) host port =
     (if HasSuffix host (Suffix wc) then
        (if portAllowed (Entry wc) port then (True, Entry wc) else (False, Entry wc))
      else wildcard_loop ws host port)"

definition AllowHost ::
  "(string \<Rightarrow> string) \<Rightarrow> watcher \<Rightarrow> string \<Rightarrow> port \<Rightarrow> bool \<times> host_entry" where
  "AllowHost ul w host0 port =
     (let host = norm_host ul host0 in
      case map_of (hosts w) host of
        Some entry \<Rightarrow> if portAllowed entry port then (True, entry) else (False, entry)
      | None \<Rightarrow> wildcard_loop (wildcards w) host port)"

section \<open>rebuild\<close>

definition star_dot :: string where
  "star_dot = ''*.''"

text \<open>The inner loop over the hosts of one ServiceEntry, on the pair of new tables.\<close>

fun host_loop ::
  "(string \<Rightarrow> string) \<Rightarrow> service_entry \<Rightarrow> port list \<Rightarrow> string list \<Rightarrow>
   host_entry gomap \<times> wildcard_entry list \<Rightarrow> host_entry gomap \<times> wildcard_entry list" where
  "host_loop ul se ports [] (hs, wcs) = (hs, wcs)"
| "host_loop ul se ports (h0 # rest) (hs, wcs) =
     (let h = norm_host ul h0;
          entry = \<lparr>Namespace = se_Namespace se, Name = se_Name se,
                   Ports = ports, AllowedPorts = ports\<rparr>
      in if HasPrefix h star_dot then
           host_loop ul se ports rest (hs, wcs @ [\<lparr>Suffix = drop 1 h, Entry = entry\<rparr>])
         else host_loop ul se ports rest (AList.update h entry hs, wcs))"

fun entry_loop ::
  "(string \<Rightarrow> string) \<Rightarrow> service_entry list \<Rightarrow>
   host_entry gomap \<times> wildcard_entry list \<Rightarrow> host_entry gomap \<times> wildcard_entry list" where
  "entry_loop ul [] t = t"
| "entry_loop ul (se # ses) t =
     entry_loop ul ses (host_loop ul se (map Number (Spec_Ports se)) (Spec_Hosts se) t)"

definition tables ::
  "(string \<Rightarrow> string) \<Rightarrow> service_entry list \<Rightarrow> host_entry gomap \<times> wildcard_entry list" where
  "tables ul entries = entry_loop ul entries ([], [])"

definition rebuild ::
  "(string \<Rightarrow> string) \<Rightarrow> service_entry list option \<Rightarrow> watcher \<Rightarrow> watcher" where
  "rebuild ul listing w =
     (case listing of
        None \<Rightarrow> w
      | Some entries \<Rightarrow>
          w\<lparr>hosts := fst (tables ul entries), wildcards := snd (tables ul entries)\<rparr>)"

text \<open>
  The handlers registered with the informer (handlers.go): whatever happened to a ServiceEntry,
  the allowlist is rebuilt from the whole listing.
\<close>

datatype informer_event = AddEvent | UpdateEvent | DeleteEvent

definition watchHandlers ::
  "(string \<Rightarrow> string) \<Rightarrow> informer_event \<times> service_entry list option \<Rightarrow> watcher \<Rightarrow> watcher" where
  "watchHandlers ul ev w =
     (case fst ev of
        AddEvent \<Rightarrow> rebuild ul (snd ev) w
      | UpdateEvent \<Rightarrow> rebuild ul (snd ev) w
      | DeleteEvent \<Rightarrow> rebuild ul (snd ev) w)"

section \<open>The rules of a listing\<close>

text \<open>
  A rule is a normalised host pattern with its entry; a listing is the list of its rules in
  order. A pattern that starts with star and dot covers the hosts that end in the rest of it;
  any other pattern covers the host it names.
\<close>

type_synonym rule = "string \<times> host_entry"

definition se_entry :: "service_entry \<Rightarrow> host_entry" where
  "se_entry se = \<lparr>Namespace = se_Namespace se, Name = se_Name se,
     Ports = map Number (Spec_Ports se), AllowedPorts = map Number (Spec_Ports se)\<rparr>"

definition se_rules :: "(string \<Rightarrow> string) \<Rightarrow> service_entry \<Rightarrow> rule list" where
  "se_rules ul se = map (\<lambda>h. (norm_host ul h, se_entry se)) (Spec_Hosts se)"

definition rules :: "(string \<Rightarrow> string) \<Rightarrow> service_entry list \<Rightarrow> rule list" where
  "rules ul es = concat (map (se_rules ul) es)"

definition is_wild :: "rule \<Rightarrow> bool" where
  "is_wild r \<longleftrightarrow> HasPrefix (fst r) star_dot"

definition rule_covers :: "rule \<Rightarrow> string \<Rightarrow> bool" where
  "rule_covers r host \<longleftrightarrow>
     (if is_wild r then HasSuffix host (drop 1 (fst r)) else fst r = host)"

definition rule_ports :: "rule \<Rightarrow> port \<Rightarrow> bool" where
  "rule_ports r port \<longleftrightarrow> AllowedPorts (snd r) = [] \<or> port \<in> set (AllowedPorts (snd r))"

text \<open>
  The reference decision: the last exact rule for the host decides by its ports; without an
  exact rule the first wildcard rule that covers the host does; without either, no.
\<close>

definition decide :: "rule list \<Rightarrow> string \<Rightarrow> port \<Rightarrow> bool" where
  "decide rs host port =
     (case List.find (\<lambda>r. \<not> is_wild r \<and> rule_covers r host) (rev rs) of
        Some r \<Rightarrow> rule_ports r port
      | None \<Rightarrow>
          (case List.find (\<lambda>r. is_wild r \<and> rule_covers r host) rs of
             Some r \<Rightarrow> rule_ports r port
           | None \<Rightarrow> False))"

lemma port_loop_set [simp]: "port_loop ps p \<longleftrightarrow> p \<in> set ps"
  by (induction ps) auto

lemma portAllowed_iff: "portAllowed e p \<longleftrightarrow> AllowedPorts e = [] \<or> p \<in> set (AllowedPorts e)"
  by (simp add: portAllowed_def)

lemma find_pred_cong: "(\<And>x. P x = Q x) \<Longrightarrow> List.find P xs = List.find Q xs"
  by presburger

section \<open>The tables of a listing are its rules\<close>

definition exact_table :: "rule list \<Rightarrow> host_entry gomap \<Rightarrow> host_entry gomap" where
  "exact_table rs m = fold (\<lambda>(h, e). AList.update h e) (filter (\<lambda>r. \<not> is_wild r) rs) m"

definition wild_table :: "rule list \<Rightarrow> wildcard_entry list" where
  "wild_table rs = map (\<lambda>(h, e). \<lparr>Suffix = drop 1 h, Entry = e\<rparr>) (filter is_wild rs)"

lemma host_loop_rules:
  "host_loop ul se (map Number (Spec_Ports se)) hs (m, ws) =
   (exact_table (map (\<lambda>h. (norm_host ul h, se_entry se)) hs) m,
    ws @ wild_table (map (\<lambda>h. (norm_host ul h, se_entry se)) hs))"
  by (induction hs arbitrary: m ws)
     (auto simp: Let_def exact_table_def wild_table_def is_wild_def se_entry_def)

lemma exact_table_append: "exact_table (xs @ ys) m = exact_table ys (exact_table xs m)"
  by (simp add: exact_table_def)

lemma wild_table_append: "wild_table (xs @ ys) = wild_table xs @ wild_table ys"
  by (simp add: wild_table_def)

lemma entry_loop_rules:
  "entry_loop ul es (m, ws) = (exact_table (rules ul es) m, ws @ wild_table (rules ul es))"
proof (induction es arbitrary: m ws)
  case Nil
  then show ?case by (simp add: rules_def exact_table_def wild_table_def)
next
  case (Cons se es)
  have r: "rules ul (se # es) = map (\<lambda>h. (norm_host ul h, se_entry se)) (Spec_Hosts se) @ rules ul es"
    by (simp add: rules_def se_rules_def)
  show ?case
    by (simp add: host_loop_rules Cons.IH r exact_table_append wild_table_append)
qed

lemma tables_rules: "tables ul es = (exact_table (rules ul es) [], wild_table (rules ul es))"
  by (simp add: tables_def entry_loop_rules)

lemma exact_table_lookup:
  "map_of (exact_table rs []) host =
   map_option snd (List.find (\<lambda>r. \<not> is_wild r \<and> rule_covers r host) (rev rs))"
proof -
  have "map_of (exact_table rs []) host = map_of (rev (filter (\<lambda>r. \<not> is_wild r) rs)) host"
    by (simp add: exact_table_def map_of_foldr_update)
  also have "\<dots> = map_option snd (List.find (\<lambda>p. fst p = host) (filter (\<lambda>r. \<not> is_wild r) (rev rs)))"
    by (simp add: map_of_find rev_filter)
  also have "\<dots> = map_option snd (List.find (\<lambda>r. \<not> is_wild r \<and> rule_covers r host) (rev rs))"
    unfolding find_filter by (rule arg_cong [where f = "map_option snd"], rule find_pred_cong)
      (auto simp: rule_covers_def)
  finally show ?thesis .
qed

lemma wildcard_loop_entry:
  "wildcard_loop (wild_table rs) host port =
   (case List.find (\<lambda>r. is_wild r \<and> rule_covers r host) rs of
      Some r \<Rightarrow> (rule_ports r port, snd r) | None \<Rightarrow> (False, no_entry))"
  by (induction rs) (auto simp: wild_table_def rule_covers_def rule_ports_def portAllowed_iff)

lemma wildcard_loop_rules:
  "fst (wildcard_loop (wild_table rs) host port) =
   (case List.find (\<lambda>r. is_wild r \<and> rule_covers r host) rs of
      Some r \<Rightarrow> rule_ports r port | None \<Rightarrow> False)"
  by (simp add: wildcard_loop_entry split: option.splits)

text \<open>The tables answer as the scan of the rules does.\<close>

lemma AllowHost_rules:
  assumes "hosts w = exact_table rs []" "wildcards w = wild_table rs"
  shows "fst (AllowHost ul w h port) = decide rs (norm_host ul h) port"
  using assms exact_table_lookup [of rs "norm_host ul h"] wildcard_loop_rules [of rs "norm_host ul h"]
  by (auto simp: AllowHost_def decide_def Let_def rule_ports_def portAllowed_iff split: option.splits)

lemma rebuild_tables:
  "hosts (rebuild ul (Some es) w) = exact_table (rules ul es) []"
  "wildcards (rebuild ul (Some es) w) = wild_table (rules ul es)"
  by (simp_all add: rebuild_def tables_rules)

lemma AllowHost_rebuild:
  "fst (AllowHost ul (rebuild ul (Some es) w) h port) = decide (rules ul es) (norm_host ul h) port"
  by (rule AllowHost_rules) (simp_all add: rebuild_tables)

lemma rebuild_synced [simp]: "synced (rebuild ul l w) = synced w"
  by (simp add: rebuild_def split: option.splits)

lemma rebuild_None [simp]: "rebuild ul None w = w"
  by (simp add: rebuild_def)

text \<open>The exact table stays a map: no host has two entries.\<close>

lemma exact_table_ok: "map_ok m \<Longrightarrow> map_ok (exact_table rs m)"
proof (induction rs arbitrary: m)
  case Nil
  then show ?case by (simp add: exact_table_def)
next
  case (Cons r rs)
  have "exact_table (r # rs) m =
    exact_table rs (if is_wild r then m else AList.update (fst r) (snd r) m)"
    by (cases r) (simp add: exact_table_def)
  then show ?case using Cons by (auto intro: map_ok_update)
qed

section \<open>What a decision says about the listing\<close>

text \<open>
  A ServiceEntry covers a host and port: one of its hosts, normalised, covers the normalised
  host, and it lists the port or no port at all.
\<close>

definition se_covers_host :: "(string \<Rightarrow> string) \<Rightarrow> service_entry \<Rightarrow> string \<Rightarrow> bool" where
  "se_covers_host ul se h \<longleftrightarrow> list_ex (\<lambda>r. rule_covers r (norm_host ul h)) (se_rules ul se)"

definition se_ports :: "service_entry \<Rightarrow> port \<Rightarrow> bool" where
  "se_ports se port \<longleftrightarrow> Spec_Ports se = [] \<or> port \<in> Number ` set (Spec_Ports se)"

definition se_covers :: "(string \<Rightarrow> string) \<Rightarrow> service_entry \<Rightarrow> string \<Rightarrow> port \<Rightarrow> bool" where
  "se_covers ul se h port \<longleftrightarrow> se_covers_host ul se h \<and> se_ports se port"

lemma rules_set:
  "r \<in> set (rules ul es) \<longleftrightarrow>
     (\<exists>se \<in> set es. \<exists>h \<in> set (Spec_Hosts se). r = (norm_host ul h, se_entry se))"
  by (auto simp: rules_def se_rules_def)

lemma rule_ports_entry [simp]: "rule_ports (h, se_entry se) port = se_ports se port"
  by (auto simp: rule_ports_def se_entry_def se_ports_def)

lemma covers_rule:
  "se \<in> set es \<Longrightarrow> se_covers_host ul se h \<Longrightarrow>
   \<exists>r \<in> set (rules ul es). rule_covers r (norm_host ul h) \<and> snd r = se_entry se"
  by (fastforce simp: se_covers_host_def list_ex_iff se_rules_def rules_set)

lemma rule_covers_se:
  "r \<in> set (rules ul es) \<Longrightarrow> rule_covers r (norm_host ul h) \<Longrightarrow>
   \<exists>se \<in> set es. se_covers_host ul se h \<and> rule_ports r = se_ports se"
  by (force simp: se_covers_host_def list_ex_iff se_rules_def rules_set)

lemma decide_rule:
  "decide rs host port \<Longrightarrow> \<exists>r \<in> set rs. rule_covers r host \<and> rule_ports r port"
  by (auto simp: decide_def split: option.splits dest!: find_Some_in)

lemma decide_deny:
  assumes "\<not> decide rs host port" "r \<in> set rs" "rule_covers r host"
  shows "\<exists>q \<in> set rs. rule_covers q host \<and> \<not> rule_ports q port"
proof (cases "List.find (\<lambda>r. \<not> is_wild r \<and> rule_covers r host) (rev rs)")
  case (Some q)
  then show ?thesis using assms(1) by (auto simp: decide_def dest!: find_Some_in)
next
  case None
  then have "is_wild r" using assms(2,3) by (auto simp: find_None_iff_all)
  then have "List.find (\<lambda>r. is_wild r \<and> rule_covers r host) rs \<noteq> None"
    using assms(2,3) unfolding find_None_iff_all by blast
  then obtain q where "List.find (\<lambda>r. is_wild r \<and> rule_covers r host) rs = Some q" by blast
  then show ?thesis using assms(1) None by (auto simp: decide_def dest!: find_Some_in)
qed

lemma AllowHost_sound:
  assumes "fst (AllowHost ul (rebuild ul (Some es) w) h port)"
  shows "\<exists>se \<in> set es. se_covers ul se h port"
proof -
  from assms obtain r where "r \<in> set (rules ul es)" "rule_covers r (norm_host ul h)"
    "rule_ports r port" by (auto simp: AllowHost_rebuild dest: decide_rule)
  then show ?thesis using rule_covers_se [of r ul es h] by (auto simp: se_covers_def)
qed

lemma AllowHost_complete:
  assumes "se \<in> set es" "se_covers_host ul se h"
    and "\<forall>s \<in> set es. se_covers_host ul s h \<longrightarrow> se_ports s port"
  shows "fst (AllowHost ul (rebuild ul (Some es) w) h port)"
proof (rule ccontr)
  assume "\<not> ?thesis"
  then have "\<not> decide (rules ul es) (norm_host ul h) port" by (simp add: AllowHost_rebuild)
  with covers_rule [OF assms(1,2)] obtain q where
    "q \<in> set (rules ul es)" "rule_covers q (norm_host ul h)" "\<not> rule_ports q port"
    by (blast dest: decide_deny)
  then show False using rule_covers_se [of q ul es h] assms(3) by auto
qed

section \<open>Host names\<close>

lemma norm_host_dot [host_simps]:
  "\<not> HasSuffix h ''.'' \<Longrightarrow> norm_host ul (h @ ''.'') = norm_host ul h"
  by (simp add: norm_host_def TrimSuffix_other)

lemma HasSuffix_dot_map: "HasSuffix (map lower_byte h) ''.'' = HasSuffix h ''.''"
  by (cases h rule: rev_cases)
     (auto simp: HasSuffix_iff lower_byte_eq_sep is_lower_Char is_upper_Char)

lemma TrimSuffix_map: "TrimSuffix (map lower_byte h) ''.'' = map lower_byte (TrimSuffix h ''.'')"
  by (auto simp: TrimSuffix_def HasSuffix_dot_map take_map)

lemma norm_host_lower: "is_ascii h \<Longrightarrow> norm_host ul (map lower_byte h) = norm_host ul h"
  by (simp add: norm_host_def TrimSuffix_map ToLower_ascii TrimSuffix_ascii)

text \<open>Only the letter case differs: the same normal form.\<close>

lemma norm_host_case:
  "is_ascii h \<Longrightarrow> is_ascii h' \<Longrightarrow> map lower_byte h = map lower_byte h' \<Longrightarrow>
   norm_host ul h = norm_host ul h'"
  by (metis norm_host_lower)

lemma AllowHost_cong:
  "norm_host ul h = norm_host ul h' \<Longrightarrow> AllowHost ul w h port = AllowHost ul w h' port"
  by (simp add: AllowHost_def)

text \<open>A wildcard covers the hosts below its domain, never the domain itself.\<close>

lemma wildcard_covers:
  "rule_covers (star_dot @ d, e) host \<longleftrightarrow> (\<exists>x. host = x @ CHR ''.'' # d)"
  by (auto simp: rule_covers_def is_wild_def HasPrefix_iff HasSuffix_iff star_dot_def)

lemma wildcard_not_apex: "\<not> rule_covers (star_dot @ d, e) d"
proof
  assume "rule_covers (star_dot @ d, e) d"
  then obtain x where "d = x @ CHR ''.'' # d" by (auto simp: wildcard_covers)
  then have "length d = length (x @ CHR ''.'' # d)" by metis
  then show False by simp
qed

lemma AllowHost_new: "AllowHost ul NewWatcher h port = (False, no_entry)"
  by (simp add: AllowHost_def NewWatcher_def Let_def)

section \<open>The contract with the request handlers\<close>

text \<open>
  What a client of the allowlist relies on: loading a listing makes the answers those the
  listing permits, whatever was loaded before. Then only the last of a sequence of loads
  matters, and nothing an earlier listing permitted survives it.
\<close>

locale acl_contract =
  fixes allow :: "'w \<Rightarrow> string \<Rightarrow> port \<Rightarrow> bool"
    and load :: "'l \<Rightarrow> 'w \<Rightarrow> 'w"
    and permits :: "'l \<Rightarrow> string \<Rightarrow> port \<Rightarrow> bool"
  assumes allow_load: "allow (load l w) h p \<longleftrightarrow> permits l h p"
begin

lemma last_load: "allow (fold load (ls @ [l]) w) h p \<longleftrightarrow> permits l h p"
  by (simp add: allow_load)

lemma loads_permit: "ls \<noteq> [] \<Longrightarrow> allow (fold load ls w) h p \<longleftrightarrow> permits (last ls) h p"
  by (metis append_butlast_last_id last_load)

end

interpretation watcher_acl: acl_contract "\<lambda>w h p. fst (AllowHost ul w h p)"
  "\<lambda>es. rebuild ul (Some es)" "\<lambda>es h p. decide (rules ul es) (norm_host ul h) p" for ul
  by unfold_locales (rule AllowHost_rebuild)

text \<open>The tables are a reloaded value: a listing that fails leaves them as they are.\<close>

lemma watchHandlers_rebuild: "watchHandlers ul ev = rebuild ul (snd ev)"
  by (cases ev; cases "fst ev") (simp_all add: watchHandlers_def fun_eq_iff)

interpretation watcher_store: reloadable "watchHandlers ul" "\<lambda>w. Some (hosts w, wildcards w)"
  "\<lambda>w ev. map_option (tables ul) (snd ev)" for ul
  by unfold_locales (simp_all add: watchHandlers_rebuild rebuild_def split: option.splits)

lemma tables_decide:
  "(hosts w, wildcards w) = tables ul es \<Longrightarrow>
   fst (AllowHost ul w h port) = decide (rules ul es) (norm_host ul h) port"
  by (rule AllowHost_rules) (simp_all add: tables_rules)

section \<open>Properties\<close>

text \<open>
  C2. Refinement: after any sequence of events on a new watcher, some of whose listings may
  fail, the answer for a host and port is the reference decision on the rules of the last listing
  that succeeded, and no before the first one.
\<close>

theorem acl_refines_rules:
  "fst (AllowHost ul (fold (watchHandlers ul) evs NewWatcher) h port) =
     (case List.find (\<lambda>ev. snd ev \<noteq> None) (rev evs) of
        Some (_, Some es) \<Rightarrow> decide (rules ul es) (norm_host ul h) port
      | _ \<Rightarrow> False)"
proof (cases "List.find (\<lambda>ev. snd ev \<noteq> None) (rev evs)")
  case None
  then have "hosts (fold (watchHandlers ul) evs NewWatcher) = hosts NewWatcher \<and>
      wildcards (fold (watchHandlers ul) evs NewWatcher) = wildcards NewWatcher"
    using watcher_store.attempts_stored [of ul evs NewWatcher] by simp
  then show ?thesis using None by (simp add: AllowHost_def Let_def NewWatcher_def)
next
  case (Some ev)
  then obtain k es where ev: "ev = (k, Some es)" by (cases ev) (auto dest: find_Some_in)
  then have "(hosts (fold (watchHandlers ul) evs NewWatcher),
      wildcards (fold (watchHandlers ul) evs NewWatcher)) = tables ul es"
    using Some watcher_store.attempts_stored [of ul evs NewWatcher] by simp
  from tables_decide [OF this] show ?thesis using Some ev by simp
qed

text \<open>
  C23. The entry that comes with the answer explains it: it is that of a ServiceEntry of the
  listing that covers the host, and the answer is whether this one covers the port; or no
  ServiceEntry covers the host, and the answer is no with the empty entry.
\<close>

theorem returned_entry_explains_answer:
  "(case AllowHost ul (rebuild ul (Some es) w) h port of (ok, e) \<Rightarrow>
     (\<exists>se \<in> set es. e = se_entry se \<and> se_covers_host ul se h \<and> ok = se_ports se port) \<or>
     e = no_entry \<and> \<not> ok \<and> (\<forall>se \<in> set es. \<not> se_covers_host ul se h))"
proof -
  let ?rs = "rules ul es" and ?h = "norm_host ul h"
  let ?ex = "List.find (\<lambda>r. \<not> is_wild r \<and> rule_covers r ?h) (rev ?rs)"
  let ?wi = "List.find (\<lambda>r. is_wild r \<and> rule_covers r ?h) ?rs"
  have a: "AllowHost ul (rebuild ul (Some es) w) h port =
    (case ?ex of Some r \<Rightarrow> (rule_ports r port, snd r)
     | None \<Rightarrow> (case ?wi of Some r \<Rightarrow> (rule_ports r port, snd r) | None \<Rightarrow> (False, no_entry)))"
    by (simp add: AllowHost_def Let_def rebuild_tables exact_table_lookup wildcard_loop_entry
        rule_ports_def portAllowed_iff split: option.splits)
  have hit: "\<exists>se \<in> set es. snd r = se_entry se \<and> se_covers_host ul se h \<and> rule_ports r port = se_ports se port"
    if rs: "r \<in> set ?rs" and cov: "rule_covers r ?h" for r
  proof -
    obtain se x where "se \<in> set es" "x \<in> set (Spec_Hosts se)" "r = (norm_host ul x, se_entry se)"
      using rs by (auto simp: rules_set)
    then show ?thesis using cov
      by (intro bexI [of _ se]) (auto simp: se_covers_host_def list_ex_iff se_rules_def)
  qed
  show ?thesis
  proof (cases ?ex)
    case (Some r)
    then show ?thesis using hit [of r] find_Some_in [OF Some] a by auto
  next
    case ex: None
    show ?thesis
    proof (cases ?wi)
      case (Some r)
      then show ?thesis using hit [of r] find_Some_in [OF Some] a ex by auto
    next
      case None
      then have "\<not> rule_covers r ?h" if "r \<in> set ?rs" for r
        using that ex by (auto simp: find_None_iff_all)
      then have "\<not> se_covers_host ul se h" if "se \<in> set es" for se
        using that covers_rule [of se es ul h] by blast
      then show ?thesis using a ex None by simp
    qed
  qed
qed

text \<open>
  C14. Exactness: where the ServiceEntries that cover a host agree on the port, the answer is yes
  exactly if one of them covers host and port.
\<close>

theorem acl_exact_when_ports_agree:
  assumes "\<forall>a \<in> set es. \<forall>b \<in> set es. se_covers_host ul a h \<and> se_covers_host ul b h \<longrightarrow>
    se_ports a port = se_ports b port"
  shows "fst (AllowHost ul (rebuild ul (Some es) w) h port) \<longleftrightarrow>
    (\<exists>se \<in> set es. se_covers ul se h port)"
proof
  assume "\<exists>se \<in> set es. se_covers ul se h port"
  then obtain se where se: "se \<in> set es" "se_covers_host ul se h" "se_ports se port"
    by (auto simp: se_covers_def)
  show "fst (AllowHost ul (rebuild ul (Some es) w) h port)"
    by (rule AllowHost_complete [OF se(1,2)]) (use assms se in blast)
qed (rule AllowHost_sound)

text \<open>
  C26. Several entries for one exact host are not merged: the last one in the listing alone
  decides about the ports, whatever the entries before it permit.
\<close>

theorem last_exact_entry_decides:
  assumes "h \<in> set (Spec_Hosts se)" "\<not> HasPrefix (norm_host ul h) star_dot"
  shows "fst (AllowHost ul (rebuild ul (Some (es @ [se])) w) h port) = se_ports se port"
proof -
  let ?P = "\<lambda>r. \<not> is_wild r \<and> rule_covers r (norm_host ul h)"
  let ?r = "(norm_host ul h, se_entry se)"
  have "?r \<in> set (se_rules ul se)" using assms(1) by (auto simp: se_rules_def)
  moreover have "?P ?r" using assms(2) by (simp add: is_wild_def rule_covers_def)
  ultimately have "\<not> (\<forall>r \<in> set (rev (se_rules ul se)). \<not> ?P r)" by auto
  then obtain q where q: "List.find ?P (rev (se_rules ul se)) = Some q"
    using find_None_iff_all [of ?P "rev (se_rules ul se)"] by (cases "List.find ?P (rev (se_rules ul se))") auto
  have "q \<in> set (se_rules ul se)" using find_Some_in [OF q] by simp
  then have "snd q = se_entry se" by (auto simp: se_rules_def)
  then have "rule_ports q port = se_ports se port" by (cases q) simp
  moreover have "rev (rules ul (es @ [se])) = rev (se_rules ul se) @ rev (rules ul es)"
    by (simp add: rules_def)
  ultimately show ?thesis by (simp add: AllowHost_rebuild decide_def find_append q)
qed

text \<open>
  C27. A wildcard host covers the names strictly below its domain: with a listing that only has
  the pattern star-dot-d, a host is allowed exactly if its normal form ends in dot-d, so the
  domain itself is denied.
\<close>

theorem wildcard_below_domain:
  assumes "Spec_Hosts se = [star_dot @ d]" "norm_host ul (star_dot @ d) = star_dot @ d"
  shows "(fst (AllowHost ul (rebuild ul (Some [se]) w) h port) \<longleftrightarrow>
      (\<exists>x. norm_host ul h = x @ CHR ''.'' # d) \<and> se_ports se port) \<and>
    (norm_host ul h = d \<longrightarrow> \<not> fst (AllowHost ul (rebuild ul (Some [se]) w) h port))"
proof -
  have r: "rules ul [se] = [(star_dot @ d, se_entry se)]"
    using assms by (simp add: rules_def se_rules_def)
  have w: "is_wild (star_dot @ d, se_entry se)" by (simp add: is_wild_def HasPrefix_iff)
  have a: "fst (AllowHost ul (rebuild ul (Some [se]) w) h port) \<longleftrightarrow>
      (\<exists>x. norm_host ul h = x @ CHR ''.'' # d) \<and> se_ports se port"
    using w by (simp add: AllowHost_rebuild r decide_def wildcard_covers)
  moreover have "\<nexists>x. d = x @ CHR ''.'' # d"
    using wildcard_not_apex [of d "se_entry se"] by (simp add: wildcard_covers)
  ultimately show ?thesis by auto
qed

text \<open>
  C28. The answer does not depend on the letter case of an ASCII host name or on one trailing
  dot, in the request or in the table.
\<close>

theorem host_spelling_irrelevant:
  assumes "is_ascii h" "is_ascii h'" "map lower_byte h = map lower_byte h'" "\<not> HasSuffix h' ''.''"
  shows "AllowHost ul w h port = AllowHost ul w h' port \<and>
    AllowHost ul w (h' @ ''.'') port = AllowHost ul w h' port"
  using assms by (metis AllowHost_cong norm_host_case norm_host_dot)

section \<open>Examples\<close>

definition ex_se :: "string list \<Rightarrow> port list \<Rightarrow> service_entry" where
  "ex_se hs ps = \<lparr>se_Namespace = ''team'', se_Name = ''se'', Spec_Hosts = hs,
     Spec_Ports = map (\<lambda>p. \<lparr>Number = p\<rparr>) ps\<rparr>"

lemma norm_example: "norm_host ul ''api.example.com'' = ''api.example.com''"
  "norm_host ul ''*.example.com'' = ''*.example.com''" "norm_host ul ''example.com'' = ''example.com''"
proof -
  have "is_ascii ''api.example.com'' \<and> is_ascii ''*.example.com'' \<and> is_ascii ''example.com''" by code_simp
  moreover have "map lower_byte ''api.example.com'' = ''api.example.com'' \<and>
      map lower_byte ''*.example.com'' = ''*.example.com'' \<and> map lower_byte ''example.com'' = ''example.com''"
    by code_simp
  moreover have "TrimSuffix ''api.example.com'' ''.'' = ''api.example.com'' \<and>
      TrimSuffix ''*.example.com'' ''.'' = ''*.example.com'' \<and>
      TrimSuffix ''example.com'' ''.'' = ''example.com''" by code_simp
  ultimately show "norm_host ul ''api.example.com'' = ''api.example.com''"
    "norm_host ul ''*.example.com'' = ''*.example.com''" "norm_host ul ''example.com'' = ''example.com''"
    by (simp_all add: norm_host_def ToLower_ascii)
qed

lemmas example_eval = AllowHost_rebuild decide_def rules_def se_rules_def norm_example is_wild_def
  star_dot_def HasPrefix_def rule_covers_def ex_se_def se_ports_def

theorem returned_entry_explains_answer_witness:
  "snd (AllowHost (\<lambda>s. s) (rebuild (\<lambda>s. s) (Some [ex_se [''*.example.com''] [443]]) NewWatcher)
      ''api.example.com'' 80) = se_entry (ex_se [''*.example.com''] [443]) \<and>
   \<not> fst (AllowHost (\<lambda>s. s) (rebuild (\<lambda>s. s) (Some [ex_se [''*.example.com''] [443]]) NewWatcher)
      ''api.example.com'' 80)"
proof -
  have "se_covers_host (\<lambda>s. s) (ex_se [''*.example.com''] [443]) ''api.example.com''"
    by (simp add: se_covers_host_def example_eval HasSuffix_def suffix_def)
  moreover have "\<not> se_ports (ex_se [''*.example.com''] [443]) 80" by (simp add: ex_se_def se_ports_def)
  ultimately show ?thesis
    using returned_entry_explains_answer [where ul = "\<lambda>s. s" and es = "[ex_se [''*.example.com''] [443]]"
        and w = NewWatcher and h = "''api.example.com''" and port = 80]
    by (auto simp: case_prod_unfold)
qed

theorem acl_exact_when_ports_agree_witness:
  "fst (AllowHost (\<lambda>s. s) (rebuild (\<lambda>s. s)
      (Some [ex_se [''*.example.com''] [443], ex_se [''api.example.com''] []]) NewWatcher)
      ''api.example.com'' 443) \<longleftrightarrow>
    (\<exists>se \<in> set [ex_se [''*.example.com''] [443], ex_se [''api.example.com''] []].
       se_covers (\<lambda>s. s) se ''api.example.com'' 443)"
  by (rule acl_exact_when_ports_agree) (simp add: ex_se_def se_ports_def)

theorem last_exact_entry_decides_witness:
  "\<not> fst (AllowHost (\<lambda>s. s) (rebuild (\<lambda>s. s)
      (Some ([ex_se [''api.example.com''] [443]] @ [ex_se [''api.example.com''] [80]])) NewWatcher)
      ''api.example.com'' 443)"
proof -
  have "''api.example.com'' \<in> set (Spec_Hosts (ex_se [''api.example.com''] [80]))"
    by (simp add: ex_se_def)
  moreover have "\<not> HasPrefix (norm_host (\<lambda>s. s) ''api.example.com'') star_dot"
    by (simp add: example_eval)
  moreover have "\<not> se_ports (ex_se [''api.example.com''] [80]) 443"
    by (simp add: ex_se_def se_ports_def)
  ultimately show ?thesis by (simp only: last_exact_entry_decides not_False_eq_True)
qed

theorem wildcard_below_domain_witness:
  "fst (AllowHost (\<lambda>s. s) (rebuild (\<lambda>s. s) (Some [ex_se [''*.example.com''] [443]]) NewWatcher)
      ''api.example.com'' 443) \<and>
   \<not> fst (AllowHost (\<lambda>s. s) (rebuild (\<lambda>s. s) (Some [ex_se [''*.example.com''] [443]]) NewWatcher)
      ''example.com'' 443)"
proof -
  have s: "Spec_Hosts (ex_se [''*.example.com''] [443]) = [star_dot @ ''example.com'']"
    "norm_host (\<lambda>s. s) (star_dot @ ''example.com'') = star_dot @ ''example.com''"
    "se_ports (ex_se [''*.example.com''] [443]) 443"
    by (simp_all add: example_eval)
  have "''api.example.com'' = ''api'' @ CHR ''.'' # ''example.com''" by simp
  then show ?thesis
    using wildcard_below_domain [OF s(1,2), of NewWatcher "''api.example.com''" 443]
      wildcard_below_domain [OF s(1,2), of NewWatcher "''example.com''" 443] s(3)
    unfolding norm_example by blast
qed

theorem host_spelling_irrelevant_witness:
  "AllowHost (\<lambda>s. s) (rebuild (\<lambda>s. s) (Some [ex_se [''api.example.com''] [443]]) NewWatcher)
       ''API.Example.com'' 443 =
     AllowHost (\<lambda>s. s) (rebuild (\<lambda>s. s) (Some [ex_se [''api.example.com''] [443]]) NewWatcher)
       ''api.example.com'' 443 \<and>
   AllowHost (\<lambda>s. s) (rebuild (\<lambda>s. s) (Some [ex_se [''api.example.com''] [443]]) NewWatcher)
       (''api.example.com'' @ ''.'') 443 =
     AllowHost (\<lambda>s. s) (rebuild (\<lambda>s. s) (Some [ex_se [''api.example.com''] [443]]) NewWatcher)
       ''api.example.com'' 443"
  by (rule host_spelling_irrelevant) (code_simp)+

end
