(* ===== verification/Target.thy ===== *)
theory Target
  imports Go_Net
begin

text \<open>
  Where a request wants to go (internal/proxy/handler.go): \<open>splitHostPort\<close> and
  \<open>defaultPortForScheme\<close>, the host and port the ACL is asked about.
\<close>

definition defaultPortForScheme :: "string \<Rightarrow> port" where
  "defaultPortForScheme scheme = (if scheme = ''https'' then 443 else 80)"

definition splitHostPort :: "string \<Rightarrow> port \<Rightarrow> string \<times> port" where
  "splitHostPort hostport defaultPort =
     (case SplitHostPort hostport of
        Inl err \<Rightarrow> (hostport, defaultPort)
      | Inr (host, portStr) \<Rightarrow>
          (case ParseUint32 portStr of
             Inl err \<Rightarrow> (host, defaultPort)
           | Inr p \<Rightarrow> (host, ucast p)))"

text \<open>The bytes of a decimal port are none of the separators.\<close>

lemma dec_no_sep:
  "colon \<notin> set (nat_dec n) \<and> lbrack \<notin> set (nat_dec n) \<and> rbrack \<notin> set (nat_dec n)"
  using nat_dec_sep digit_sep by blast

definition plain_host :: "string \<Rightarrow> bool" where
  "plain_host h \<longleftrightarrow> colon \<notin> set h \<and> lbrack \<notin> set h \<and> rbrack \<notin> set h"

lemma ucast_port:
  assumes "n < 2 ^ 32"
  shows "ucast (of_nat n :: 64 word) = (of_nat n :: port)"
proof -
  have "take_bit 64 n = n" by (rule take_bit_nat_eq_self) (use assms in simp)
  then show ?thesis by (simp add: unsigned_of_nat)
qed

lemma unat_port: "unat (p :: port) < 2 ^ 32"
proof -
  have "unat p < 2 ^ LENGTH(32)" by (rule unsigned_less)
  then show ?thesis by simp
qed

lemma ucast_unat: "ucast (of_nat (unat p) :: 64 word) = (p :: port)"
proof -
  have "ucast (of_nat (unat p) :: 64 word) = (of_nat (unat p) :: port)"
    by (rule ucast_port) (rule unat_port)
  also have "\<dots> = p" by simp
  finally show ?thesis .
qed

lemma ParseUint32_port: "ParseUint32 (nat_dec (unat (p :: port))) = Inr (of_nat (unat p))"
  by (rule ParseUint32_nat_dec) (rule unat_port)

lemma splitHostPort_no_colon: "colon \<notin> set h \<Longrightarrow> splitHostPort h d = (h, d)"
  by (simp add: splitHostPort_def SplitHostPort_no_colon)

lemma splitHostPort_plain:
  assumes "plain_host h"
  shows "splitHostPort (h @ colon # nat_dec (unat p)) d = (h, p)"
  using assms dec_no_sep [of "unat p"] ucast_unat [of p]
  by (simp add: splitHostPort_def plain_host_def SplitHostPort_plain ParseUint32_port
      del: of_nat_unat)

lemma splitHostPort_bracketed:
  assumes "lbrack \<notin> set h" "rbrack \<notin> set h"
  shows "splitHostPort (lbrack # h @ rbrack # colon # nat_dec (unat p)) d = (h, p)"
  using assms dec_no_sep [of "unat p"] ucast_unat [of p]
  by (simp add: splitHostPort_def SplitHostPort_bracketed ParseUint32_port del: of_nat_unat)

text \<open>A decimal port that does not fit 32 bits is replaced by the default port.\<close>

lemma splitHostPort_big:
  assumes "plain_host h" "2 ^ 32 \<le> n"
  shows "splitHostPort (h @ colon # nat_dec n) d = (h, d)"
proof -
  have "\<nexists>p. ParseUint32 (nat_dec n) = Inr p"
    using assms(2) by (simp add: ParseUint32_Inr nat_dec_val)
  then obtain e where "ParseUint32 (nat_dec n) = Inl e" by (cases "ParseUint32 (nat_dec n)") auto
  then show ?thesis
    using assms(1) dec_no_sep [of n] by (simp add: splitHostPort_def plain_host_def SplitHostPort_plain)
qed

text \<open>
  What the result says of the input: the port is the decimal value of the text after the last
  colon, or it is the default.
\<close>

lemma splitHostPort_cases:
  assumes "splitHostPort s d = (h, p)"
  obtains (whole) e where "SplitHostPort s = Inl e" "h = s" "p = d"
  | (no_number) t e where "SplitHostPort s = Inr (h, t)" "ParseUint32 t = Inl e" "p = d"
  | (number) t where "SplitHostPort s = Inr (h, t)" "list_all is_digit t" "t \<noteq> []"
      "unat p = dec_val t"
proof (cases "SplitHostPort s")
  case (Inl e)
  then have "h = s" "p = d" using assms by (simp_all add: splitHostPort_def)
  then show thesis by (rule whole [OF Inl])
next
  case (Inr ht)
  obtain h' t where ht: "ht = (h', t)" by fastforce
  show thesis
  proof (cases "ParseUint32 t")
    case (Inl e)
    then have "h = h'" "p = d" using assms Inr ht by (simp_all add: splitHostPort_def)
    then show thesis using Inr ht by (intro no_number [OF _ Inl]) simp_all
  next
    case p: (Inr q)
    then have q: "t \<noteq> []" "list_all is_digit t" "dec_val t < 2 ^ 32" "q = of_nat (dec_val t)"
      unfolding ParseUint32_Inr by blast+
    have tb: "take_bit 32 (dec_val t) = dec_val t" by (rule take_bit_nat_eq_self) (rule q(3))
    have "p = ucast q" using assms Inr ht p by (simp add: splitHostPort_def)
    also have "\<dots> = of_nat (dec_val t)" unfolding q(4) by (rule ucast_port) (rule q(3))
    finally have "unat p = dec_val t" using tb by (simp add: unsigned_of_nat)
    moreover have "h = h'" using assms Inr ht p by (simp add: splitHostPort_def)
    ultimately show thesis using Inr ht q(1,2) by (intro number [of t]) simp_all
  qed
qed

section \<open>Properties\<close>

text \<open>
  C24. A host and port printed in the two usual forms (name:port, and an IPv6 literal in brackets
  with a port) is read back as that host and that port, for every 32-bit port; a host without a
  port gets the default one.
\<close>

theorem host_port_read_back:
  assumes "plain_host h" "lbrack \<notin> set v6" "rbrack \<notin> set v6"
  shows "splitHostPort (h @ colon # nat_dec (unat p)) d = (h, p) \<and>
    splitHostPort (lbrack # v6 @ rbrack # colon # nat_dec (unat p)) d = (v6, p) \<and>
    splitHostPort h d = (h, d)"
  using assms by (simp add: splitHostPort_plain splitHostPort_bracketed splitHostPort_no_colon plain_host_def)

theorem host_port_read_back_witness:
  "splitHostPort (''example.com'' @ colon # nat_dec (unat (8443 :: port))) 443 = (''example.com'', 8443) \<and>
   splitHostPort (lbrack # ''2001:db8::1'' @ rbrack # colon # nat_dec (unat (8443 :: port))) 443 =
     (''2001:db8::1'', 8443) \<and> splitHostPort ''example.com'' 443 = (''example.com'', 443)"
  by (rule host_port_read_back) (simp_all add: plain_host_def colon_def lbrack_def rbrack_def)

text \<open>
  C25. Whatever the text, the port the ACL is asked about is the 32-bit value of the digits after
  the last colon, or the default port: there is no third outcome, and the value never wraps.
\<close>

theorem port_is_digits_or_default:
  assumes "splitHostPort s d = (h, p)" "p \<noteq> d"
  shows "\<exists>q t. s = q @ colon # t \<and> t \<noteq> [] \<and> list_all is_digit t \<and> dec_val t = unat p \<and> set h \<subseteq> set s"
  using assms(1)
proof (cases rule: splitHostPort_cases)
  case (number t)
  then show ?thesis using SplitHostPort_port [OF number(1)] by auto
qed (use assms(2) in simp_all)

theorem port_is_digits_or_default_witness:
  "\<exists>q t. ''example.com'' @ colon # nat_dec (unat (8443 :: port)) = q @ colon # t \<and> t \<noteq> [] \<and>
     list_all is_digit t \<and> dec_val t = unat (8443 :: port) \<and>
     set ''example.com'' \<subseteq> set (''example.com'' @ colon # nat_dec (unat (8443 :: port)))"
proof (rule port_is_digits_or_default)
  show "splitHostPort (''example.com'' @ colon # nat_dec (unat (8443 :: port))) 443 = (''example.com'', 8443)"
    by (rule splitHostPort_plain) (simp add: plain_host_def colon_def lbrack_def rbrack_def)
qed simp

end
