(* ===== verification/Http_Header.thy ===== *)
theory Http_Header
  imports Go_Strings
begin

text \<open>
  HTTP headers (Go's \<open>net/http.Header\<close>, a map from names to value lists) and the
  program's \<open>isHopByHop\<close> and \<open>writeHeader\<close> (internal/proxy/handler.go).
  The operations address the map by the canonical form of the name they are given.
\<close>

type_synonym header = "string list gomap"

definition hdr_values :: "header \<Rightarrow> string \<Rightarrow> string list" where
  "hdr_values h key = (case map_of h (CanonicalKey key) of None \<Rightarrow> [] | Some vs \<Rightarrow> vs)"

definition hdr_Get :: "header \<Rightarrow> string \<Rightarrow> string" where
  "hdr_Get h key = (case hdr_values h key of [] \<Rightarrow> [] | v # vs \<Rightarrow> v)"

definition hdr_Set :: "header \<Rightarrow> string \<Rightarrow> string \<Rightarrow> header" where
  "hdr_Set h key v = AList.update (CanonicalKey key) [v] h"

definition hdr_Add :: "header \<Rightarrow> string \<Rightarrow> string \<Rightarrow> header" where
  "hdr_Add h key v = AList.update (CanonicalKey key) (hdr_values h key @ [v]) h"

definition hdr_Del :: "header \<Rightarrow> string \<Rightarrow> header" where
  "hdr_Del h key = AList.delete (CanonicalKey key) h"

definition hop_by_hop_names :: "string list" where
  "hop_by_hop_names = [''connection'', ''keep-alive'', ''proxy-authenticate'',
     ''proxy-authorization'', ''te'', ''trailers'', ''transfer-encoding'', ''upgrade'']"

definition isHopByHop :: "(string \<Rightarrow> string) \<Rightarrow> string \<Rightarrow> bool" where
  "isHopByHop ul name = (ToLower ul name \<in> set hop_by_hop_names)"

text \<open>
  \<open>strings.EqualFold\<close> against an ASCII string without the letters k and s, the only
  ASCII letters that Unicode folds with a non-ASCII character.
\<close>

definition EqualFold :: "string \<Rightarrow> string \<Rightarrow> bool" where
  "EqualFold s t \<longleftrightarrow> is_ascii s \<and> map lower_byte s = map lower_byte t"

definition header_line :: "string \<Rightarrow> string \<Rightarrow> string" where
  "header_line name value = name @ '': '' @ value @ crlf"

text \<open>
  A header as the server's parser leaves it: a map whose keys are canonical ASCII names made of
  token bytes, each with at least one value.
\<close>

definition header_ok :: "header \<Rightarrow> bool" where
  "header_ok h \<longleftrightarrow> map_ok h \<and>
     (\<forall>(k, vs) \<in> set h. CanonicalKey k = k \<and> list_all valid_header_byte k)"

lemma valid_header_ascii: "valid_header_byte c \<Longrightarrow> byte c < 128"
  by (auto simp: valid_header_byte_def is_digit_def is_upper_def is_lower_def byte_def)

lemma valid_name_ascii: "list_all valid_header_byte k \<Longrightarrow> is_ascii k"
  by (induction k) (auto simp: valid_header_ascii)

lemma header_ok_key:
  "header_ok h \<Longrightarrow> map_of h k = Some vs \<Longrightarrow>
   CanonicalKey k = k \<and> list_all valid_header_byte k \<and> is_ascii k"
  by (auto simp: header_ok_def dest!: map_of_SomeD intro: valid_name_ascii)

lemma map_of_Set [header_simps]: "map_of (hdr_Set h k v) = (map_of h)(CanonicalKey k \<mapsto> [v])"
  by (simp add: hdr_Set_def update_conv')

lemma map_of_Add [header_simps]:
  "map_of (hdr_Add h k v) = (map_of h)(CanonicalKey k \<mapsto> hdr_values h k @ [v])"
  by (simp add: hdr_Add_def update_conv')

lemma map_of_Del [header_simps]: "map_of (hdr_Del h k) = (map_of h)(CanonicalKey k := None)"
  by (simp add: hdr_Del_def delete_conv')

lemma values_Set: "hdr_values (hdr_Set h k v) k' =
  (if CanonicalKey k' = CanonicalKey k then [v] else hdr_values h k')"
  by (simp add: hdr_values_def map_of_Set)

lemma values_Add: "hdr_values (hdr_Add h k v) k' =
  (if CanonicalKey k' = CanonicalKey k then hdr_values h k @ [v] else hdr_values h k')"
  by (simp add: hdr_values_def map_of_Add)

lemma values_Del: "hdr_values (hdr_Del h k) k' =
  (if CanonicalKey k' = CanonicalKey k then [] else hdr_values h k')"
  by (simp add: hdr_values_def map_of_Del)

lemma map_ok_hdr [inv_intros]:
  "map_ok h \<Longrightarrow> map_ok (hdr_Set h k v)" "map_ok h \<Longrightarrow> map_ok (hdr_Add h k v)"
  "map_ok h \<Longrightarrow> map_ok (hdr_Del h k)"
  by (simp_all add: hdr_Set_def hdr_Add_def hdr_Del_def map_ok_update map_ok_delete)

text \<open>The eight names in the canonical form the parser gives them.\<close>

definition hop_by_hop_keys :: "string list" where
  "hop_by_hop_keys = [''Connection'', ''Keep-Alive'', ''Proxy-Authenticate'',
     ''Proxy-Authorization'', ''Te'', ''Trailers'', ''Transfer-Encoding'', ''Upgrade'']"

lemma hop_keys_canonical: "map CanonicalKey hop_by_hop_names = hop_by_hop_keys"
  by code_simp

lemma hop_names_valid: "list_all (list_all valid_header_byte) hop_by_hop_names"
  by code_simp

lemma hop_names_lower: "map (map lower_byte) hop_by_hop_names = hop_by_hop_names"
  by code_simp

text \<open>On canonical names the test is membership in that list, whatever the case.\<close>

lemma lower_hop_canonical:
  assumes "map lower_byte k \<in> set hop_by_hop_names"
  shows "CanonicalKey k \<in> set hop_by_hop_keys"
proof -
  let ?n = "map lower_byte k"
  have "list_all valid_header_byte ?n" using assms hop_names_valid by (auto simp: list_all_iff)
  then have "CanonicalKey ?n = CanonicalKey k"
    by (rule CanonicalKey_cong) (simp add: comp_def)
  moreover have "CanonicalKey ?n \<in> set (map CanonicalKey hop_by_hop_names)" using assms by simp
  ultimately show ?thesis by (simp only: hop_keys_canonical)
qed

lemma hop_canonical_lower:
  assumes "CanonicalKey k \<in> set hop_by_hop_keys"
  shows "map lower_byte k \<in> set hop_by_hop_names"
proof -
  obtain n where n: "n \<in> set hop_by_hop_names" "CanonicalKey k = CanonicalKey n"
    using assms unfolding hop_keys_canonical [symmetric] by auto
  have "map lower_byte k = map lower_byte n" by (metis map_lower_CanonicalKey n(2))
  also have "\<dots> \<in> set (map (map lower_byte) hop_by_hop_names)" using n(1) by simp
  finally show ?thesis by (simp only: hop_names_lower)
qed

lemma isHopByHop_iff:
  "is_ascii k \<Longrightarrow> isHopByHop ul k \<longleftrightarrow> CanonicalKey k \<in> set hop_by_hop_keys"
  using lower_hop_canonical [of k] hop_canonical_lower [of k]
  by (auto simp: isHopByHop_def ToLower_ascii)

lemma EqualFold_hop: "EqualFold k ''Proxy-Authorization'' \<Longrightarrow> isHopByHop ul k"
proof -
  assume a: "EqualFold k ''Proxy-Authorization''"
  have "map lower_byte ''Proxy-Authorization'' = ''proxy-authorization''" by code_simp
  then have "map lower_byte k \<in> set hop_by_hop_names"
    using a by (simp add: EqualFold_def hop_by_hop_names_def)
  then show ?thesis using a by (simp add: isHopByHop_def EqualFold_def ToLower_ascii)
qed

end
