(* ===== verification/Http_Msg.thy ===== *)
theory Http_Msg
  imports Http_Header
begin

text \<open>
  The parts of Go's \<open>net/http\<close> messages the handlers use: the server-side request, the
  response of the upstream, and the response writer with \<open>WriteHeader\<close>, \<open>Write\<close> and
  \<open>http.Error\<close>.

  A URL is kept as its scheme, its host part and its text. The response writer records the
  status and the headers at the time they were sent and the body bytes the client took; how
  many bytes the client connection still takes is part of the environment
  (\<open>rw_limit\<close>, None without bound).
\<close>

section \<open>Requests\<close>

record url =
  Scheme :: string
  UHost :: string
  UText :: string

definition IsAbs :: "url \<Rightarrow> bool" where
  "IsAbs u \<longleftrightarrow> Scheme u \<noteq> []"

record certificate =
  URIs :: "url list"

text \<open>
  A request body: nil, the empty \<open>http.NoBody\<close>, a stream of the given bytes, or such a
  stream inside the program's counting reader.
\<close>

datatype body = NilBody | NoBody | Stream string | Counting string

record request =
  Method :: string
  URL :: url
  Host :: string
  RequestURI :: string
  Header :: header
  Body :: body
  ContentLength :: int
  TransferEncoding :: "string list"
  RemoteAddr :: string
  PeerCertificates :: "certificate list option"

record response =
  StatusCode :: nat
  Status :: string
  RespHeader :: header
  RespBody :: string

section \<open>Status codes\<close>

definition StatusOK :: nat where "StatusOK = 200"
definition StatusBadRequest :: nat where "StatusBadRequest = 400"
definition StatusForbidden :: nat where "StatusForbidden = 403"
definition StatusInternalServerError :: nat where "StatusInternalServerError = 500"
definition StatusBadGateway :: nat where "StatusBadGateway = 502"
definition StatusServiceUnavailable :: nat where "StatusServiceUnavailable = 503"

lemmas status_defs = StatusOK_def StatusBadRequest_def StatusForbidden_def
  StatusInternalServerError_def StatusBadGateway_def StatusServiceUnavailable_def

section \<open>The response writer\<close>

record response_writer =
  rw_header :: header
  rw_sent :: "(nat \<times> header) option"
  rw_body :: string
  rw_limit :: "nat option"

definition fresh_writer :: "response_writer \<Rightarrow> bool" where
  "fresh_writer w \<longleftrightarrow> rw_header w = [] \<and> rw_sent w = None \<and> rw_body w = []"

text \<open>
  \<open>WriteHeader\<close> panics on a code outside 100 to 999 (None); a second final call is
  ignored, and an informational code other than 101 does not end the header phase.
\<close>

definition WriteHeader :: "nat \<Rightarrow> response_writer \<Rightarrow> response_writer option" where
  "WriteHeader code w =
     (if rw_sent w \<noteq> None then Some w
      else if code < 100 \<or> 999 < code then None
      else if 100 \<le> code \<and> code \<le> 199 \<and> code \<noteq> 101 then Some w
      else Some (w\<lparr>rw_sent := Some (code, rw_header w)\<rparr>))"

text \<open>
  \<open>Write\<close> sends status 200 first if none was sent; it returns the bytes taken. A status that
  allows no body (1xx, 204, 304) takes none. (A HEAD request, whose body the server discards, is
  not distinguished.)
\<close>

definition body_allowed :: "nat \<Rightarrow> bool" where
  "body_allowed code \<longleftrightarrow> \<not> (100 \<le> code \<and> code \<le> 199) \<and> code \<noteq> 204 \<and> code \<noteq> 304"

definition rw_Write :: "string \<Rightarrow> response_writer \<Rightarrow> nat \<times> response_writer" where
  "rw_Write s w =
     (let w1 = (if rw_sent w = None then w\<lparr>rw_sent := Some (200, rw_header w)\<rparr> else w);
          k = (case rw_sent w1 of
                 Some (code, h) \<Rightarrow>
                   if \<not> body_allowed code then 0
                   else (case rw_limit w of None \<Rightarrow> length s | Some l \<Rightarrow> min l (length s))
               | None \<Rightarrow> 0)
      in (k, w1\<lparr>rw_body := rw_body w1 @ take k s,
               rw_limit := map_option (\<lambda>l. l - k) (rw_limit w1)\<rparr>))"

definition newline :: string where "newline = [CHR 0x0A]"

text \<open>\<open>http.Error\<close>, for the codes the program uses (none of them panics).\<close>

definition http_Error :: "string \<Rightarrow> nat \<Rightarrow> response_writer \<Rightarrow> response_writer" where
  "http_Error msg code w =
     (let h1 = hdr_Del (rw_header w) ''Content-Length'';
          h2 = hdr_Set h1 ''Content-Type'' ''text/plain; charset=utf-8'';
          h3 = hdr_Set h2 ''X-Content-Type-Options'' ''nosniff'';
          w1 = w\<lparr>rw_header := h3\<rparr>
      in case WriteHeader code w1 of
           None \<Rightarrow> w1
         | Some w2 \<Rightarrow> snd (rw_Write (msg @ newline) w2))"

definition sent_status :: "response_writer \<Rightarrow> nat option" where
  "sent_status w = map_option fst (rw_sent w)"

text \<open>
  When a handler returns without having sent a status the server sends 200; a handler that
  panics gets no such answer, its connection is dropped.
\<close>

definition finish_status :: "response_writer \<Rightarrow> nat" where
  "finish_status w = (case sent_status w of None \<Rightarrow> StatusOK | Some code \<Rightarrow> code)"

lemma finish_status_sent: "sent_status w = Some code \<Longrightarrow> finish_status w = code"
  by (simp add: finish_status_def)

lemma http_Error_status:
  "rw_sent w = None \<Longrightarrow> 200 \<le> code \<Longrightarrow> code \<le> 999 \<Longrightarrow> sent_status (http_Error msg code w) = Some code"
  by (simp add: http_Error_def WriteHeader_def rw_Write_def sent_status_def Let_def)

lemma http_Error_body:
  "rw_sent w = None \<Longrightarrow> rw_limit w = None \<Longrightarrow> 200 \<le> code \<Longrightarrow> code \<le> 999 \<Longrightarrow> body_allowed code \<Longrightarrow>
   rw_body (http_Error msg code w) = rw_body w @ msg @ newline"
  by (simp add: http_Error_def WriteHeader_def rw_Write_def Let_def)

end
