(* ===== verification/Identity.thy ===== *)
theory Identity
  imports Http_Msg
begin

text \<open>
  The caller's identity for the audit log (internal/proxy/handler.go):
  \<open>spiffeFromRequest\<close> and \<open>extractSPIFFEFromXFCC\<close>. URL parsing
  (\<open>url.Parse\<close>) is the argument \<open>up\<close>: None is its error, and a parsed URL carries
  its scheme and its text (what \<open>String()\<close> prints).
\<close>

definition xfcc_key :: string where
  "xfcc_key = ''URI='' @ [CHR 0x22]"

definition extractSPIFFEFromXFCC :: "(string \<Rightarrow> url option) \<Rightarrow> string \<Rightarrow> string" where
  "extractSPIFFEFromXFCC up v =
     (case Index v xfcc_key of
        None \<Rightarrow> []
      | Some i \<Rightarrow>
          let rest = drop (i + length xfcc_key) v in
          (case Index rest [CHR 0x22] of
             None \<Rightarrow> []
           | Some e \<Rightarrow>
               (case up (take e rest) of
                  None \<Rightarrow> []
                | Some u \<Rightarrow> if Scheme u \<noteq> ''spiffe'' then [] else UText u)))"

fun first_spiffe :: "url list \<Rightarrow> string option" where
  "first_spiffe [] = None"
| "first_spiffe (u # us) = (if Scheme u = ''spiffe'' then Some (UText u) else first_spiffe us)"

definition xfcc_header :: string where
  "xfcc_header = ''X-Forwarded-Client-Cert''"

text \<open>
  The identity of the verified peer certificate: the first URI with scheme spiffe of the leaf.
\<close>

definition peer_spiffe :: "request \<Rightarrow> string option" where
  "peer_spiffe r =
     (case PeerCertificates r of
        None \<Rightarrow> None
      | Some [] \<Rightarrow> None
      | Some (c # cs) \<Rightarrow> first_spiffe (URIs c))"

definition spiffeFromRequest :: "(string \<Rightarrow> url option) \<Rightarrow> bool \<Rightarrow> request \<Rightarrow> string" where
  "spiffeFromRequest up trustXFCC r =
     (case peer_spiffe r of
        Some s \<Rightarrow> s
      | None \<Rightarrow>
          if \<not> trustXFCC then []
          else let v = hdr_Get (Header r) xfcc_header in
               if v \<noteq> [] then extractSPIFFEFromXFCC up v else [])"

lemma first_spiffe_Some:
  "first_spiffe us = Some s \<Longrightarrow> \<exists>u \<in> set us. Scheme u = ''spiffe'' \<and> s = UText u"
  by (induction us) (auto split: if_splits)

text \<open>What the header says between the key and the next quote, when it is quoted at all.\<close>

lemma extract_quoted:
  assumes "CHR 0x22 \<notin> set u" "\<And>j. j < length pre \<Longrightarrow> \<not> prefix xfcc_key (drop j (pre @ xfcc_key @ u @ CHR 0x22 # post))"
  shows "extractSPIFFEFromXFCC up (pre @ xfcc_key @ u @ CHR 0x22 # post) =
    (case up u of None \<Rightarrow> [] | Some w \<Rightarrow> if Scheme w \<noteq> ''spiffe'' then [] else UText w)"
proof -
  have i: "Index (pre @ xfcc_key @ u @ CHR 0x22 # post) xfcc_key = Some (length pre)"
    using assms(2) by (rule Index_append_at)
  have e: "Index (u @ CHR 0x22 # post) [CHR 0x22] = Some (length u)"
    using IndexByte_append [OF assms(1)] by (simp add: IndexByte_def)
  show ?thesis by (simp add: extractSPIFFEFromXFCC_def i e Let_def)
qed

lemma extract_sound:
  "extractSPIFFEFromXFCC up v = s \<Longrightarrow> s \<noteq> [] \<Longrightarrow>
   \<exists>t u. sublist (xfcc_key @ t @ [CHR 0x22]) v \<and> up t = Some u \<and> Scheme u = ''spiffe'' \<and> s = UText u"
proof -
  assume a: "extractSPIFFEFromXFCC up v = s" and ne: "s \<noteq> []"
  then obtain i where i: "Index v xfcc_key = Some i"
    by (auto simp: extractSPIFFEFromXFCC_def split: option.splits)
  let ?rest = "drop (i + length xfcc_key) v"
  obtain e where e: "Index ?rest [CHR 0x22] = Some e"
    using a ne i by (auto simp: extractSPIFFEFromXFCC_def Let_def split: option.splits)
  obtain u where u: "up (take e ?rest) = Some u" "Scheme u = ''spiffe''" "s = UText u"
    using a ne i e
    by (auto simp: extractSPIFFEFromXFCC_def Let_def split: option.splits if_splits)
  obtain q where "drop i v = xfcc_key @ q" using Index_prefix [OF i] by (auto simp: prefix_def)
  then have v: "v = take i v @ xfcc_key @ ?rest"
    by (metis add.commute append_eq_conv_conj append_take_drop_id drop_drop)
  obtain p where "drop e ?rest = CHR 0x22 # p" using Index_prefix [OF e] by (auto simp: prefix_def)
  then have "?rest = take e ?rest @ [CHR 0x22] @ p" by (metis append_Cons append_Nil append_take_drop_id)
  then have "v = take i v @ (xfcc_key @ take e ?rest @ [CHR 0x22]) @ p" using v by simp
  then have "sublist (xfcc_key @ take e ?rest @ [CHR 0x22]) v" unfolding sublist_def by metis
  then show ?thesis using u by blast
qed

section \<open>Properties\<close>

text \<open>
  C18. By default a client cannot choose its audit identity: unless the header is trusted, the
  identity is the spiffe URI of the verified peer certificate or empty, whatever the headers are;
  and even when it is trusted, a peer certificate with a spiffe URI takes precedence.
\<close>

theorem identity_not_from_header:
  assumes "\<not> trust \<or> peer_spiffe r \<noteq> None"
  shows "spiffeFromRequest up trust (r\<lparr>Header := hd1\<rparr>) = spiffeFromRequest up trust (r\<lparr>Header := hd2\<rparr>) \<and>
    spiffeFromRequest up trust r = (case peer_spiffe r of Some s \<Rightarrow> s | None \<Rightarrow> [])"
proof -
  have "peer_spiffe (r\<lparr>Header := h\<rparr>) = peer_spiffe r" for h by (simp add: peer_spiffe_def)
  then show ?thesis using assms by (auto simp: spiffeFromRequest_def split: option.splits)
qed

definition ex_caller :: "certificate list option \<Rightarrow> request" where
  "ex_caller certs = \<lparr>Method = ''GET'', URL = \<lparr>Scheme = ''http'', UHost = ''a.b'', UText = ''http://a.b/''\<rparr>,
     Host = ''a.b'', RequestURI = ''http://a.b/'',
     Header = [(''X-Forwarded-Client-Cert'', [''URI='' @ [CHR 0x22] @ ''spiffe://evil/sa'' @ [CHR 0x22]])],
     Body = NilBody, ContentLength = 0, TransferEncoding = [], RemoteAddr = ''10.0.0.7:5000'',
     PeerCertificates = certs\<rparr>"

definition ex_peer :: "certificate list" where
  "ex_peer = [\<lparr>URIs = [\<lparr>Scheme = ''https'', UHost = ''x'', UText = ''https://x''\<rparr>,
     \<lparr>Scheme = ''spiffe'', UHost = ''td'', UText = ''spiffe://td/sa''\<rparr>]\<rparr>]"

definition ex_parse :: "string \<Rightarrow> url option" where
  "ex_parse s = (if HasPrefix s ''spiffe://'' then Some \<lparr>Scheme = ''spiffe'', UHost = [], UText = s\<rparr> else None)"

theorem identity_not_from_header_witness:
  "spiffeFromRequest ex_parse False (ex_caller None) = [] \<and>
   spiffeFromRequest ex_parse True (ex_caller (Some ex_peer)) = ''spiffe://td/sa''"
proof -
  have p: "peer_spiffe (ex_caller None) = None"
    "peer_spiffe (ex_caller (Some ex_peer)) = Some ''spiffe://td/sa''"
    by (simp_all add: peer_spiffe_def ex_caller_def ex_peer_def)
  show ?thesis
    using identity_not_from_header [of False "ex_caller None" ex_parse]
      identity_not_from_header [of True "ex_caller (Some ex_peer)" ex_parse]
    by (simp add: p)
qed

text \<open>
  C36. Where the header is trusted, the identity taken from it is what its first URI element
  quotes, if that parses as a spiffe URL; conversely a non-empty identity always is a quoted URI
  element of the header value whose scheme is spiffe.
\<close>

theorem xfcc_identity:
  assumes "CHR 0x22 \<notin> set u"
    "\<And>j. j < length pre \<Longrightarrow> \<not> prefix xfcc_key (drop j (pre @ xfcc_key @ u @ CHR 0x22 # post))"
    "extractSPIFFEFromXFCC up v \<noteq> []"
  shows "extractSPIFFEFromXFCC up (pre @ xfcc_key @ u @ CHR 0x22 # post) =
      (case up u of Some w \<Rightarrow> if Scheme w = ''spiffe'' then UText w else [] | None \<Rightarrow> []) \<and>
    (\<exists>t w. sublist (xfcc_key @ t @ [CHR 0x22]) v \<and> up t = Some w \<and> Scheme w = ''spiffe'' \<and>
       extractSPIFFEFromXFCC up v = UText w)"
  using extract_quoted [OF assms(1,2), of up] extract_sound [OF refl assms(3)]
  by (auto split: option.splits)

definition ex_xfcc :: string where
  "ex_xfcc = ''By=x;'' @ xfcc_key @ ''spiffe://td/sa'' @ CHR 0x22 # '';Hash=1''"

theorem xfcc_identity_witness:
  "extractSPIFFEFromXFCC ex_parse ex_xfcc = ''spiffe://td/sa''"
proof -
  have np: "\<not> prefix xfcc_key (drop j (''By=x;'' @ xfcc_key @ ''spiffe://td/sa'' @ CHR 0x22 # '';Hash=1''))"
    if "j < length ''By=x;''" for j
  proof -
    have "list_all (\<lambda>j. \<not> prefix xfcc_key (drop j ex_xfcc)) [0..<5]" by code_simp
    then show ?thesis using that by (simp add: list_all_iff ex_xfcc_def)
  qed
  have ne: "extractSPIFFEFromXFCC ex_parse ex_xfcc \<noteq> []" by code_simp
  have q: "CHR 0x22 \<notin> set ''spiffe://td/sa''" by simp
  have "ex_parse ''spiffe://td/sa'' = Some \<lparr>Scheme = ''spiffe'', UHost = [], UText = ''spiffe://td/sa''\<rparr>"
    by (simp add: ex_parse_def HasPrefix_def)
  then show ?thesis
    using xfcc_identity [OF q np ne] by (simp add: ex_xfcc_def)
qed

end
