(* ===== verification/Audit_Log.thy ===== *)
theory Audit_Log
  imports Go_Net
begin

text \<open>
  Audit records (internal/audit/audit.go): the event, the structured log line that
  \<open>Log\<close> emits for it, and \<open>HostPortFromAddr\<close>. The slog handler that prints the
  line as JSON is not modelled: a line is its level, its message and
  its attributes in order, and the handler's minimum level decides which lines are printed. Times are
  nanoseconds; their RFC 3339 rendering is left to the printer.
\<close>

record event =
  Timestamp :: int
  ClientAddr :: string
  SPIFFE :: string
  EMethod :: string
  TargetHost :: string
  TargetPort :: port
  EUpstreamProxy :: string
  Decision :: string
  DenyReason :: string
  EStatus :: nat
  BytesIn :: int
  BytesOut :: int
  DurationMS :: int

text \<open>The fields a composite literal does not name are zero.\<close>

definition zero_event :: event where
  "zero_event = \<lparr>Timestamp = 0, ClientAddr = [], SPIFFE = [], EMethod = [], TargetHost = [],
     TargetPort = 0, EUpstreamProxy = [], Decision = [], DenyReason = [], EStatus = 0,
     BytesIn = 0, BytesOut = 0, DurationMS = 0\<rparr>"

section \<open>Levels\<close>

datatype slog_level = LevelDebug | LevelInfo | LevelWarn | LevelError

text \<open>The levels are ordered by their numbers in package slog.\<close>

definition level_num :: "slog_level \<Rightarrow> int" where
  "level_num l = (case l of LevelDebug \<Rightarrow> -4 | LevelInfo \<Rightarrow> 0 | LevelWarn \<Rightarrow> 4 | LevelError \<Rightarrow> 8)"

instantiation slog_level :: linorder
begin

definition less_eq_slog_level :: "slog_level \<Rightarrow> slog_level \<Rightarrow> bool" where
  "less_eq_slog_level a b \<longleftrightarrow> level_num a \<le> level_num b"

definition less_slog_level :: "slog_level \<Rightarrow> slog_level \<Rightarrow> bool" where
  "less_slog_level a b \<longleftrightarrow> level_num a < level_num b"

instance
proof
  fix x y :: slog_level
  show "x \<le> y \<Longrightarrow> y \<le> x \<Longrightarrow> x = y"
    by (cases x; cases y) (simp_all add: less_eq_slog_level_def level_num_def)
qed (auto simp: less_eq_slog_level_def less_slog_level_def)

end

section \<open>Lines\<close>

datatype attr_value = VStr string | VInt int | VUint port | VTime int

record log_line =
  line_level :: slog_level
  msg :: string
  attrs :: "(string \<times> attr_value) list"

text \<open>\<open>audit.New\<close> adds the component attribute to every line.\<close>

definition audit_prefix :: "(string \<times> attr_value) list" where
  "audit_prefix = [(''component'', VStr ''audit'')]"

definition egress_line :: "event \<Rightarrow> log_line" where
  "egress_line e = \<lparr>line_level = LevelInfo, msg = ''egress'', attrs = audit_prefix @
     [(''ts'', VTime (Timestamp e)),
      (''client_addr'', VStr (ClientAddr e)),
      (''spiffe'', VStr (SPIFFE e)),
      (''method'', VStr (EMethod e)),
      (''target_host'', VStr (TargetHost e)),
      (''target_port'', VUint (TargetPort e)),
      (''upstream_proxy'', VStr (EUpstreamProxy e)),
      (''decision'', VStr (Decision e)),
      (''deny_reason'', VStr (DenyReason e)),
      (''status'', VInt (int (EStatus e))),
      (''bytes_in'', VInt (BytesIn e)),
      (''bytes_out'', VInt (BytesOut e)),
      (''duration_ms'', VInt (DurationMS e))]\<rparr>"

definition Log :: "event \<Rightarrow> log_line list \<Rightarrow> log_line list" where
  "Log e l = l @ [egress_line e]"

text \<open>What a handler with a minimum level prints: the records of that level and above.\<close>

definition emitted :: "slog_level \<Rightarrow> log_line list \<Rightarrow> log_line list" where
  "emitted lvl ls = filter (\<lambda>l. lvl \<le> line_level l) ls"

text \<open>The line holds every field: it determines the event.\<close>

lemma egress_line_inject: "egress_line a = egress_line b \<longleftrightarrow> a = b"
  by (cases a; cases b) (simp add: egress_line_def)

definition HostPortFromAddr :: "string \<Rightarrow> string \<times> string" where
  "HostPortFromAddr addr =
     (case SplitHostPort addr of Inl err \<Rightarrow> (addr, []) | Inr (host, port) \<Rightarrow> (host, port))"

text \<open>The events whose decision is the given one, read back from the lines.\<close>

definition line_attr :: "log_line \<Rightarrow> string \<Rightarrow> attr_value option" where
  "line_attr l k = map_of (attrs l) k"

lemma line_level_egress [simp]: "line_level (egress_line e) = LevelInfo"
  by (simp add: egress_line_def)

lemma line_attr_decision [simp]:
  "line_attr (egress_line e) ''decision'' = Some (VStr (Decision e))"
  by (simp add: line_attr_def egress_line_def audit_prefix_def)

lemma line_attr_spiffe [simp]:
  "line_attr (egress_line e) ''spiffe'' = Some (VStr (SPIFFE e))"
  by (simp add: line_attr_def egress_line_def audit_prefix_def)

lemma line_attr_target [simp]:
  "line_attr (egress_line e) ''target_host'' = Some (VStr (TargetHost e))"
  "line_attr (egress_line e) ''target_port'' = Some (VUint (TargetPort e))"
  "line_attr (egress_line e) ''client_addr'' = Some (VStr (ClientAddr e))"
  by (simp_all add: line_attr_def egress_line_def audit_prefix_def)

text \<open>
  The log loses nothing: the lines written for a sequence of events determine that sequence,
  field by field and in order.
\<close>

lemma audit_lines_determine_events:
  "fold Log es [] = fold Log es' [] \<longleftrightarrow> es = es'"
proof -
  have f: "fold Log xs l = l @ map egress_line xs" for xs l
    by (induction xs arbitrary: l) (simp_all add: Log_def)
  have "inj egress_line" by (simp add: inj_def egress_line_inject)
  then show ?thesis by (simp add: f inj_map_eq_map)
qed

end
