(* ===== verification/Certs.thy ===== *)
theory Certs
  imports Go_Strings
begin

unbundle bit_operations_syntax

text \<open>
  The certificate manager (internal/certs/manager.go): \<open>NewManager\<close>, \<open>TLSConfig\<close>,
  \<open>reload\<close> and the \<open>Watch\<close> loop that reloads on file events.

  The file system is a function from paths to contents (None when the read fails); an event
  of the loop carries the file system it finds, so files may change between events. Key pair,
  certificate and PEM decoding (crypto/tls, crypto/x509) and the bit values of the event
  flags (package fsnotify) are arguments.
\<close>

section \<open>Paths\<close>

definition slash :: char where "slash = CHR 0x2F"

fun split_path :: "string \<Rightarrow> string \<Rightarrow> string list" where
  "split_path acc [] = [rev acc]"
| "split_path acc (c # s) = (if c = slash then rev acc # split_path [] s else split_path (c # acc) s)"

text \<open>The stack of components, last one first, as in \<open>filepath.Clean\<close>.\<close>

fun clean_loop :: "bool \<Rightarrow> string list \<Rightarrow> string list \<Rightarrow> string list" where
  "clean_loop rooted out [] = rev out"
| "clean_loop rooted out (c # cs) =
     (if c = [] \<or> c = ''.'' then clean_loop rooted out cs
      else if c = ''..'' then
        (case out of
           [] \<Rightarrow> if rooted then clean_loop rooted [] cs else clean_loop rooted [c] cs
         | d # ds \<Rightarrow> if d = ''..'' then clean_loop rooted (c # out) cs else clean_loop rooted ds cs)
      else clean_loop rooted (c # out) cs)"

fun join_slash :: "string list \<Rightarrow> string" where
  "join_slash [] = []"
| "join_slash [c] = c"
| "join_slash (c # cs) = c @ slash # join_slash cs"

definition Clean :: "string \<Rightarrow> string" where
  "Clean p =
     (if p = [] then ''.''
      else let rooted = (hd p = slash);
               out = (if rooted then [slash] else []) @ join_slash (clean_loop rooted [] (split_path [] p))
           in if out = [] then ''.'' else out)"

definition PathJoin :: "string \<Rightarrow> string \<Rightarrow> string" where
  "PathJoin dir name = (if dir = [] then Clean name else Clean (dir @ slash # name))"

section \<open>TLS configurations\<close>

record leaf =
  Subject :: string
  NotAfter :: int

text \<open>A key pair has at least one certificate: the library rejects files without one.\<close>

record key_pair =
  Cert0 :: string
  CertRest :: "string list"
  PrivateKey :: string
  Leaf :: "leaf option"

record tls_config =
  Certificates :: "key_pair list"
  RootCAs :: "string list"
  MinVersion :: nat
  ServerName :: string
  SkipVerify :: bool

definition VersionTLS12 :: nat where "VersionTLS12 = 0x0303"

record x509_lib =
  X509KeyPair :: "string \<Rightarrow> string \<Rightarrow> key_pair option"
  ParseCertificate :: "string \<Rightarrow> leaf option"
  CertsFromPEM :: "string \<Rightarrow> string list"

type_synonym files = "string \<Rightarrow> string option"

definition LoadX509KeyPair :: "x509_lib \<Rightarrow> files \<Rightarrow> string \<Rightarrow> string \<Rightarrow> key_pair option" where
  "LoadX509KeyPair lib fs certFile keyFile =
     (case fs certFile of
        None \<Rightarrow> None
      | Some cert \<Rightarrow>
          (case fs keyFile of None \<Rightarrow> None | Some key \<Rightarrow> X509KeyPair lib cert key))"

section \<open>The manager\<close>

record manager =
  dir :: string
  current :: "tls_config option"

datatype reload_error = LoadKeypair | ParseLeaf | ReadCA | NoCACerts

definition TLSConfig :: "manager \<Rightarrow> tls_config option" where
  "TLSConfig m = current m"

definition reload :: "x509_lib \<Rightarrow> files \<Rightarrow> manager \<Rightarrow> manager \<times> reload_error option" where
  "reload lib fs m =
     (let certPath = PathJoin (dir m) ''tls.crt'';
          keyPath = PathJoin (dir m) ''tls.key'';
          caPath = PathJoin (dir m) ''ca.crt''
      in case LoadX509KeyPair lib fs certPath keyPath of
           None \<Rightarrow> (m, Some LoadKeypair)
         | Some cert \<Rightarrow>
             (case ParseCertificate lib (Cert0 cert) of
                None \<Rightarrow> (m, Some ParseLeaf)
              | Some lf \<Rightarrow>
                  (case fs caPath of
                     None \<Rightarrow> (m, Some ReadCA)
                   | Some caPEM \<Rightarrow>
                       if CertsFromPEM lib caPEM = [] then (m, Some NoCACerts)
                       else (m\<lparr>current := Some \<lparr>Certificates = [cert\<lparr>Leaf := Some lf\<rparr>],
                                  RootCAs = CertsFromPEM lib caPEM,
                                  MinVersion = VersionTLS12,
                                  ServerName = [], SkipVerify = False\<rparr>\<rparr>, None))))"

definition NewManager :: "x509_lib \<Rightarrow> files \<Rightarrow> string \<Rightarrow> reload_error + manager" where
  "NewManager lib fs d =
     (case reload lib fs \<lparr>dir = d, current = None\<rparr> of
        (m, Some e) \<Rightarrow> Inl e
      | (m, None) \<Rightarrow> Inr m)"

section \<open>The watch loop\<close>

record notify_ops =
  OpCreate :: "32 word"
  OpWrite :: "32 word"
  OpRemove :: "32 word"
  OpRename :: "32 word"

text \<open>What one turn of the select delivers.\<close>

datatype watch_event =
    CtxDone
  | EventsClosed
  | FileEvent "32 word" files
  | ErrorsClosed
  | NotifyError

definition reload_mask :: "notify_ops \<Rightarrow> 32 word" where
  "reload_mask n = OpCreate n OR OpWrite n OR OpRemove n OR OpRename n"

fun watch_loop :: "x509_lib \<Rightarrow> notify_ops \<Rightarrow> watch_event list \<Rightarrow> manager \<Rightarrow> manager" where
  "watch_loop lib n [] m = m"
| "watch_loop lib n (CtxDone # evs) m = m"
| "watch_loop lib n (EventsClosed # evs) m = m"
| "watch_loop lib n (FileEvent op fs # evs) m =
     (if op AND reload_mask n \<noteq> 0
      then watch_loop lib n evs (fst (reload lib fs m))
      else watch_loop lib n evs m)"
| "watch_loop lib n (ErrorsClosed # evs) m = m"
| "watch_loop lib n (NotifyError # evs) m = watch_loop lib n evs m"

text \<open>\<open>Watch\<close> gives up at once when the notifier cannot be created or attached.\<close>

definition Watch ::
  "x509_lib \<Rightarrow> notify_ops \<Rightarrow> bool \<Rightarrow> bool \<Rightarrow> watch_event list \<Rightarrow> manager \<Rightarrow> manager" where
  "Watch lib n newErr addErr evs m =
     (if newErr then m else if addErr then m else watch_loop lib n evs m)"

section \<open>What a reload does\<close>

text \<open>The configuration the three files of a directory denote, if they are in order.\<close>

definition files_config :: "x509_lib \<Rightarrow> string \<Rightarrow> files \<Rightarrow> tls_config option" where
  "files_config lib d fs =
     (case (fs (PathJoin d ''tls.crt''), fs (PathJoin d ''tls.key''), fs (PathJoin d ''ca.crt'')) of
        (Some crt, Some key, Some ca) \<Rightarrow>
          (case X509KeyPair lib crt key of
             Some kp \<Rightarrow>
               (case ParseCertificate lib (Cert0 kp) of
                  Some lf \<Rightarrow>
                    if CertsFromPEM lib ca \<noteq> [] then
                      Some \<lparr>Certificates = [kp\<lparr>Leaf := Some lf\<rparr>], RootCAs = CertsFromPEM lib ca,
                        MinVersion = VersionTLS12, ServerName = [], SkipVerify = False\<rparr>
                    else None
                | None \<Rightarrow> None)
           | None \<Rightarrow> None)
      | _ \<Rightarrow> None)"

text \<open>All or nothing: the stored configuration is that of the files, or it is untouched.\<close>

lemma reload_files:
  "reload lib fs m =
     (case files_config lib (dir m) fs of
        Some cfg \<Rightarrow> (m\<lparr>current := Some cfg\<rparr>, None)
      | None \<Rightarrow> (m, snd (reload lib fs m)))"
  by (simp add: reload_def files_config_def LoadX509KeyPair_def Let_def split: option.splits)

lemma reload_error_iff: "snd (reload lib fs m) = None \<longleftrightarrow> files_config lib (dir m) fs \<noteq> None"
  by (simp add: reload_def files_config_def LoadX509KeyPair_def Let_def split: option.splits)

lemma reload_dir [simp]: "dir (fst (reload lib fs m)) = dir m"
  by (subst reload_files) (simp split: option.splits)

lemma reload_current:
  "current (fst (reload lib fs m)) =
     (case files_config lib (dir m) fs of Some cfg \<Rightarrow> Some cfg | None \<Rightarrow> current m)"
  by (subst reload_files) (simp split: option.splits)

section \<open>A store that is reloaded\<close>

interpretation cert_store: reloadable "\<lambda>fs m. fst (reload lib fs m)" current
  "\<lambda>m. files_config lib (dir m)" for lib
  by unfold_locales (simp_all add: reload_current)

section \<open>The loop as a sequence of attempts\<close>

text \<open>The file systems of the events that make the loop reload, up to its end.\<close>

fun reload_points :: "notify_ops \<Rightarrow> watch_event list \<Rightarrow> files list" where
  "reload_points n [] = []"
| "reload_points n (FileEvent op fs # evs) =
     (if op AND reload_mask n \<noteq> 0 then fs # reload_points n evs else reload_points n evs)"
| "reload_points n (NotifyError # evs) = reload_points n evs"
| "reload_points n (CtxDone # evs) = []"
| "reload_points n (EventsClosed # evs) = []"
| "reload_points n (ErrorsClosed # evs) = []"

lemma watch_loop_attempts:
  "watch_loop lib n evs m = fold (\<lambda>fs m. fst (reload lib fs m)) (reload_points n evs) m"
  by (induction lib n evs m rule: watch_loop.induct) auto

lemma NewManager_ok:
  "NewManager lib fs d = Inr m \<longleftrightarrow>
     (\<exists>cfg. files_config lib d fs = Some cfg \<and> m = \<lparr>dir = d, current = Some cfg\<rparr>)"
proof -
  have "reload lib fs \<lparr>dir = d, current = None\<rparr> =
     (case files_config lib d fs of
        Some cfg \<Rightarrow> (\<lparr>dir = d, current = Some cfg\<rparr>, None)
      | None \<Rightarrow> (\<lparr>dir = d, current = None\<rparr>, snd (reload lib fs \<lparr>dir = d, current = None\<rparr>)))"
    by (subst reload_files) (simp split: option.splits)
  then show ?thesis
    using reload_error_iff [of lib fs "\<lparr>dir = d, current = None\<rparr>"]
    by (auto simp: NewManager_def split: option.splits)
qed

text \<open>What every configuration of the manager has.\<close>

definition config_ok :: "tls_config \<Rightarrow> bool" where
  "config_ok c \<longleftrightarrow> MinVersion c = VersionTLS12 \<and> RootCAs c \<noteq> [] \<and> \<not> SkipVerify c \<and>
     (\<exists>kp. Certificates c = [kp] \<and> Leaf kp \<noteq> None)"

lemma files_config_ok: "files_config lib d fs = Some c \<Longrightarrow> config_ok c"
  by (auto simp: files_config_def config_ok_def split: option.splits if_splits)

section \<open>Properties\<close>

text \<open>
  C16. A reload is all or nothing: it succeeds exactly if the key pair parses, its leaf parses
  and the CA file has a certificate, and then the stored configuration is that of these files
  (one key pair with its leaf, a non-empty CA pool, TLS 1.2 as the minimum); when it fails the
  manager is unchanged.
\<close>

theorem reload_all_or_nothing:
  "(snd (reload lib fs m) = None \<longrightarrow>
      (\<exists>cfg. files_config lib (dir m) fs = Some cfg \<and> config_ok cfg \<and>
         fst (reload lib fs m) = m\<lparr>current := Some cfg\<rparr>)) \<and>
   (snd (reload lib fs m) \<noteq> None \<longrightarrow>
      files_config lib (dir m) fs = None \<and> fst (reload lib fs m) = m)"
proof (cases "files_config lib (dir m) fs")
  case None
  then have "fst (reload lib fs m) = m" by (subst reload_files) simp
  then show ?thesis using None reload_error_iff [of lib fs m] by simp
next
  case (Some cfg)
  then have "fst (reload lib fs m) = m\<lparr>current := Some cfg\<rparr>" by (subst reload_files) simp
  then show ?thesis using Some reload_error_iff [of lib fs m] files_config_ok [OF Some] by simp
qed

definition ex_lib :: x509_lib where
  "ex_lib = \<lparr>X509KeyPair = (\<lambda>crt key. if crt = ''CRT'' \<and> key = ''KEY''
       then Some \<lparr>Cert0 = ''DER'', CertRest = [], PrivateKey = ''KEY'', Leaf = None\<rparr> else None),
     ParseCertificate = (\<lambda>d. if d = ''DER'' then Some \<lparr>Subject = ''CN=proxy'', NotAfter = 1000\<rparr> else None),
     CertsFromPEM = (\<lambda>p. if p = ''CA'' then [''CADER''] else [])\<rparr>"

definition ex_files :: files where
  "ex_files p = (if p = ''/certs/tls.crt'' then Some ''CRT'' else if p = ''/certs/tls.key'' then Some ''KEY''
     else if p = ''/certs/ca.crt'' then Some ''CA'' else None)"

definition ex_notify :: notify_ops where
  "ex_notify = \<lparr>OpCreate = 1, OpWrite = 2, OpRemove = 4, OpRename = 8\<rparr>"

lemma ex_paths: "PathJoin ''/certs/'' ''tls.crt'' = ''/certs/tls.crt''"
  "PathJoin ''/certs/'' ''tls.key'' = ''/certs/tls.key''" "PathJoin ''/certs/'' ''ca.crt'' = ''/certs/ca.crt''"
  by code_simp+

lemma ex_files_config: "\<exists>cfg. files_config ex_lib ''/certs/'' ex_files = Some cfg"
  by (simp add: files_config_def ex_paths ex_files_def ex_lib_def)

theorem reload_all_or_nothing_witness:
  "\<exists>cfg. fst (reload ex_lib ex_files \<lparr>dir = ''/certs/'', current = None\<rparr>) =
      \<lparr>dir = ''/certs/'', current = Some cfg\<rparr> \<and> config_ok cfg \<and>
    fst (reload ex_lib (\<lambda>p. None) \<lparr>dir = ''/certs/'', current = Some cfg\<rparr>) =
      \<lparr>dir = ''/certs/'', current = Some cfg\<rparr>"
proof -
  obtain cfg where c: "files_config ex_lib ''/certs/'' ex_files = Some cfg" using ex_files_config by blast
  have "snd (reload ex_lib ex_files \<lparr>dir = ''/certs/'', current = None\<rparr>) = None"
    using c by (simp add: reload_error_iff)
  then have 1: "fst (reload ex_lib ex_files \<lparr>dir = ''/certs/'', current = None\<rparr>) =
      \<lparr>dir = ''/certs/'', current = Some cfg\<rparr> \<and> config_ok cfg"
    using reload_all_or_nothing [of ex_lib ex_files "\<lparr>dir = ''/certs/'', current = None\<rparr>"] c by simp
  have "files_config ex_lib ''/certs/'' (\<lambda>p. None) = None" by (simp add: files_config_def)
  then have "snd (reload ex_lib (\<lambda>p. None) \<lparr>dir = ''/certs/'', current = Some cfg\<rparr>) \<noteq> None"
    using reload_error_iff [of ex_lib "\<lambda>p. None" "\<lparr>dir = ''/certs/'', current = Some cfg\<rparr>"] by simp
  then have 2: "fst (reload ex_lib (\<lambda>p. None) \<lparr>dir = ''/certs/'', current = Some cfg\<rparr>) =
      \<lparr>dir = ''/certs/'', current = Some cfg\<rparr>"
    using reload_all_or_nothing [of ex_lib "\<lambda>p. None" "\<lparr>dir = ''/certs/'', current = Some cfg\<rparr>"] by simp
  show ?thesis using 1 2 by blast
qed

text \<open>
  C9. Hot reload: after any sequence of notifications the configuration is that of the last
  relevant event (create, write, remove or rename) before the loop ended whose files were in
  order, and the one before the loop if there was none; so a broken rotation never costs the
  proxy its last good certificate.
\<close>

theorem watch_keeps_last_good:
  "current (Watch lib n False False evs m) =
     (case List.find (\<lambda>fs. files_config lib (dir m) fs \<noteq> None) (rev (reload_points n evs)) of
        Some fs \<Rightarrow> files_config lib (dir m) fs
      | None \<Rightarrow> current m)"
  using cert_store.attempts_stored [of lib "reload_points n evs" m]
  by (simp add: Watch_def watch_loop_attempts)

end
