(* ===== verification/Upstream_Request.thy ===== *)
theory Upstream_Request
  imports Http_Msg Certs
begin

text \<open>
  The request for the upstream and the pooled transport (internal/proxy/handler.go):
  the \<open>Handler\<close> fields, \<open>buildUpstreamRequest\<close>, \<open>countingReadCloser\<close>,
  \<open>buildTransport\<close> and \<open>upstreamTransport\<close>.
\<close>

section \<open>The handler\<close>

record handler =
  UpstreamProxy :: string
  UpstreamAuth :: string
  CertManager :: "manager option"
  ExtraHeaders :: "string gomap"
  DialTimeout :: int
  IdleTimeout :: int
  TLSEnabled :: bool
  InsecureSkipVerify :: bool
  TrustXFCCHeader :: bool

section \<open>Building the request\<close>

text \<open>
  The loop over the header's names: \<open>ks\<close> are the names still to come; one that an earlier
  turn removed is not produced.
\<close>

fun strip_loop :: "(string \<Rightarrow> string) \<Rightarrow> string list \<Rightarrow> header \<Rightarrow> header" where
  "strip_loop ul [] h = h"
| "strip_loop ul (k # ks) h =
     (if map_of h k = None then strip_loop ul ks h
      else if isHopByHop ul k \<or> EqualFold k ''Proxy-Authorization''
        then strip_loop ul ks (hdr_Del h k)
      else strip_loop ul ks h)"

fun extra_loop :: "string gomap \<Rightarrow> header \<Rightarrow> header" where
  "extra_loop [] h = h"
| "extra_loop ((name, value) # es) h = extra_loop es (hdr_Set h name value)"

definition set_auth :: "string \<Rightarrow> header \<Rightarrow> header" where
  "set_auth auth h = (if auth \<noteq> [] then hdr_Set h ''Proxy-Authorization'' auth else h)"

text \<open>
  The header that goes upstream. The result of \<open>buildUpstreamRequest\<close> pairs the request
  with whether the body counter is non-nil; the code's error result is always nil.
\<close>

definition upstream_header :: "(string \<Rightarrow> string) \<Rightarrow> handler \<Rightarrow> header \<Rightarrow> header" where
  "upstream_header ul h hm =
     extra_loop (ExtraHeaders h) (set_auth (UpstreamAuth h) (strip_loop ul (map fst hm) hm))"

definition buildUpstreamRequest ::
  "(string \<Rightarrow> string) \<Rightarrow> handler \<Rightarrow> request \<Rightarrow> string + request \<times> bool" where
  "buildUpstreamRequest ul h r =
     (let outReq = r\<lparr>RequestURI := [], Header := upstream_header ul h (Header r)\<rparr>
      in case Body outReq of
           NilBody \<Rightarrow> Inr (outReq, False)
         | NoBody \<Rightarrow> Inr (outReq, False)
         | Stream s \<Rightarrow> Inr (outReq\<lparr>Body := Counting s\<rparr>, True)
         | Counting s \<Rightarrow> Inr (outReq\<lparr>Body := Counting s\<rparr>, True))"

section \<open>The counting reader\<close>

text \<open>
  The bytes the wrapped body still has and the 64-bit counter. A read with a buffer of
  \<open>k\<close> bytes returns at most that many; the counter adds what was returned.
\<close>

record counting_reader =
  cr_rest :: string
  cr_n :: "64 word"

definition cr_Read :: "nat \<Rightarrow> counting_reader \<Rightarrow> string \<times> counting_reader" where
  "cr_Read k c =
     (let p = take k (cr_rest c)
      in (p, c\<lparr>cr_rest := drop k (cr_rest c), cr_n := cr_n c + of_nat (length p)\<rparr>))"

definition cr_Load :: "counting_reader \<Rightarrow> 64 word" where
  "cr_Load c = cr_n c"

fun cr_reads :: "nat list \<Rightarrow> counting_reader \<Rightarrow> string \<times> counting_reader" where
  "cr_reads [] c = ([], c)"
| "cr_reads (k # ks) c =
     (let (p, c1) = cr_Read k c; (q, c2) = cr_reads ks c1 in (p @ q, c2))"

definition new_counter :: "string \<Rightarrow> counting_reader" where
  "new_counter s = \<lparr>cr_rest = s, cr_n = 0\<rparr>"

lemma cr_reads_split:
  "cr_reads ks c = (p, c') \<Longrightarrow>
   cr_rest c = p @ cr_rest c' \<and> cr_n c' = cr_n c + of_nat (length p)"
proof (induction ks arbitrary: c p c')
  case (Cons k ks)
  obtain q c2 where q: "cr_reads ks (snd (cr_Read k c)) = (q, c2)" by fastforce
  have "p = fst (cr_Read k c) @ q" "c' = c2"
    using Cons.prems q by (simp_all add: case_prod_unfold Let_def)
  then show ?case using Cons.IH [OF q] append_take_drop_id [of k "cr_rest c"]
    by (simp add: cr_Read_def Let_def)
qed simp

section \<open>The transport\<close>

definition maxIdleUpstreamConnsPerHost :: nat where
  "maxIdleUpstreamConnsPerHost = 32"

datatype dial_hook = NoHook | DialForTransport

record transport =
  ProxyScheme :: string
  ProxyHost :: string
  MaxIdleConnsPerHost :: nat
  IdleConnTimeout :: int
  DialTLSContext :: dial_hook
  DialContext :: dial_hook

definition buildTransport :: "handler \<Rightarrow> transport" where
  "buildTransport h =
     (let scheme = (if TLSEnabled h then ''https'' else ''http'');
          t = \<lparr>ProxyScheme = scheme, ProxyHost = UpstreamProxy h,
               MaxIdleConnsPerHost = maxIdleUpstreamConnsPerHost,
               IdleConnTimeout = IdleTimeout h,
               DialTLSContext = NoHook, DialContext = NoHook\<rparr>
      in if TLSEnabled h then t\<lparr>DialTLSContext := DialForTransport\<rparr>
         else t\<lparr>DialContext := DialForTransport\<rparr>)"

text \<open>
  The lazily built transport: \<open>tr_once\<close> is the state of the \<open>sync.Once\<close>,
  \<open>tr_builds\<close> counts how often \<open>buildTransport\<close> ran.
\<close>

record transport_cell =
  tr_once :: bool
  tr_transport :: "transport option"
  tr_builds :: nat

definition new_cell :: transport_cell where
  "new_cell = \<lparr>tr_once = False, tr_transport = None, tr_builds = 0\<rparr>"

definition upstreamTransport ::
  "handler \<Rightarrow> transport_cell \<Rightarrow> transport option \<times> transport_cell" where
  "upstreamTransport h c =
     (let c1 = (if tr_once c then c
                else c\<lparr>tr_once := True, tr_transport := Some (buildTransport h),
                       tr_builds := tr_builds c + 1\<rparr>)
      in (tr_transport c1, c1))"

definition cell_ok :: "handler \<Rightarrow> transport_cell \<Rightarrow> bool" where
  "cell_ok h c \<longleftrightarrow>
     (if tr_once c then tr_transport c = Some (buildTransport h) \<and> tr_builds c = 1
      else tr_transport c = None \<and> tr_builds c = 0)"

lemma cell_ok_new: "cell_ok h new_cell"
  by (simp add: cell_ok_def new_cell_def)

lemma upstreamTransport_ok:
  "cell_ok h c \<Longrightarrow> upstreamTransport h c = (t, c') \<Longrightarrow>
   t = Some (buildTransport h) \<and> cell_ok h c' \<and> tr_builds c' = 1"
  by (auto simp: upstreamTransport_def cell_ok_def Let_def split: if_splits)

section \<open>The header that goes upstream\<close>

lemma strip_loop_lookup:
  assumes "header_ok hm" "\<And>k. k \<in> set ks \<Longrightarrow> CanonicalKey k = k"
  shows "map_of (strip_loop ul ks hm) x =
    (if x \<in> set ks \<and> (isHopByHop ul x \<or> EqualFold x ''Proxy-Authorization'') then None
     else map_of hm x)"
  using assms
proof (induction ks arbitrary: hm)
  case (Cons k ks)
  have k: "CanonicalKey k = k" "\<And>k. k \<in> set ks \<Longrightarrow> CanonicalKey k = k" using Cons.prems(2) by auto
  have ok: "header_ok (hdr_Del hm k)"
    using Cons.prems(1)
    by (auto simp: header_ok_def hdr_Del_def AList.delete_eq intro!: map_ok_filter)
  show ?case
    using Cons.IH [OF Cons.prems(1) k(2)] Cons.IH [OF ok k(2)] k(1)
    by (auto simp: map_of_Del)
qed simp

lemma header_ok_canonical: "header_ok hm \<Longrightarrow> k \<in> set (map fst hm) \<Longrightarrow> CanonicalKey k = k"
  by (auto simp: header_ok_def)

lemma strip_lookup:
  assumes "header_ok hm"
  shows "map_of (strip_loop ul (map fst hm) hm) x =
    (if CanonicalKey x \<in> set hop_by_hop_keys then None else map_of hm x)"
proof (cases "map_of hm x")
  case None
  then have "x \<notin> set (map fst hm)" by (simp add: map_of_eq_None_iff)
  then show ?thesis
    using None strip_loop_lookup [OF assms header_ok_canonical [OF assms], of "map fst hm" ul x]
    by simp
next
  case (Some vs)
  have x: "is_ascii x" using header_ok_key [OF assms Some] by simp
  have "x \<in> set (map fst hm)" using Some by (force dest: map_of_SomeD)
  then show ?thesis
    using strip_loop_lookup [OF assms header_ok_canonical [OF assms], of "map fst hm" ul x]
      isHopByHop_iff [OF x, of ul] EqualFold_hop [of x ul] by auto
qed

text \<open>An extra header is set under its canonical name; the last one of that name wins.\<close>

lemma extra_loop_lookup:
  "map_of (extra_loop es hm) x =
     (case map_of (rev (map (\<lambda>(n, v). (CanonicalKey n, v)) es)) x of
        Some v \<Rightarrow> Some [v] | None \<Rightarrow> map_of hm x)"
  by (induction es hm rule: extra_loop.induct)
     (auto simp: map_of_Set map_add_def split: option.splits)

definition extra_value :: "string gomap \<Rightarrow> string \<Rightarrow> string option" where
  "extra_value es x = map_of (rev (map (\<lambda>(n, v). (CanonicalKey n, v)) es)) x"

lemma proxy_auth_key: "CanonicalKey ''Proxy-Authorization'' = ''Proxy-Authorization''"
  by code_simp

lemma proxy_auth_hop: "''Proxy-Authorization'' \<in> set hop_by_hop_keys"
  by (simp add: hop_by_hop_keys_def)

lemma hop_key_canonical: "k \<in> set hop_by_hop_keys \<Longrightarrow> CanonicalKey k = k"
proof -
  have "list_all (\<lambda>k. CanonicalKey k = k) hop_by_hop_keys" by code_simp
  then show "k \<in> set hop_by_hop_keys \<Longrightarrow> CanonicalKey k = k" by (auto simp: list_all_iff)
qed

lemma upstream_header_lookup:
  assumes "header_ok hm" "CanonicalKey x = x"
  shows "map_of (upstream_header ul h hm) x =
    (case extra_value (ExtraHeaders h) x of
       Some v \<Rightarrow> Some [v]
     | None \<Rightarrow>
         if x = ''Proxy-Authorization'' \<and> UpstreamAuth h \<noteq> [] then Some [UpstreamAuth h]
         else if x \<in> set hop_by_hop_keys then None
         else map_of hm x)"
  using assms proxy_auth_hop
  by (auto simp: upstream_header_def extra_loop_lookup extra_value_def set_auth_def map_of_Set
      proxy_auth_key strip_lookup split: option.splits)

lemma buildUpstreamRequest_eq:
  "buildUpstreamRequest ul h r =
     Inr (r\<lparr>RequestURI := [], Header := upstream_header ul h (Header r),
            Body := (case Body r of Stream s \<Rightarrow> Counting s | b \<Rightarrow> b)\<rparr>,
          case Body r of Stream s \<Rightarrow> True | Counting s \<Rightarrow> True | _ \<Rightarrow> False)"
  by (cases "Body r") (simp_all add: buildUpstreamRequest_def Let_def)

text \<open>The iteration order of the extra headers only matters for names that clash.\<close>

lemma extra_value_distinct:
  assumes "distinct (map (CanonicalKey \<circ> fst) es)" "(n, v) \<in> set es"
  shows "extra_value es (CanonicalKey n) = Some v"
proof -
  let ?m = "rev (map (\<lambda>(n, v). (CanonicalKey n, v)) es)"
  have "map fst ?m = rev (map (CanonicalKey \<circ> fst) es)"
    by (simp add: rev_map comp_def case_prod_unfold)
  then have "distinct (map fst ?m)" using assms(1) by simp
  moreover have "(CanonicalKey n, v) \<in> set ?m" using assms(2) by force
  ultimately show ?thesis by (simp add: extra_value_def del: set_rev)
qed

section \<open>Properties\<close>

text \<open>
  C5. The request for the upstream is the client's request (URL in absolute form, method, Host,
  length, transfer encoding and all the rest) with three changes: the RequestURI is cleared, a
  body that is neither nil nor empty is wrapped in the counting reader, which is then returned,
  and the header is rewritten: a field is the configured extra value if there is one, else the
  configured Proxy-Authorization under that name, else gone if its name is one of the listed
  hop-by-hop names, else unchanged.
\<close>

theorem upstream_request_form:
  assumes "header_ok (Header r)" "CanonicalKey x = x"
  shows "\<exists>q. buildUpstreamRequest ul h r = Inr (q, Body r \<noteq> NilBody \<and> Body r \<noteq> NoBody) \<and>
    q = r\<lparr>RequestURI := [], Header := Header q,
          Body := (case Body r of NilBody \<Rightarrow> NilBody | NoBody \<Rightarrow> NoBody
                   | Stream s \<Rightarrow> Counting s | Counting s \<Rightarrow> Counting s)\<rparr> \<and>
    map_of (Header q) x =
      (case extra_value (ExtraHeaders h) x of
         Some v \<Rightarrow> Some [v]
       | None \<Rightarrow>
           if x = ''Proxy-Authorization'' \<and> UpstreamAuth h \<noteq> [] then Some [UpstreamAuth h]
           else if x \<in> set hop_by_hop_keys then None
           else map_of (Header r) x)"
  using upstream_header_lookup [OF assms, of ul h]
  by (cases "Body r") (auto simp: buildUpstreamRequest_eq)

definition ex_handler :: handler where
  "ex_handler = \<lparr>UpstreamProxy = ''squid.corp:3128'', UpstreamAuth = ''Basic cHJveHk='',
     CertManager = None, ExtraHeaders = [(''X-Corp-Id'', ''42'')], DialTimeout = 10, IdleTimeout = 90,
     TLSEnabled = False, InsecureSkipVerify = False, TrustXFCCHeader = False\<rparr>"

definition ex_header :: header where
  "ex_header = [(''Proxy-Authorization'', [''Basic Y2xpZW50'']), (''Te'', [''trailers'']),
     (''Accept'', [''text/html'', ''*/*''])]"

definition ex_request :: request where
  "ex_request = \<lparr>Method = ''GET'',
     URL = \<lparr>Scheme = ''http'', UHost = ''api.example.com'', UText = ''http://api.example.com/v1''\<rparr>,
     Host = ''api.example.com'', RequestURI = ''http://api.example.com/v1'', Header = ex_header,
     Body = Stream ''hello'', ContentLength = 5, TransferEncoding = [], RemoteAddr = ''10.0.0.7:5000'',
     PeerCertificates = None\<rparr>"

lemma ex_header_ok: "header_ok ex_header"
  by code_simp

theorem upstream_request_form_witness:
  "\<exists>q. buildUpstreamRequest (\<lambda>s. s) ex_handler ex_request = Inr (q, True) \<and>
     UText (URL q) = ''http://api.example.com/v1'' \<and> Body q = Counting ''hello'' \<and>
     map_of (Header q) ''Proxy-Authorization'' = Some [''Basic cHJveHk='']"
proof -
  have e: "header_ok (Header ex_request)" by (simp add: ex_request_def ex_header_ok)
  have x: "extra_value (ExtraHeaders ex_handler) ''Proxy-Authorization'' = None" by code_simp
  obtain q where q: "buildUpstreamRequest (\<lambda>s. s) ex_handler ex_request = Inr (q, True)"
    "q = ex_request\<lparr>RequestURI := [], Header := Header q, Body := Counting ''hello''\<rparr>"
    "map_of (Header q) ''Proxy-Authorization'' = Some [''Basic cHJveHk='']"
    using upstream_request_form [OF e proxy_auth_key, of "\<lambda>s. s" ex_handler]
    unfolding x by (auto simp: ex_request_def ex_handler_def)
  have "URL q = URL ex_request" "Body q = Counting ''hello''" by (subst q(2), simp)+
  then show ?thesis using q(1,3) by (simp add: ex_request_def)
qed

text \<open>
  C6. The header fields the code lists as hop-by-hop (the eight names of
  \<open>hop_by_hop_keys\<close>, Proxy-Authorization among them) do not pass: two client headers that
  differ only there lead to upstream headers with the same fields. What the upstream sees under
  a listed name is the configured extra value, else under Proxy-Authorization the proxy's own
  credentials, else nothing. A field that is not listed, such as Proxy-Connection, passes on
  unchanged unless an extra header replaces it.
\<close>

theorem hop_by_hop_does_not_pass:
  assumes "header_ok a" "header_ok b" "\<forall>y. y \<notin> set hop_by_hop_keys \<longrightarrow> map_of a y = map_of b y"
  shows "hdr_values (upstream_header ul h a) x = hdr_values (upstream_header ul h b) x \<and>
    (\<forall>k \<in> set hop_by_hop_keys. map_of (upstream_header ul h a) k =
       (case extra_value (ExtraHeaders h) k of
          Some v \<Rightarrow> Some [v]
        | None \<Rightarrow> if k = ''Proxy-Authorization'' \<and> UpstreamAuth h \<noteq> [] then Some [UpstreamAuth h]
                  else None)) \<and>
    (\<forall>k. CanonicalKey k = k \<and> k \<notin> set hop_by_hop_keys \<and> extra_value (ExtraHeaders h) k = None \<longrightarrow>
       map_of (upstream_header ul h a) k = map_of a k)"
proof (intro conjI ballI allI impI)
  have "map_of (upstream_header ul h a) (CanonicalKey x) = map_of (upstream_header ul h b) (CanonicalKey x)"
    using assms(3)
    by (simp only: upstream_header_lookup [OF assms(1) CanonicalKey_idem]
        upstream_header_lookup [OF assms(2) CanonicalKey_idem]) (auto split: option.split)
  then show "hdr_values (upstream_header ul h a) x = hdr_values (upstream_header ul h b) x"
    by (simp only: hdr_values_def)
next
  fix k
  assume "k \<in> set hop_by_hop_keys"
  then show "map_of (upstream_header ul h a) k =
      (case extra_value (ExtraHeaders h) k of
         Some v \<Rightarrow> Some [v]
       | None \<Rightarrow> if k = ''Proxy-Authorization'' \<and> UpstreamAuth h \<noteq> [] then Some [UpstreamAuth h]
                 else None)"
    using upstream_header_lookup [OF assms(1) hop_key_canonical, of k ul h] by (simp split: option.split)
next
  fix k
  assume "CanonicalKey k = k \<and> k \<notin> set hop_by_hop_keys \<and> extra_value (ExtraHeaders h) k = None"
  then show "map_of (upstream_header ul h a) k = map_of a k"
    using upstream_header_lookup [OF assms(1), of k ul h] proxy_auth_hop by auto
qed

definition ex_conn_header :: header where
  "ex_conn_header = [(''Accept'', [''text/html'', ''*/*'']), (''Proxy-Connection'', [''keep-alive''])]"

theorem hop_by_hop_does_not_pass_witness:
  "hdr_values (upstream_header (\<lambda>s. s) ex_handler
       ((''Te'', [''trailers'']) # ex_conn_header)) ''te'' =
     hdr_values (upstream_header (\<lambda>s. s) ex_handler ex_conn_header) ''te'' \<and>
   map_of (upstream_header (\<lambda>s. s) ex_handler ((''Te'', [''trailers'']) # ex_conn_header)) ''Te'' = None \<and>
   map_of (upstream_header (\<lambda>s. s) ex_handler ((''Te'', [''trailers'']) # ex_conn_header))
     ''Proxy-Connection'' = Some [''keep-alive'']"
proof -
  have ok: "header_ok ((''Te'', [''trailers'']) # ex_conn_header)" "header_ok ex_conn_header"
    by code_simp+
  have same: "\<forall>y. y \<notin> set hop_by_hop_keys \<longrightarrow>
      map_of ((''Te'', [''trailers'']) # ex_conn_header) y = map_of ex_conn_header y"
    by (simp add: hop_by_hop_keys_def)
  have x: "extra_value (ExtraHeaders ex_handler) ''Te'' = None"
    "extra_value (ExtraHeaders ex_handler) ''Proxy-Connection'' = None"
    "CanonicalKey ''Proxy-Connection'' = ''Proxy-Connection''"
    "map_of ((''Te'', [''trailers'']) # ex_conn_header) ''Proxy-Connection'' = Some [''keep-alive'']"
    by code_simp+
  have k: "''Te'' \<in> set hop_by_hop_keys" "''Proxy-Connection'' \<notin> set hop_by_hop_keys"
    by (simp_all add: hop_by_hop_keys_def)
  note th = hop_by_hop_does_not_pass [OF ok same, where ul = "\<lambda>s. s" and h = ex_handler and x = "''te''"]
  show ?thesis
    using th [THEN conjunct1] bspec [OF th [THEN conjunct2, THEN conjunct1] k(1)]
      spec [OF th [THEN conjunct2, THEN conjunct2], of "''Proxy-Connection''"] x k(2)
    by simp
qed

text \<open>
  C37. The body counter is exact: after any sequence of reads it holds the number of bytes the
  transport got, which are the first bytes of the body; once the body is used up it holds the
  length of the body. (For bodies below 2 to the 63 the 64-bit counter does not wrap.)
\<close>

theorem body_counter_exact:
  assumes "cr_reads ks (new_counter s) = (p, c)" "length s < 2 ^ 63"
  shows "s = p @ cr_rest c \<and> sint (cr_Load c) = int (length p) \<and>
    (cr_rest c = [] \<longrightarrow> sint (cr_Load c) = int (length s))"
proof -
  have s: "s = p @ cr_rest c" and n: "cr_n c = of_nat (length p)"
    using cr_reads_split [OF assms(1)] by (simp_all add: new_counter_def)
  have "length p < 2 ^ 63" using assms(2) s by (metis le_add1 le_less_trans length_append)
  then have "sint (cr_n c) = int (length p)"
    unfolding n by (simp add: signed_of_nat signed_take_bit_int_eq_self)
  then show ?thesis using s by (auto simp: cr_Load_def)
qed

theorem body_counter_exact_witness:
  "sint (cr_Load (snd (cr_reads [3, 0, 512] (new_counter ''hello'')))) = 5"
  using body_counter_exact [of "[3, 0, 512]" "''hello''" "''hello''"
      "snd (cr_reads [3, 0, 512] (new_counter ''hello''))"]
  by (simp add: cr_Read_def new_counter_def Let_def)

text \<open>
  The transport is built on the first use and only then: every one of any number of calls
  returns the one built from the handler, which dials through \<open>dialForTransport\<close> in
  exactly the hook that belongs to the scheme of the proxy URL.
\<close>

fun transport_calls :: "handler \<Rightarrow> nat \<Rightarrow> transport_cell \<Rightarrow> transport option list \<times> transport_cell" where
  "transport_calls h 0 c = ([], c)"
| "transport_calls h (Suc n) c =
     (let (t, c1) = upstreamTransport h c; (ts, c2) = transport_calls h n c1 in (t # ts, c2))"

lemma transport_calls_ok:
  "cell_ok h c \<Longrightarrow> set (fst (transport_calls h n c)) \<subseteq> {Some (buildTransport h)} \<and>
   length (fst (transport_calls h n c)) = n \<and> cell_ok h (snd (transport_calls h n c))"
proof (induction n arbitrary: c)
  case (Suc n)
  obtain t c1 where u: "upstreamTransport h c = (t, c1)" by fastforce
  have "t = Some (buildTransport h)" "cell_ok h c1"
    using upstreamTransport_ok [OF Suc.prems u] by simp_all
  then show ?case using Suc.IH [of c1] u by (simp add: case_prod_unfold Let_def)
qed simp

lemma transport_built_once:
  "set (fst (transport_calls h n new_cell)) \<subseteq> {Some (buildTransport h)} \<and>
   tr_builds (snd (transport_calls h n new_cell)) \<le> 1 \<and>
   ProxyHost (buildTransport h) = UpstreamProxy h \<and>
   (ProxyScheme (buildTransport h) = ''https'' \<longleftrightarrow> TLSEnabled h) \<and>
   (DialTLSContext (buildTransport h) = DialForTransport \<longleftrightarrow> ProxyScheme (buildTransport h) = ''https'') \<and>
   (DialContext (buildTransport h) = DialForTransport \<longleftrightarrow> ProxyScheme (buildTransport h) = ''http'')"
  using transport_calls_ok [OF cell_ok_new, of h n]
  by (auto simp: cell_ok_def buildTransport_def Let_def split: if_splits)

end
