(* ===== verification/Forward.thy ===== *)
theory Forward
  imports Watcher Target Identity Audit_Log Upstream_Request
begin

text \<open>
  The plain-HTTP path (internal/proxy/handler.go): \<open>handleHTTPForward\<close> and
  \<open>denyForward\<close>, with the shared state of the handlers.

  The metrics (Prometheus) are kept as the list of calls the code makes on them, in order; the
  amounts added to a counter are kept as integers (the code converts them to 64-bit floats,
  which hold every integer up to 2 to the 53). \<open>p_bodies\<close> counts the response bodies that are open.
  The environment of one call gives the clock readings and what \<open>RoundTrip\<close> does with a
  request: the sizes of the reads it makes on the body, and a response or an error.
\<close>

section \<open>Shared state\<close>

datatype metric_call =
    RequestsTotal string string
  | ActiveInc
  | ActiveDec
  | DialErrors
  | BytesTransferred string int

record pstate =
  p_rw :: response_writer
  p_metrics :: "metric_call list"
  p_audit :: "log_line list"
  p_diag :: "(slog_level \<times> string) list"
  p_sent :: "request list"
  p_cell :: transport_cell
  p_bodies :: int

datatype run_end = Returned | Panicked

record go_lib =
  unicode_lower :: "string \<Rightarrow> string"
  url_Parse :: "string \<Rightarrow> url option"

definition metric :: "metric_call \<Rightarrow> pstate \<Rightarrow> pstate" where
  "metric m s = s\<lparr>p_metrics := p_metrics s @ [m]\<rparr>"

definition audit_log :: "event \<Rightarrow> pstate \<Rightarrow> pstate" where
  "audit_log e s = s\<lparr>p_audit := Log e (p_audit s)\<rparr>"

definition diag :: "slog_level \<Rightarrow> string \<Rightarrow> pstate \<Rightarrow> pstate" where
  "diag l t s = s\<lparr>p_diag := p_diag s @ [(l, t)]\<rparr>"

definition reply_error :: "string \<Rightarrow> nat \<Rightarrow> pstate \<Rightarrow> pstate" where
  "reply_error t code s = s\<lparr>p_rw := http_Error t code (p_rw s)\<rparr>"

definition add_header :: "string \<Rightarrow> string \<Rightarrow> pstate \<Rightarrow> pstate" where
  "add_header k v s = s\<lparr>p_rw := (p_rw s)\<lparr>rw_header := hdr_Add (rw_header (p_rw s)) k v\<rparr>\<rparr>"

definition open_body :: "pstate \<Rightarrow> pstate" where
  "open_body s = s\<lparr>p_bodies := p_bodies s + 1\<rparr>"

definition close_body :: "pstate \<Rightarrow> pstate" where
  "close_body s = s\<lparr>p_bodies := p_bodies s - 1\<rparr>"

lemmas state_ops = open_body_def close_body_def metric_def audit_log_def diag_def reply_error_def add_header_def

text \<open>A duration in whole milliseconds, truncated towards zero.\<close>

definition Milliseconds :: "int \<Rightarrow> int" where
  "Milliseconds d = sgn d * (\<bar>d\<bar> div 1000000)"

section \<open>Denials\<close>

definition deny_reason :: string where
  "deny_reason = ''host_not_in_service_entry_allowlist''"

definition denyForward ::
  "go_lib \<Rightarrow> handler \<Rightarrow> int \<Rightarrow> request \<Rightarrow> string \<Rightarrow> port \<Rightarrow> string \<Rightarrow> pstate \<Rightarrow> pstate" where
  "denyForward lib h now r host port reason s =
     reply_error (''forbidden: '' @ reason) StatusForbidden
       (metric (RequestsTotal ''HTTP'' ''deny'')
         (audit_log (zero_event\<lparr>Timestamp := now, ClientAddr := RemoteAddr r,
            SPIFFE := spiffeFromRequest (url_Parse lib) (TrustXFCCHeader h) r,
            EMethod := ''HTTP-FORWARD'', TargetHost := host, TargetPort := port,
            Decision := ''deny'', DenyReason := reason, EStatus := StatusForbidden\<rparr>) s))"

section \<open>The forward path\<close>

datatype round_trip = RTError | RTResponse response

record fwd_env =
  fe_start :: int
  fe_log :: int
  fe_reads :: "transport option \<Rightarrow> request \<Rightarrow> nat list"
  fe_answer :: "transport option \<Rightarrow> request \<Rightarrow> round_trip"

fun copy_values :: "string \<Rightarrow> string list \<Rightarrow> pstate \<Rightarrow> pstate" where
  "copy_values k [] s = s"
| "copy_values k (v # vs) s = copy_values k vs (add_header k v s)"

fun copy_headers :: "(string \<Rightarrow> string) \<Rightarrow> header \<Rightarrow> pstate \<Rightarrow> pstate" where
  "copy_headers ul [] s = s"
| "copy_headers ul ((k, vv) # hs) s =
     (if isHopByHop ul k then copy_headers ul hs s else copy_headers ul hs (copy_values k vv s))"

text \<open>\<open>io.Copy\<close> to the response writer: without a byte there is no write at all.\<close>

definition copy_body :: "string \<Rightarrow> pstate \<Rightarrow> nat \<times> pstate" where
  "copy_body b s =
     (if b = [] then (0, s) else let (n, w) = rw_Write b (p_rw s) in (n, s\<lparr>p_rw := w\<rparr>))"

definition body_count :: "request \<Rightarrow> nat list \<Rightarrow> int" where
  "body_count outReq ks =
     (case Body outReq of
        Counting b \<Rightarrow> sint (cr_Load (snd (cr_reads ks (new_counter b))))
      | _ \<Rightarrow> 0)"

text \<open>The part after \<open>RoundTrip\<close> returned a response, up to the deferred calls.\<close>

definition relay_response ::
  "go_lib \<Rightarrow> handler \<Rightarrow> fwd_env \<Rightarrow> request \<Rightarrow> string \<Rightarrow> port \<Rightarrow> response \<Rightarrow> pstate \<Rightarrow> pstate \<times> run_end"
where
  "relay_response lib h env r host port resp s =
     (let s1 = copy_headers (unicode_lower lib) (RespHeader resp) s in
      case WriteHeader (StatusCode resp) (p_rw s1) of
        None \<Rightarrow> (s1, Panicked)
      | Some w \<Rightarrow>
          let (n, s2) = copy_body (RespBody resp) (s1\<lparr>p_rw := w\<rparr>);
              s3 = metric (BytesTransferred ''upstream_to_client'' (int n)) s2;
              s4 = audit_log (zero_event\<lparr>Timestamp := fe_start env, ClientAddr := RemoteAddr r,
                     SPIFFE := spiffeFromRequest (url_Parse lib) (TrustXFCCHeader h) r,
                     EMethod := ''HTTP-FORWARD'', TargetHost := host, TargetPort := port,
                     EUpstreamProxy := UpstreamProxy h, Decision := ''allow'',
                     EStatus := StatusCode resp, BytesIn := int n,
                     DurationMS := Milliseconds (fe_log env - fe_start env)\<rparr>) s3
          in (metric (RequestsTotal ''HTTP'' ''allow'') s4, Returned))"

text \<open>
  From the result of \<open>RoundTrip\<close> on; a response comes with an open body. The deferred
  calls, \<open>resp.Body.Close\<close> and then \<open>activeConnections.Dec\<close>, run at the end of every
  way out, a panic included.
\<close>

definition forward_finish ::
  "go_lib \<Rightarrow> handler \<Rightarrow> fwd_env \<Rightarrow> request \<Rightarrow> string \<Rightarrow> port \<Rightarrow> round_trip \<Rightarrow> pstate \<Rightarrow>
   pstate \<times> run_end" where
  "forward_finish lib h env r host port answer s =
     (case answer of
        RTError \<Rightarrow>
          (metric ActiveDec
            (metric (RequestsTotal ''HTTP'' ''upstream_error'')
              (reply_error ''upstream unavailable'' StatusBadGateway
                (diag LevelError ''upstream round trip failed'' (metric DialErrors s)))), Returned)
      | RTResponse resp \<Rightarrow>
          let (s1, e) = relay_response lib h env r host port resp (open_body s)
          in (metric ActiveDec (close_body s1), e))"

text \<open>
  The part after the request was built.
\<close>

definition forward_built ::
  "go_lib \<Rightarrow> handler \<Rightarrow> fwd_env \<Rightarrow> request \<Rightarrow> string \<Rightarrow> port \<Rightarrow> request \<Rightarrow> bool \<Rightarrow> pstate \<Rightarrow>
   pstate \<times> run_end" where
  "forward_built lib h env r host port outReq counted s =
     (let s1 = metric ActiveInc s;
          (t, c) = upstreamTransport h (p_cell s1);
          s2 = s1\<lparr>p_cell := c, p_sent := p_sent s1 @ [outReq]\<rparr>;
          s3 = (if counted
                then metric (BytesTransferred ''client_to_upstream''
                       (body_count outReq (fe_reads env t outReq))) s2
                else s2)
      in forward_finish lib h env r host port (fe_answer env t outReq) s3)"

definition handleHTTPForward ::
  "go_lib \<Rightarrow> handler \<Rightarrow> watcher \<Rightarrow> fwd_env \<Rightarrow> request \<Rightarrow> pstate \<Rightarrow> pstate \<times> run_end" where
  "handleHTTPForward lib h w env r s =
     (if \<not> IsAbs (URL r) \<or> UHost (URL r) = [] then
        (metric (RequestsTotal ''HTTP'' ''bad_request'')
          (reply_error ''proxy request requires absolute URI'' StatusBadRequest s), Returned)
      else
        let (targetHost, targetPort) =
              splitHostPort (UHost (URL r)) (defaultPortForScheme (Scheme (URL r)))
        in if \<not> fst (AllowHost (unicode_lower lib) w targetHost targetPort) then
             (denyForward lib h (fe_log env) r targetHost targetPort deny_reason s, Returned)
           else
             case buildUpstreamRequest (unicode_lower lib) h r of
               Inl err \<Rightarrow>
                 (metric (RequestsTotal ''HTTP'' ''upstream_error'')
                   (reply_error ''bad request'' StatusBadGateway
                     (diag LevelError ''building upstream request failed'' s)), Returned)
             | Inr (outReq, counted) \<Rightarrow>
                 forward_built lib h env r targetHost targetPort outReq counted s)"

section \<open>What the helpers change\<close>

text \<open>
  Each helper writes one component of the state; these equations carry the proofs about the
  whole handlers.
\<close>

lemma metric_frame [effect_simps]:
  "p_rw (metric m s) = p_rw s" "p_metrics (metric m s) = p_metrics s @ [m]"
  "p_audit (metric m s) = p_audit s" "p_diag (metric m s) = p_diag s"
  "p_sent (metric m s) = p_sent s" "p_cell (metric m s) = p_cell s" "p_bodies (metric m s) = p_bodies s"
  by (simp_all add: metric_def)

lemma audit_frame [effect_simps]:
  "p_rw (audit_log e s) = p_rw s" "p_metrics (audit_log e s) = p_metrics s"
  "p_audit (audit_log e s) = p_audit s @ [egress_line e]" "p_diag (audit_log e s) = p_diag s"
  "p_sent (audit_log e s) = p_sent s" "p_cell (audit_log e s) = p_cell s" "p_bodies (audit_log e s) = p_bodies s"
  by (simp_all add: audit_log_def Log_def)

lemma diag_frame [effect_simps]:
  "p_rw (diag l t s) = p_rw s" "p_metrics (diag l t s) = p_metrics s"
  "p_audit (diag l t s) = p_audit s" "p_diag (diag l t s) = p_diag s @ [(l, t)]"
  "p_sent (diag l t s) = p_sent s" "p_cell (diag l t s) = p_cell s" "p_bodies (diag l t s) = p_bodies s"
  by (simp_all add: diag_def)

lemma reply_frame [effect_simps]:
  "p_rw (reply_error t c s) = http_Error t c (p_rw s)" "p_metrics (reply_error t c s) = p_metrics s"
  "p_audit (reply_error t c s) = p_audit s" "p_diag (reply_error t c s) = p_diag s"
  "p_sent (reply_error t c s) = p_sent s" "p_cell (reply_error t c s) = p_cell s" "p_bodies (reply_error t c s) = p_bodies s"
  by (simp_all add: reply_error_def)

lemma body_frame [effect_simps]:
  "p_rw (open_body s) = p_rw s" "p_metrics (open_body s) = p_metrics s"
  "p_audit (open_body s) = p_audit s" "p_diag (open_body s) = p_diag s"
  "p_sent (open_body s) = p_sent s" "p_cell (open_body s) = p_cell s"
  "p_bodies (open_body s) = p_bodies s + 1"
  "p_rw (close_body s) = p_rw s" "p_metrics (close_body s) = p_metrics s"
  "p_audit (close_body s) = p_audit s" "p_diag (close_body s) = p_diag s"
  "p_sent (close_body s) = p_sent s" "p_cell (close_body s) = p_cell s"
  "p_bodies (close_body s) = p_bodies s - 1"
  by (simp_all add: open_body_def close_body_def)

lemma copy_values_frame [effect_simps]:
  "p_metrics (copy_values k vs s) = p_metrics s" "p_audit (copy_values k vs s) = p_audit s"
  "p_diag (copy_values k vs s) = p_diag s" "p_sent (copy_values k vs s) = p_sent s"
  "p_cell (copy_values k vs s) = p_cell s" "p_bodies (copy_values k vs s) = p_bodies s"
  "rw_sent (p_rw (copy_values k vs s)) = rw_sent (p_rw s)"
  "rw_body (p_rw (copy_values k vs s)) = rw_body (p_rw s)"
  "rw_limit (p_rw (copy_values k vs s)) = rw_limit (p_rw s)"
  by (induction vs arbitrary: s) (simp_all add: add_header_def)

lemma copy_headers_frame [effect_simps]:
  "p_metrics (copy_headers ul hs s) = p_metrics s" "p_audit (copy_headers ul hs s) = p_audit s"
  "p_diag (copy_headers ul hs s) = p_diag s" "p_sent (copy_headers ul hs s) = p_sent s"
  "p_cell (copy_headers ul hs s) = p_cell s" "p_bodies (copy_headers ul hs s) = p_bodies s"
  "rw_sent (p_rw (copy_headers ul hs s)) = rw_sent (p_rw s)"
  "rw_body (p_rw (copy_headers ul hs s)) = rw_body (p_rw s)"
  "rw_limit (p_rw (copy_headers ul hs s)) = rw_limit (p_rw s)"
  by (induction ul hs s rule: copy_headers.induct) (simp_all add: effect_simps)

lemma copy_body_frame [effect_simps]:
  "p_metrics (snd (copy_body b s)) = p_metrics s" "p_audit (snd (copy_body b s)) = p_audit s"
  "p_diag (snd (copy_body b s)) = p_diag s" "p_sent (snd (copy_body b s)) = p_sent s"
  "p_cell (snd (copy_body b s)) = p_cell s" "p_bodies (snd (copy_body b s)) = p_bodies s"
  by (simp_all add: copy_body_def case_prod_unfold Let_def)

section \<open>The header copied to the client\<close>

lemma copy_values_header:
  "hdr_values (rw_header (p_rw (copy_values k vs s))) x =
     hdr_values (rw_header (p_rw s)) x @ (if CanonicalKey x = CanonicalKey k then vs else [])"
  by (induction vs arbitrary: s) (auto simp: add_header_def values_Add, simp add: hdr_values_def)

lemma copy_headers_values:
  assumes "map_ok hs" "\<And>k. k \<in> fst ` set hs \<Longrightarrow> CanonicalKey k = k"
  shows "hdr_values (rw_header (p_rw (copy_headers ul hs s))) x =
    hdr_values (rw_header (p_rw s)) x @
    (if isHopByHop ul (CanonicalKey x) then [] else hdr_values hs x)"
  using assms
proof (induction ul hs s rule: copy_headers.induct)
  case (1 ul s)
  then show ?case by (simp add: hdr_values_def)
next
  case (2 ul k vv hs s)
  have hs: "map_ok hs" "k \<notin> fst ` set hs" "\<And>j. j \<in> fst ` set hs \<Longrightarrow> CanonicalKey j = j"
    "CanonicalKey k = k"
    using 2(3,4) by (auto simp: map_ok_def)
  have nk: "map_of hs k = None" using hs(2) by (simp add: map_of_eq_None_iff)
  show ?case
  proof (cases "isHopByHop ul k")
    case True
    then show ?thesis using 2(1) [OF True hs(1) hs(3)] nk by (auto simp: hdr_values_def)
  next
    case False
    then show ?thesis using 2(2) [OF False hs(1) hs(3)] nk hs(4)
      by (auto simp: copy_values_header) (auto simp: hdr_values_def)
  qed
qed

section \<open>The handler, branch by branch\<close>

definition forward_target :: "request \<Rightarrow> string \<times> port" where
  "forward_target r = splitHostPort (UHost (URL r)) (defaultPortForScheme (Scheme (URL r)))"

definition proxy_form :: "request \<Rightarrow> bool" where
  "proxy_form r \<longleftrightarrow> IsAbs (URL r) \<and> UHost (URL r) \<noteq> []"

definition forward_allowed :: "go_lib \<Rightarrow> watcher \<Rightarrow> request \<Rightarrow> bool" where
  "forward_allowed lib w r \<longleftrightarrow> proxy_form r \<and>
     fst (AllowHost (unicode_lower lib) w (fst (forward_target r)) (snd (forward_target r)))"

definition built :: "go_lib \<Rightarrow> handler \<Rightarrow> request \<Rightarrow> request" where
  "built lib h r = r\<lparr>RequestURI := [], Header := upstream_header (unicode_lower lib) h (Header r),
     Body := (case Body r of Stream s \<Rightarrow> Counting s | b \<Rightarrow> b)\<rparr>"

definition counted :: "request \<Rightarrow> bool" where
  "counted r = (case Body r of Stream s \<Rightarrow> True | Counting s \<Rightarrow> True | _ \<Rightarrow> False)"

lemma forward_bad:
  "\<not> proxy_form r \<Longrightarrow> handleHTTPForward lib h w env r s =
     (metric (RequestsTotal ''HTTP'' ''bad_request'')
       (reply_error ''proxy request requires absolute URI'' StatusBadRequest s), Returned)"
  by (auto simp: handleHTTPForward_def proxy_form_def)

lemma forward_deny:
  "proxy_form r \<Longrightarrow> \<not> forward_allowed lib w r \<Longrightarrow> handleHTTPForward lib h w env r s =
     (denyForward lib h (fe_log env) r (fst (forward_target r)) (snd (forward_target r))
       deny_reason s, Returned)"
  by (auto simp: handleHTTPForward_def proxy_form_def forward_allowed_def forward_target_def
      case_prod_unfold Let_def)

lemma forward_allow:
  "forward_allowed lib w r \<Longrightarrow> handleHTTPForward lib h w env r s =
     forward_built lib h env r (fst (forward_target r)) (snd (forward_target r))
       (built lib h r) (counted r) s"
  by (auto simp: handleHTTPForward_def proxy_form_def forward_allowed_def forward_target_def
      case_prod_unfold Let_def buildUpstreamRequest_eq built_def counted_def)

lemma relay_frame [effect_simps]:
  "p_sent (fst (relay_response lib h env r host port resp s)) = p_sent s"
  "p_cell (fst (relay_response lib h env r host port resp s)) = p_cell s"
  "p_bodies (fst (relay_response lib h env r host port resp s)) = p_bodies s"
  by (simp_all add: relay_response_def Let_def case_prod_unfold effect_simps split: option.splits)

lemma forward_built_sent:
  "p_sent (fst (forward_built lib h env r host port outReq cnt s)) = p_sent s @ [outReq]"
  by (simp add: forward_built_def forward_finish_def Let_def case_prod_unfold effect_simps split: round_trip.splits)

lemma forward_built_cell:
  "p_cell (fst (forward_built lib h env r host port outReq cnt s)) =
     snd (upstreamTransport h (p_cell s))"
  by (simp add: forward_built_def forward_finish_def Let_def case_prod_unfold effect_simps split: round_trip.splits)

lemma deny_frame [effect_simps]:
  "p_sent (denyForward lib h now r host port reason s) = p_sent s"
  "p_cell (denyForward lib h now r host port reason s) = p_cell s"
  "p_bodies (denyForward lib h now r host port reason s) = p_bodies s"
  by (simp_all add: denyForward_def effect_simps)

text \<open>Every response body is closed.\<close>

lemma forward_bodies:
  "p_bodies (fst (handleHTTPForward lib h w env r s)) = p_bodies s"
proof (cases "forward_allowed lib w r")
  case True
  then show ?thesis
    by (simp add: forward_allow forward_built_def forward_finish_def Let_def case_prod_unfold effect_simps
        split: round_trip.splits)
next
  case False
  then show ?thesis
    by (cases "proxy_form r") (simp_all add: forward_deny forward_bad effect_simps)
qed

text \<open>Exactly the allowed requests are passed on, once each, in the built form.\<close>

lemma forward_sent:
  "p_sent (fst (handleHTTPForward lib h w env r s)) =
     p_sent s @ (if forward_allowed lib w r then [built lib h r] else [])"
proof (cases "forward_allowed lib w r")
  case True
  then show ?thesis by (simp add: forward_allow forward_built_sent)
next
  case False
  then show ?thesis
    by (cases "proxy_form r") (simp_all add: forward_deny forward_bad effect_simps)
qed

section \<open>Metrics\<close>

definition active_delta :: "metric_call \<Rightarrow> int" where
  "active_delta m = (case m of ActiveInc \<Rightarrow> 1 | ActiveDec \<Rightarrow> -1 | _ \<Rightarrow> 0)"

text \<open>The value of the gauge after a list of calls.\<close>

definition active_connections :: "metric_call list \<Rightarrow> int" where
  "active_connections ms = sum_list (map active_delta ms)"

lemma active_connections_simps [simp]:
  "active_connections [] = 0"
  "active_connections (m # ms) = active_delta m + active_connections ms"
  "active_connections (xs @ ys) = active_connections xs + active_connections ys"
  by (simp_all add: active_connections_def)

lemma active_delta_simps [simp]:
  "active_delta (RequestsTotal a b) = 0" "active_delta DialErrors = 0"
  "active_delta (BytesTransferred d n) = 0" "active_delta ActiveInc = 1"
  "active_delta ActiveDec = -1"
  by (simp_all add: active_delta_def)

lemma relay_active:
  "active_connections (p_metrics (fst (relay_response lib h env r host port resp s))) =
     active_connections (p_metrics s)"
  by (simp add: relay_response_def Let_def case_prod_unfold effect_simps split: option.splits)

lemma forward_active:
  "active_connections (p_metrics (fst (handleHTTPForward lib h w env r s))) =
     active_connections (p_metrics s)"
proof (cases "forward_allowed lib w r")
  case True
  then show ?thesis
    by (simp add: forward_allow forward_built_def forward_finish_def Let_def case_prod_unfold effect_simps relay_active
        split: round_trip.splits)
next
  case False
  then show ?thesis
    by (cases "proxy_form r") (simp_all add: forward_deny forward_bad denyForward_def effect_simps)
qed

section \<open>Properties\<close>

text \<open>
  What the client gets for a response: an informational status other than 101 is not a final
  answer, so \<open>Write\<close> or the server makes it 200; and a status that allows no body drops it.
\<close>

definition informational :: "nat \<Rightarrow> bool" where
  "informational code \<longleftrightarrow> 100 \<le> code \<and> code \<le> 199 \<and> code \<noteq> 101"

definition final_status :: "response \<Rightarrow> nat" where
  "final_status resp = (if informational (StatusCode resp) then StatusOK else StatusCode resp)"

definition relayed_body :: "response \<Rightarrow> string" where
  "relayed_body resp = (if body_allowed (StatusCode resp) then RespBody resp else [])"

text \<open>The status a call answers with and the decision it is counted under.\<close>

definition forward_outcome :: "go_lib \<Rightarrow> handler \<Rightarrow> watcher \<Rightarrow> fwd_env \<Rightarrow> request \<Rightarrow> nat \<times> string" where
  "forward_outcome lib h w env r =
     (if \<not> proxy_form r then (StatusBadRequest, ''bad_request'')
      else if \<not> forward_allowed lib w r then (StatusForbidden, ''deny'')
      else case fe_answer env (Some (buildTransport h)) (built lib h r) of
             RTError \<Rightarrow> (StatusBadGateway, ''upstream_error'')
           | RTResponse resp \<Rightarrow> (final_status resp, ''allow''))"

text \<open>The calls that \<open>WriteHeader\<close> ends by a panic.\<close>

definition forward_panics :: "go_lib \<Rightarrow> handler \<Rightarrow> watcher \<Rightarrow> fwd_env \<Rightarrow> request \<Rightarrow> bool" where
  "forward_panics lib h w env r \<longleftrightarrow>
     forward_allowed lib w r \<and>
     (case fe_answer env (Some (buildTransport h)) (built lib h r) of
        RTError \<Rightarrow> False
      | RTResponse resp \<Rightarrow> StatusCode resp < 100 \<or> 999 < StatusCode resp)"

definition is_total :: "metric_call \<Rightarrow> bool" where
  "is_total m = (case m of RequestsTotal a b \<Rightarrow> True | _ \<Rightarrow> False)"

lemma is_total_simps [simp]:
  "is_total (RequestsTotal a b)" "\<not> is_total ActiveInc" "\<not> is_total ActiveDec"
  "\<not> is_total DialErrors" "\<not> is_total (BytesTransferred d n)"
  by (simp_all add: is_total_def)

lemma WriteHeader_final:
  "rw_sent w = None \<Longrightarrow> 200 \<le> code \<Longrightarrow> code \<le> 999 \<Longrightarrow>
   WriteHeader code w = Some (w\<lparr>rw_sent := Some (code, rw_header w)\<rparr>)"
  by (simp add: WriteHeader_def)

lemma copy_body_sent:
  "rw_sent (p_rw s) \<noteq> None \<Longrightarrow> rw_sent (p_rw (snd (copy_body b s))) = rw_sent (p_rw s)"
  by (auto simp: copy_body_def rw_Write_def Let_def)

lemma copy_body_all:
  "rw_sent (p_rw s) = Some (code, hm) \<Longrightarrow> rw_limit (p_rw s) = None \<Longrightarrow>
   fst (copy_body b s) = length (if body_allowed code then b else []) \<and>
   rw_body (p_rw (snd (copy_body b s))) = rw_body (p_rw s) @ (if body_allowed code then b else [])"
  by (auto simp: copy_body_def rw_Write_def Let_def)

lemma copy_body_status:
  "finish_status (p_rw (snd (copy_body b s))) = finish_status (p_rw s)"
  by (auto simp: copy_body_def rw_Write_def Let_def finish_status_def sent_status_def StatusOK_def)

text \<open>Relaying a response: what was sent, and the counters; or the panic.\<close>

lemma relay_status:
  assumes "rw_sent (p_rw s) = None" "100 \<le> StatusCode resp" "StatusCode resp \<le> 999"
  shows "snd (relay_response lib h env r host port resp s) = Returned \<and>
    finish_status (p_rw (fst (relay_response lib h env r host port resp s))) = final_status resp \<and>
    filter is_total (p_metrics (fst (relay_response lib h env r host port resp s))) =
      filter is_total (p_metrics s) @ [RequestsTotal ''HTTP'' ''allow'']"
proof -
  let ?s1 = "copy_headers (unicode_lower lib) (RespHeader resp) s"
  have n: "rw_sent (p_rw ?s1) = None" by (simp add: effect_simps assms(1))
  have "\<exists>w. WriteHeader (StatusCode resp) (p_rw ?s1) = Some w \<and> finish_status w = final_status resp"
    using n assms(2,3)
    by (simp add: WriteHeader_def finish_status_def sent_status_def final_status_def informational_def)
  then obtain w where w: "WriteHeader (StatusCode resp) (p_rw ?s1) = Some w"
    "finish_status w = final_status resp" by blast
  show ?thesis
    by (simp add: relay_response_def w Let_def case_prod_unfold effect_simps copy_body_status)
qed

lemma relay_panic:
  assumes "rw_sent (p_rw s) = None" "StatusCode resp < 100 \<or> 999 < StatusCode resp"
  shows "snd (relay_response lib h env r host port resp s) = Panicked \<and>
    rw_sent (p_rw (fst (relay_response lib h env r host port resp s))) = None \<and>
    p_metrics (fst (relay_response lib h env r host port resp s)) = p_metrics s \<and>
    p_audit (fst (relay_response lib h env r host port resp s)) = p_audit s"
  using assms
  by (auto simp: relay_response_def WriteHeader_def Let_def effect_simps)

lemma forward_allow_answer:
  assumes "forward_allowed lib w r" "cell_ok h (p_cell s)"
  obtains S where "p_rw S = p_rw s" "filter is_total (p_metrics S) = filter is_total (p_metrics s)"
    "p_audit S = p_audit s"
    "handleHTTPForward lib h w env r s =
      forward_finish lib h env r (fst (forward_target r)) (snd (forward_target r))
        (fe_answer env (Some (buildTransport h)) (built lib h r)) S"
proof -
  obtain t c where u: "upstreamTransport h (p_cell s) = (t, c)" by fastforce
  have t: "t = Some (buildTransport h)" using upstreamTransport_ok [OF assms(2) u] by simp
  let ?s2 = "(metric ActiveInc s)\<lparr>p_cell := c, p_sent := p_sent s @ [built lib h r]\<rparr>"
  let ?S = "if counted r then metric (BytesTransferred ''client_to_upstream''
      (body_count (built lib h r) (fe_reads env t (built lib h r)))) ?s2 else ?s2"
  have "handleHTTPForward lib h w env r s =
      forward_finish lib h env r (fst (forward_target r)) (snd (forward_target r))
        (fe_answer env t (built lib h r)) ?S"
    by (simp add: forward_allow [OF assms(1)] forward_built_def u effect_simps Let_def)
  then show ?thesis unfolding t by (intro that [of ?S]) (simp_all add: t effect_simps)
qed

text \<open>An allowed request: it is answered and counted, or ends in the panic.\<close>

lemma forward_allowed_ends:
  assumes "forward_allowed lib w r" "cell_ok h (p_cell s)" "rw_sent (p_rw s) = None"
    and q: "handleHTTPForward lib h w env r s = (s', e)"
  shows "if forward_panics lib h w env r then
      e = Panicked \<and> rw_sent (p_rw s') = None \<and> p_audit s' = p_audit s \<and>
      filter is_total (p_metrics s') = filter is_total (p_metrics s)
    else e = Returned \<and> finish_status (p_rw s') = fst (forward_outcome lib h w env r) \<and>
      filter is_total (p_metrics s') =
        filter is_total (p_metrics s) @ [RequestsTotal ''HTTP'' (snd (forward_outcome lib h w env r))]"
proof -
  obtain S where S: "p_rw S = p_rw s" "filter is_total (p_metrics S) = filter is_total (p_metrics s)"
    "p_audit S = p_audit s" "(s', e) =
      forward_finish lib h env r (fst (forward_target r)) (snd (forward_target r))
        (fe_answer env (Some (buildTransport h)) (built lib h r)) S"
    using forward_allow_answer [OF assms(1,2), of env] unfolding q by metis
  have al: "forward_allowed lib w r" "proxy_form r" using assms(1) by (simp_all add: forward_allowed_def)
  have n: "rw_sent (p_rw (open_body S)) = None" using S(1) assms(3) by (simp add: effect_simps)
  show ?thesis
  proof (cases "fe_answer env (Some (buildTransport h)) (built lib h r)")
    case RTError
    then show ?thesis using S al assms(3)
      by (simp add: forward_outcome_def forward_panics_def forward_finish_def effect_simps
          http_Error_status finish_status_sent status_defs)
  next
    case (RTResponse resp)
    then show ?thesis
      using S(2-4) al relay_panic [OF n, of resp lib h env r "fst (forward_target r)" "snd (forward_target r)"]
        relay_status [OF n, of resp lib h env r "fst (forward_target r)" "snd (forward_target r)"]
      by (auto simp: forward_finish_def forward_outcome_def forward_panics_def Let_def case_prod_unfold
          effect_simps)
  qed
qed

text \<open>
  C8. Every plain-HTTP request ends in one of two ways. It panics exactly if it is allowed and
  the upstream's response has a status code below 100 or above 999; then no answer is sent, no
  decision is counted and no audit line written. Otherwise it returns, the client gets exactly
  one answer, and exactly one decision is counted, by the same case distinction: 400 for a URI
  that is not absolute, 403 for a target that is not allowed, 502 when the round trip fails, else
  the status of the upstream's response (200 in place of an informational one). Either way the
  gauge of active connections and the number of open response bodies are what they were.
\<close>

theorem forward_answered_and_counted_once:
  assumes "rw_sent (p_rw s) = None" "cell_ok h (p_cell s)"
  shows "(forward_panics lib h w env r \<longrightarrow>
       snd (handleHTTPForward lib h w env r s) = Panicked \<and>
       rw_sent (p_rw (fst (handleHTTPForward lib h w env r s))) = None \<and>
       filter is_total (p_metrics (fst (handleHTTPForward lib h w env r s))) = filter is_total (p_metrics s) \<and>
       p_audit (fst (handleHTTPForward lib h w env r s)) = p_audit s) \<and>
    (\<not> forward_panics lib h w env r \<longrightarrow>
       snd (handleHTTPForward lib h w env r s) = Returned \<and>
       finish_status (p_rw (fst (handleHTTPForward lib h w env r s))) = fst (forward_outcome lib h w env r) \<and>
       filter is_total (p_metrics (fst (handleHTTPForward lib h w env r s))) =
         filter is_total (p_metrics s) @ [RequestsTotal ''HTTP'' (snd (forward_outcome lib h w env r))]) \<and>
    active_connections (p_metrics (fst (handleHTTPForward lib h w env r s))) =
      active_connections (p_metrics s) \<and>
    p_bodies (fst (handleHTTPForward lib h w env r s)) = p_bodies s"
proof (cases "forward_allowed lib w r")
  case False
  then show ?thesis using assms(1) forward_active [of lib h w env r s] forward_bodies [of lib h w env r s]
    by (cases "proxy_form r")
       (simp_all add: forward_outcome_def forward_panics_def forward_bad forward_deny denyForward_def
         effect_simps http_Error_status finish_status_sent status_defs)
next
  case True
  obtain s' e where q: "handleHTTPForward lib h w env r s = (s', e)" by fastforce
  show ?thesis
    using forward_allowed_ends [OF True assms(2,1) q] forward_active [of lib h w env r s]
      forward_bodies [of lib h w env r s]
    by (simp add: q split: if_splits)
qed

definition ex_env :: "round_trip \<Rightarrow> fwd_env" where
  "ex_env a = \<lparr>fe_start = 0, fe_log = 5000000, fe_reads = (\<lambda>t q. [512]), fe_answer = (\<lambda>t q. a)\<rparr>"

definition ex_go :: go_lib where
  "ex_go = \<lparr>unicode_lower = (\<lambda>s. s), url_Parse = (\<lambda>s. None)\<rparr>"

definition ex_response :: response where
  "ex_response = \<lparr>StatusCode = 404, Status = ''404 Not Found'',
     RespHeader = [(''Content-Type'', [''text/plain'']), (''Connection'', [''close''])],
     RespBody = ''nope''\<rparr>"

definition ex_writer :: response_writer where
  "ex_writer = \<lparr>rw_header = [], rw_sent = None, rw_body = [], rw_limit = None\<rparr>"

definition ex_state :: pstate where
  "ex_state = \<lparr>p_rw = ex_writer, p_metrics = [], p_audit = [], p_diag = [], p_sent = [],
     p_cell = new_cell, p_bodies = 0\<rparr>"

definition ex_watcher :: watcher where
  "ex_watcher = rebuild (\<lambda>s. s) (Some [ex_se [''api.example.com''] [80, 443]]) NewWatcher"

lemma ex_target: "forward_target ex_request = (''api.example.com'', 80)"
  by (simp add: forward_target_def ex_request_def defaultPortForScheme_def splitHostPort_no_colon colon_def)

lemma ex_allowed: "forward_allowed ex_go ex_watcher ex_request"
proof -
  have "proxy_form ex_request" by (simp add: proxy_form_def ex_request_def IsAbs_def)
  moreover have "fst (AllowHost (\<lambda>s. s) ex_watcher ''api.example.com'' 80)"
    by (simp add: ex_watcher_def example_eval rule_ports_def se_entry_def)
  ultimately show ?thesis by (simp add: forward_allowed_def ex_target ex_go_def)
qed

definition ex_bad_response :: response where
  "ex_bad_response = ex_response\<lparr>StatusCode := 42\<rparr>"

theorem forward_answered_and_counted_once_witness:
  "finish_status (p_rw (fst (handleHTTPForward ex_go ex_handler ex_watcher (ex_env (RTResponse ex_response))
      ex_request ex_state))) = 404 \<and>
   finish_status (p_rw (fst (handleHTTPForward ex_go ex_handler NewWatcher (ex_env (RTResponse ex_response))
      ex_request ex_state))) = 403 \<and>
   snd (handleHTTPForward ex_go ex_handler ex_watcher (ex_env (RTResponse ex_bad_response))
      ex_request ex_state) = Panicked"
proof -
  have p: "rw_sent (p_rw ex_state) = None" "cell_ok ex_handler (p_cell ex_state)"
    by (simp_all add: ex_state_def ex_writer_def cell_ok_new)
  have pf: "proxy_form ex_request" using ex_allowed by (simp add: forward_allowed_def)
  have d: "\<not> forward_allowed ex_go NewWatcher ex_request"
    by (simp add: forward_allowed_def AllowHost_new)
  have o: "forward_outcome ex_go ex_handler ex_watcher (ex_env (RTResponse ex_response)) ex_request =
      (404, ''allow'')"
    "forward_outcome ex_go ex_handler NewWatcher (ex_env (RTResponse ex_response)) ex_request =
      (403, ''deny'')"
    using ex_allowed d pf
    by (simp_all add: forward_outcome_def ex_env_def ex_response_def final_status_def informational_def
        status_defs)
  have k: "\<not> forward_panics ex_go ex_handler ex_watcher (ex_env (RTResponse ex_response)) ex_request"
    "\<not> forward_panics ex_go ex_handler NewWatcher (ex_env (RTResponse ex_response)) ex_request"
    "forward_panics ex_go ex_handler ex_watcher (ex_env (RTResponse ex_bad_response)) ex_request"
    using ex_allowed d by (simp_all add: forward_panics_def ex_env_def ex_response_def ex_bad_response_def)
  show ?thesis
    using forward_answered_and_counted_once [OF p, where lib = ex_go and r = ex_request] k
    by (simp add: o)
qed

text \<open>
  C11. Relaying: the client gets the upstream's status, all header fields but the hop-by-hop
  ones, each with all its values in order, and the whole body (none where the status allows no
  body: 204, 304); the audit log gets one line, an allow with that status and the length of the body.
\<close>

theorem response_relayed_faithfully:
  assumes allowed: "forward_allowed lib w r" "cell_ok h (p_cell s)"
    and writer: "fresh_writer (p_rw s)" "rw_limit (p_rw s) = None"
    and answer: "fe_answer env (Some (buildTransport h)) (built lib h r) = RTResponse resp"
      "200 \<le> StatusCode resp" "StatusCode resp \<le> 999"
    and hdr: "map_ok (RespHeader resp)" "\<forall>k \<in> fst ` set (RespHeader resp). CanonicalKey k = k"
  shows "\<exists>hd. rw_sent (p_rw (fst (handleHTTPForward lib h w env r s))) = Some (StatusCode resp, hd) \<and>
    (\<forall>x. hdr_values hd x =
       (if isHopByHop (unicode_lower lib) (CanonicalKey x) then [] else hdr_values (RespHeader resp) x)) \<and>
    rw_body (p_rw (fst (handleHTTPForward lib h w env r s))) = relayed_body resp \<and>
    p_audit (fst (handleHTTPForward lib h w env r s)) = p_audit s @
      [egress_line (zero_event\<lparr>Timestamp := fe_start env, ClientAddr := RemoteAddr r,
         SPIFFE := spiffeFromRequest (url_Parse lib) (TrustXFCCHeader h) r,
         EMethod := ''HTTP-FORWARD'', TargetHost := fst (forward_target r),
         TargetPort := snd (forward_target r), EUpstreamProxy := UpstreamProxy h,
         Decision := ''allow'', EStatus := StatusCode resp, BytesIn := int (length (relayed_body resp)),
         DurationMS := Milliseconds (fe_log env - fe_start env)\<rparr>)]"
proof -
  obtain S where S: "p_rw S = p_rw s" "p_audit S = p_audit s"
    "handleHTTPForward lib h w env r s =
      forward_finish lib h env r (fst (forward_target r)) (snd (forward_target r)) (RTResponse resp) S"
    using forward_allow_answer [OF allowed, of env] unfolding answer(1) by metis
  let ?s1 = "copy_headers (unicode_lower lib) (RespHeader resp) (open_body S)"
  let ?w = "(p_rw ?s1)\<lparr>rw_sent := Some (StatusCode resp, rw_header (p_rw ?s1))\<rparr>"
  let ?s2 = "?s1\<lparr>p_rw := ?w\<rparr>"
  have f: "rw_header (p_rw S) = []" "rw_sent (p_rw S) = None" "rw_body (p_rw S) = []"
    "rw_limit (p_rw S) = None"
    using writer by (simp_all add: S(1) fresh_writer_def)
  have w: "WriteHeader (StatusCode resp) (p_rw ?s1) = Some ?w"
    by (rule WriteHeader_final) (simp_all add: effect_simps f answer)
  have n: "fst (copy_body (RespBody resp) ?s2) = length (relayed_body resp)"
    "rw_body (p_rw (snd (copy_body (RespBody resp) ?s2))) = relayed_body resp"
    using copy_body_all [of ?s2 "StatusCode resp" "rw_header (p_rw ?s1)" "RespBody resp"]
    by (simp_all add: effect_simps f relayed_body_def)
  have sent: "rw_sent (p_rw (snd (copy_body (RespBody resp) ?s2))) =
      Some (StatusCode resp, rw_header (p_rw ?s1))"
    by (simp add: copy_body_sent)
  have hd: "hdr_values (rw_header (p_rw ?s1)) x =
      (if isHopByHop (unicode_lower lib) (CanonicalKey x) then [] else hdr_values (RespHeader resp) x)" for x
    using copy_headers_values [OF hdr(1), of "unicode_lower lib" "open_body S" x] hdr(2) f(1)
    by (simp add: hdr_values_def effect_simps)
  show ?thesis
    by (rule exI [of _ "rw_header (p_rw ?s1)"])
      (simp add: S(2,3) forward_finish_def relay_response_def w Let_def case_prod_unfold
        effect_simps n sent hd)
qed

theorem response_relayed_faithfully_witness:
  "rw_body (p_rw (fst (handleHTTPForward ex_go ex_handler ex_watcher (ex_env (RTResponse ex_response))
      ex_request ex_state))) = ''nope''"
proof -
  have "fresh_writer (p_rw ex_state)" "rw_limit (p_rw ex_state) = None" "cell_ok ex_handler (p_cell ex_state)"
    by (simp_all add: ex_state_def ex_writer_def fresh_writer_def cell_ok_new)
  moreover have "fe_answer (ex_env (RTResponse ex_response)) (Some (buildTransport ex_handler))
      (built ex_go ex_handler ex_request) = RTResponse ex_response" by (simp add: ex_env_def)
  moreover have "200 \<le> StatusCode ex_response" "StatusCode ex_response \<le> 999"
    by (simp_all add: ex_response_def)
  moreover have "map_ok (RespHeader ex_response)" "\<forall>k \<in> fst ` set (RespHeader ex_response). CanonicalKey k = k"
    by code_simp+
  ultimately have "rw_body (p_rw (fst (handleHTTPForward ex_go ex_handler ex_watcher
      (ex_env (RTResponse ex_response)) ex_request ex_state))) = relayed_body ex_response"
    using response_relayed_faithfully [OF ex_allowed] by blast
  then show ?thesis by (simp add: ex_response_def relayed_body_def body_allowed_def)
qed

text \<open>
  C35. A decimal port that does not fit 32 bits is checked as the scheme's default port while
  the URL that is sent upstream keeps it: the decision and the request disagree about the target.
\<close>

theorem oversized_port_checked_as_default:
  assumes "plain_host x" "x \<noteq> []" "2 ^ 32 \<le> n" "Scheme (URL r) = ''http''"
    "UHost (URL r) = x @ colon # nat_dec n" "fst (AllowHost (unicode_lower lib) w x 80)"
  shows "\<exists>q. p_sent (fst (handleHTTPForward lib h w env r s)) = p_sent s @ [q] \<and>
    UHost (URL q) = x @ colon # nat_dec n"
proof -
  have "forward_target r = (x, 80)"
    using splitHostPort_big [OF assms(1,3)] assms(4,5)
    by (simp add: forward_target_def defaultPortForScheme_def)
  then have "forward_allowed lib w r"
    using assms by (simp add: forward_allowed_def proxy_form_def IsAbs_def)
  then show ?thesis using assms(5) by (simp add: forward_sent built_def)
qed

definition ex_big_request :: request where
  "ex_big_request = ex_request\<lparr>URL := \<lparr>Scheme = ''http'',
     UHost = ''api.example.com'' @ colon # nat_dec 4294967739,
     UText = ''http://api.example.com:4294967739/''\<rparr>\<rparr>"

theorem oversized_port_checked_as_default_witness:
  "\<exists>q. p_sent (fst (handleHTTPForward ex_go ex_handler ex_watcher (ex_env RTError) ex_big_request ex_state)) =
      p_sent ex_state @ [q] \<and> UHost (URL q) = ''api.example.com'' @ colon # nat_dec 4294967739"
proof (rule oversized_port_checked_as_default)
  show "fst (AllowHost (unicode_lower ex_go) ex_watcher ''api.example.com'' 80)"
    using ex_allowed by (simp add: forward_allowed_def ex_target)
qed (simp_all add: ex_big_request_def plain_host_def colon_def lbrack_def rbrack_def)

end
