(* ===== verification/Conn.thy ===== *)
theory Conn
  imports Go_Net Upstream_Request
begin

text \<open>
  Connections (internal/proxy/handler.go): \<open>wrapIdleTimeout\<close> and
  \<open>idleTimeoutConn\<close>, \<open>dialUpstream\<close>, \<open>dialForTransport\<close>.

  A connection is its read side and its write side. The network is a script: the read side
  lists what the coming reads return (a chunk, perhaps with an error; at the end EOF), the
  write side how many bytes the coming writes accept (None: all of them). Setting a deadline
  can fail; the outcomes (True for an error) are scripted per side. An
  \<open>idleTimeoutConn\<close> is a layer around the connection: \<open>layers\<close> lists the timeouts
  of the layers, outermost first.
\<close>

section \<open>Connections\<close>

datatype io_err = EOF | ConnErr

record read_side =
  r_script :: "(string \<times> io_err option) list"
  r_dl :: "bool list"

record write_side =
  w_script :: "nat option list"
  w_dl :: "bool list"
  w_out :: string
  w_shut :: bool

text \<open>\<open>half\<close>: the raw connection type has a CloseWrite method (TCP and TLS do).\<close>

record net_conn =
  layers :: "int list"
  rside :: read_side
  wside :: write_side
  half :: bool
  closed :: bool

definition raw_read :: "read_side \<Rightarrow> string \<times> io_err option \<times> read_side" where
  "raw_read r =
     (case r_script r of
        [] \<Rightarrow> ([], Some EOF, r)
      | (p, e) # rs \<Rightarrow> (p, e, r\<lparr>r_script := rs\<rparr>))"

definition raw_write :: "string \<Rightarrow> write_side \<Rightarrow> nat \<times> io_err option \<times> write_side" where
  "raw_write s w =
     (case w_script w of
        [] \<Rightarrow> (length s, None, w\<lparr>w_out := w_out w @ s\<rparr>)
      | None # ws \<Rightarrow> (length s, None, w\<lparr>w_out := w_out w @ s, w_script := ws\<rparr>)
      | Some k # ws \<Rightarrow>
          (min k (length s), Some ConnErr, w\<lparr>w_out := w_out w @ take k s, w_script := ws\<rparr>))"

text \<open>One layer: set the deadline, give up when that fails, else go on inside.\<close>

definition pop_dl :: "bool list \<Rightarrow> bool \<times> bool list" where
  "pop_dl ds = (case ds of [] \<Rightarrow> (False, []) | d # ds' \<Rightarrow> (d, ds'))"

fun layer_read :: "int list \<Rightarrow> read_side \<Rightarrow> string \<times> io_err option \<times> read_side" where
  "layer_read [] r = raw_read r"
| "layer_read (t # ts) r =
     (let (err, ds) = pop_dl (r_dl r); r1 = r\<lparr>r_dl := ds\<rparr>
      in if err then ([], Some ConnErr, r1) else layer_read ts r1)"

fun layer_write :: "int list \<Rightarrow> string \<Rightarrow> write_side \<Rightarrow> nat \<times> io_err option \<times> write_side" where
  "layer_write [] s w = raw_write s w"
| "layer_write (t # ts) s w =
     (let (err, ds) = pop_dl (w_dl w); w1 = w\<lparr>w_dl := ds\<rparr>
      in if err then (0, Some ConnErr, w1) else layer_write ts s w1)"

definition nc_Read :: "net_conn \<Rightarrow> string \<times> io_err option \<times> net_conn" where
  "nc_Read c = (let (p, e, r) = layer_read (layers c) (rside c) in (p, e, c\<lparr>rside := r\<rparr>))"

definition nc_Write :: "string \<Rightarrow> net_conn \<Rightarrow> nat \<times> io_err option \<times> net_conn" where
  "nc_Write s c = (let (n, e, w) = layer_write (layers c) s (wside c) in (n, e, c\<lparr>wside := w\<rparr>))"

definition nc_Close :: "net_conn \<Rightarrow> net_conn" where
  "nc_Close c = c\<lparr>closed := True\<rparr>"

definition wrapIdleTimeout :: "net_conn \<Rightarrow> int \<Rightarrow> net_conn" where
  "wrapIdleTimeout conn timeout =
     (if timeout \<le> 0 then conn else conn\<lparr>layers := timeout # layers conn\<rparr>)"

text \<open>
  The type assertion to \<open>closeWriter\<close>: a layer embeds the interface net.Conn, whose
  method set has no CloseWrite, so only an unwrapped connection can satisfy it.
\<close>

definition is_closeWriter :: "net_conn \<Rightarrow> bool" where
  "is_closeWriter c \<longleftrightarrow> layers c = [] \<and> half c"

definition CloseWrite :: "net_conn \<Rightarrow> net_conn" where
  "CloseWrite c = c\<lparr>wside := (wside c)\<lparr>w_shut := True\<rparr>\<rparr>"

lemma wrap_off: "t \<le> 0 \<Longrightarrow> wrapIdleTimeout c t = c"
  by (simp add: wrapIdleTimeout_def)

lemma wrap_sides [simp]:
  "rside (wrapIdleTimeout c t) = rside c" "wside (wrapIdleTimeout c t) = wside c"
  "half (wrapIdleTimeout c t) = half c" "closed (wrapIdleTimeout c t) = closed c"
  by (simp_all add: wrapIdleTimeout_def)

lemma wrap_no_closeWriter: "0 < t \<Longrightarrow> \<not> is_closeWriter (wrapIdleTimeout c t)"
  by (simp add: wrapIdleTimeout_def is_closeWriter_def)

text \<open>A write appends to what the peer got, a prefix of what was written; an error-free one all.\<close>

lemma raw_write_out:
  "raw_write s w = (n, e, w') \<Longrightarrow>
   w_out w' = w_out w @ take n s \<and> n \<le> length s \<and> (e = None \<longrightarrow> n = length s) \<and> w_shut w' = w_shut w"
  by (auto simp: raw_write_def min_def split: list.splits option.splits)

lemma layer_write_out:
  "layer_write ls s w = (n, e, w') \<Longrightarrow>
   w_out w' = w_out w @ take n s \<and> n \<le> length s \<and> (e = None \<longrightarrow> n = length s) \<and> w_shut w' = w_shut w"
proof (induction ls s w rule: layer_write.induct)
  case (1 s w)
  then show ?case by (intro raw_write_out) simp
next
  case (2 t ts s w)
  obtain err ds where d: "pop_dl (w_dl w) = (err, ds)" by fastforce
  show ?case
    using 2 d by (cases err) (auto simp: Let_def)
qed

lemma nc_Write_out:
  "nc_Write s c = (n, e, c') \<Longrightarrow>
   w_out (wside c') = w_out (wside c) @ take n s \<and> n \<le> length s \<and> (e = None \<longrightarrow> n = length s) \<and>
   w_shut (wside c') = w_shut (wside c) \<and> layers c' = layers c \<and> half c' = half c \<and>
   rside c' = rside c \<and> closed c' = closed c"
  using layer_write_out [of "layers c" s "wside c"]
  by (auto simp: nc_Write_def split: prod.splits)

lemma layer_read_script:
  "layer_read ls r = (p, e, r') \<Longrightarrow> e = None \<Longrightarrow> length (r_script r') < length (r_script r)"
proof (induction ls r rule: layer_read.induct)
  case (1 r)
  then show ?case by (auto simp: raw_read_def split: list.splits)
next
  case (2 t ts r)
  obtain err ds where d: "pop_dl (r_dl r) = (err, ds)" by fastforce
  show ?case
    using 2 d by (cases err) (auto simp: Let_def)
qed

lemma layer_read_mono: "layer_read ls r = (p, e, r') \<Longrightarrow> length (r_script r') \<le> length (r_script r)"
proof (induction ls r rule: layer_read.induct)
  case (1 r)
  then show ?case by (auto simp: raw_read_def split: list.splits)
next
  case (2 t ts r)
  obtain err ds where d: "pop_dl (r_dl r) = (err, ds)" by fastforce
  show ?case
    using 2 d by (cases err) (auto simp: Let_def)
qed

lemma nc_Read_frame:
  "nc_Read c = (p, e, c') \<Longrightarrow>
   wside c' = wside c \<and> layers c' = layers c \<and> half c' = half c \<and> closed c' = closed c"
  by (auto simp: nc_Read_def split: prod.splits)

lemma nc_Read_script:
  "nc_Read c = (p, None, c') \<Longrightarrow> length (r_script (rside c')) < length (r_script (rside c))"
  by (auto simp: nc_Read_def split: prod.splits dest: layer_read_script)

section \<open>A connection later on\<close>

text \<open>
  One connection before and after reads, writes and a close: its peer has received what it had and
  more, its script of reads is an end of the former one, and it is of the same kind.
\<close>

definition later :: "net_conn \<Rightarrow> net_conn \<Rightarrow> bool" where
  "later a b \<longleftrightarrow> prefix (w_out (wside a)) (w_out (wside b)) \<and>
     suffix (r_script (rside b)) (r_script (rside a)) \<and> half b = half a"

lemma later_refl [simp]: "later a a"
  by (simp add: later_def)

lemma later_trans: "later a b \<Longrightarrow> later b c \<Longrightarrow> later a c"
  by (auto simp: later_def intro: prefix_order.trans suffix_order.trans)

lemma later_wrap [simp]: "later a (wrapIdleTimeout b t) = later a b" "later (wrapIdleTimeout a t) b = later a b"
  by (simp_all add: later_def)

lemma later_close [simp]: "later a (nc_Close b) = later a b"
  by (simp add: later_def nc_Close_def)

lemma closed_Close [simp]: "closed (nc_Close c)"
  by (simp add: nc_Close_def)

lemma layer_read_suffix: "layer_read ls r = (p, e, r') \<Longrightarrow> suffix (r_script r') (r_script r)"
proof (induction ls r rule: layer_read.induct)
  case (1 r)
  then show ?case by (auto simp: raw_read_def suffix_ConsI split: list.splits)
next
  case (2 t ts r)
  obtain err ds where d: "pop_dl (r_dl r) = (err, ds)" by fastforce
  show ?case
    using 2 d by (cases err) (auto simp: Let_def)
qed

lemma later_nc_Read: "nc_Read c = (p, e, c') \<Longrightarrow> later c c'"
  using nc_Read_frame [of c p e c'] layer_read_suffix [of "layers c" "rside c"]
  by (auto simp: later_def nc_Read_def split: prod.splits)

lemma later_nc_Write: "nc_Write s c = (n, e, c') \<Longrightarrow> later c c'"
  using nc_Write_out [of s c n e c'] by (auto simp: later_def)

section \<open>Dialing the upstream\<close>

datatype dial_error = DialFailed | NilManager | NilConfig | HandshakeFailed

text \<open>
  What the network does with a dial within the given timeout: the raw connection, if any, and
  what the TLS handshake with a configuration turns it into. (The dialer takes a timeout of 0 as
  none; the handshake's context is over at once when the timeout is not positive.)
\<close>

record dial_env =
  de_dial :: "int \<Rightarrow> string \<Rightarrow> net_conn option"
  de_handshake :: "int \<Rightarrow> tls_config \<Rightarrow> net_conn \<Rightarrow> net_conn option"

definition upstream_host :: "string \<Rightarrow> string" where
  "upstream_host hp = (case SplitHostPort hp of Inl e \<Rightarrow> [] | Inr (host, port) \<Rightarrow> host)"

definition dial_config :: "handler \<Rightarrow> tls_config \<Rightarrow> tls_config" where
  "dial_config h cfg =
     cfg\<lparr>ServerName := upstream_host (UpstreamProxy h), SkipVerify := InsecureSkipVerify h\<rparr>"

text \<open>
  The result and the raw connections that were closed on the way. With a manager that has no
  configuration the code dereferences nil: \<open>NilConfig\<close> stands for this panic, which no
  caller can take for an error. It leaves the raw connection open, and it never happens in a
  process that started (theory \<open>Startup\<close>).
\<close>

definition dialUpstream :: "handler \<Rightarrow> dial_env \<Rightarrow> (dial_error + net_conn) \<times> net_conn list" where
  "dialUpstream h env =
     (case de_dial env (DialTimeout h) (UpstreamProxy h) of
        None \<Rightarrow> (Inl DialFailed, [])
      | Some raw \<Rightarrow>
          if \<not> TLSEnabled h then (Inr raw, [])
          else (case CertManager h of
             None \<Rightarrow> (Inl NilManager, [nc_Close raw])
           | Some m \<Rightarrow>
               (case TLSConfig m of
                  None \<Rightarrow> (Inl NilConfig, [])
                | Some cfg \<Rightarrow>
                    (case de_handshake env (DialTimeout h) (dial_config h cfg) raw of
                       None \<Rightarrow> (Inl HandshakeFailed, [nc_Close raw])
                     | Some c \<Rightarrow> (Inr c, [])))))"

text \<open>
  The transport dials in a goroutine of its own, where the panic \<open>NilConfig\<close> would end the
  process.
\<close>

definition dialForTransport :: "handler \<Rightarrow> dial_env \<Rightarrow> dial_error + net_conn" where
  "dialForTransport h env =
     (case fst (dialUpstream h env) of
        Inl e \<Rightarrow> Inl e
      | Inr conn \<Rightarrow> Inr (wrapIdleTimeout conn (IdleTimeout h)))"

text \<open>With TLS on, a connection is only handed out after a handshake with the manager's config.\<close>

lemma dialUpstream_tls:
  assumes "fst (dialUpstream h env) = Inr c" "TLSEnabled h"
  shows "\<exists>m cfg raw. CertManager h = Some m \<and> TLSConfig m = Some cfg \<and>
    de_dial env (DialTimeout h) (UpstreamProxy h) = Some raw \<and>
    de_handshake env (DialTimeout h) (dial_config h cfg) raw = Some c"
  using assms by (auto simp: dialUpstream_def split: option.splits)

text \<open>
  Where a dialled raw connection goes: it is handed out, or the handshake turns it into the
  connection handed out, or it is closed, or the code panics.
\<close>

lemma dialUpstream_raw:
  assumes "de_dial env (DialTimeout h) (UpstreamProxy h) = Some raw"
  shows "dialUpstream h env = (Inr raw, []) \<and> \<not> TLSEnabled h \<or>
    (\<exists>cfg c. de_handshake env (DialTimeout h) cfg raw = Some c \<and> dialUpstream h env = (Inr c, [])) \<or>
    (\<exists>e. dialUpstream h env = (Inl e, [nc_Close raw]) \<and> e \<noteq> NilConfig) \<or>
    dialUpstream h env = (Inl NilConfig, [])"
  using assms by (auto simp: dialUpstream_def split: option.splits)

section \<open>Properties\<close>

text \<open>
  C20. Dialing with TLS on: the handshake uses the manager's current configuration with the
  upstream's host name as the server name, the configured verification switch and the
  configured timeout, its connection
  is the one handed out, and when it fails the raw connection has been closed.
\<close>

theorem dial_uses_current_certificate:
  assumes "TLSEnabled h" "CertManager h = Some m" "current m = Some cfg"
    and "UpstreamProxy h = x @ colon # p" "colon \<notin> set x" "lbrack \<notin> set x" "rbrack \<notin> set x"
      "colon \<notin> set p" "lbrack \<notin> set p" "rbrack \<notin> set p"
    and "de_dial env (DialTimeout h) (UpstreamProxy h) = Some raw"
  shows "dialUpstream h env =
    (case de_handshake env (DialTimeout h) (cfg\<lparr>ServerName := x, SkipVerify := InsecureSkipVerify h\<rparr>) raw of
       Some c \<Rightarrow> (Inr c, [])
     | None \<Rightarrow> (Inl HandshakeFailed, [nc_Close raw]))"
proof -
  have "upstream_host (UpstreamProxy h) = x"
    using SplitHostPort_plain [OF assms(5-10)] by (simp add: upstream_host_def assms(4))
  then show ?thesis
    using assms(1-3,11) by (simp add: dialUpstream_def TLSConfig_def dial_config_def)
qed

definition ex_config :: tls_config where
  "ex_config = \<lparr>Certificates = [\<lparr>Cert0 = ''DER'', CertRest = [], PrivateKey = ''KEY'',
       Leaf = Some \<lparr>Subject = ''CN=proxy'', NotAfter = 1000\<rparr>\<rparr>],
     RootCAs = [''CADER''], MinVersion = VersionTLS12, ServerName = [], SkipVerify = False\<rparr>"

definition ex_conn :: "(string \<times> io_err option) list \<Rightarrow> net_conn" where
  "ex_conn rs = \<lparr>layers = [], rside = \<lparr>r_script = rs, r_dl = []\<rparr>,
     wside = \<lparr>w_script = [], w_dl = [], w_out = [], w_shut = False\<rparr>, half = True, closed = False\<rparr>"

definition ex_tls_handler :: handler where
  "ex_tls_handler = ex_handler\<lparr>TLSEnabled := True,
     CertManager := Some \<lparr>dir = ''/certs/'', current = Some ex_config\<rparr>\<rparr>"

text \<open>A peer that accepts the handshake only for its own name.\<close>

definition ex_dial :: "string \<Rightarrow> dial_env" where
  "ex_dial name = \<lparr>de_dial = (\<lambda>t a. Some (ex_conn [])),
     de_handshake = (\<lambda>t cfg c. if ServerName cfg = name then Some c else None)\<rparr>"

theorem dial_uses_current_certificate_witness:
  "dialUpstream ex_tls_handler (ex_dial ''squid.corp'') = (Inr (ex_conn []), []) \<and>
   dialUpstream ex_tls_handler (ex_dial ''other'') = (Inl HandshakeFailed, [nc_Close (ex_conn [])])"
proof -
  have h: "TLSEnabled ex_tls_handler"
    "CertManager ex_tls_handler = Some \<lparr>dir = ''/certs/'', current = Some ex_config\<rparr>"
    "current \<lparr>dir = ''/certs/'', current = Some ex_config\<rparr> = Some ex_config"
    by (simp_all add: ex_tls_handler_def)
  have u: "UpstreamProxy ex_tls_handler = ''squid.corp'' @ colon # ''3128''"
    by (simp add: ex_tls_handler_def ex_handler_def colon_def)
  have c: "colon \<notin> set ''squid.corp''" "lbrack \<notin> set ''squid.corp''" "rbrack \<notin> set ''squid.corp''"
    "colon \<notin> set ''3128''" "lbrack \<notin> set ''3128''" "rbrack \<notin> set ''3128''"
    by (simp_all add: colon_def lbrack_def rbrack_def)
  show ?thesis
    using dial_uses_current_certificate [OF h u c, of "ex_dial ''squid.corp''" "ex_conn []"]
      dial_uses_current_certificate [OF h u c, of "ex_dial ''other''" "ex_conn []"]
    by (simp add: ex_dial_def)
qed

end
