(* ===== verification/Tunnel.thy ===== *)
theory Tunnel
  imports Conn
begin

text \<open>
  The CONNECT tunnel (internal/proxy/handler.go, \<open>tunnel\<close>): two goroutines, one per
  direction, each an \<open>io.Copy\<close> followed by CloseWrite on its destination where the
  destination's type offers it; \<open>tunnel\<close> returns the two byte counts once both are done.

  The concurrent machine interleaves the reads, writes and closes of the two copiers freely.
  It is proved to end, and to end in the result of running each direction by itself
  (\<open>copy_run\<close>), whatever the interleaving.
\<close>

section \<open>One copier\<close>

datatype copy_pc = PRead | PWrite string "io_err option" | PClose | PDone

text \<open>
  A direction: where the copier is, its byte count, the read side of the source and the write
  side of the destination. \<open>dir_cfg\<close> has the layers of both and whether the destination
  satisfies \<open>closeWriter\<close>.
\<close>

record direction =
  d_pc :: copy_pc
  d_n :: int
  d_src :: read_side
  d_dst :: write_side

record dir_cfg =
  src_layers :: "int list"
  dst_layers :: "int list"
  dst_close :: bool

definition dir_step :: "dir_cfg \<Rightarrow> direction \<Rightarrow> direction" where
  "dir_step g d =
     (case d_pc d of
        PRead \<Rightarrow>
          (case layer_read (src_layers g) (d_src d) of
             (p, er, r) \<Rightarrow>
               d\<lparr>d_src := r,
                 d_pc := (if p \<noteq> [] then PWrite p er else if er \<noteq> None then PClose else PRead)\<rparr>)
      | PWrite p er \<Rightarrow>
          (case layer_write (dst_layers g) p (d_dst d) of
             (nw, ew, w) \<Rightarrow>
               d\<lparr>d_dst := w, d_n := d_n d + int nw,
                 d_pc := (if ew \<noteq> None then PClose
                          else if nw \<noteq> length p then PClose
                          else if er \<noteq> None then PClose else PRead)\<rparr>)
      | PClose \<Rightarrow>
          d\<lparr>d_pc := PDone,
            d_dst := (if dst_close g then (d_dst d)\<lparr>w_shut := True\<rparr> else d_dst d)\<rparr>
      | PDone \<Rightarrow> d)"

definition dir_rank :: "direction \<Rightarrow> nat" where
  "dir_rank d =
     (case d_pc d of
        PRead \<Rightarrow> 4 * length (r_script (d_src d)) + 3
      | PWrite p er \<Rightarrow> 4 * length (r_script (d_src d)) + 4
      | PClose \<Rightarrow> 1
      | PDone \<Rightarrow> 0)"

text \<open>
  A chunk that came with an error is the last one; its rank must stay below that of the read
  that produced it even when the script did not shrink, which only happens without a chunk.
\<close>

lemma layer_read_chunk:
  "layer_read ls r = (p, e, r') \<Longrightarrow> p \<noteq> [] \<Longrightarrow> length (r_script r') < length (r_script r)"
proof (induction ls r rule: layer_read.induct)
  case (1 r)
  then show ?case by (auto simp: raw_read_def split: list.splits)
next
  case (2 t ts r)
  obtain err ds where d: "pop_dl (r_dl r) = (err, ds)" by fastforce
  show ?case
    using 2 d by (cases err) (auto simp: Let_def)
qed

lemma dir_step_rank:
  assumes "d_pc d \<noteq> PDone"
  shows "dir_rank (dir_step g d) < dir_rank d"
proof (cases "d_pc d")
  case PRead
  obtain p er r where r: "layer_read (src_layers g) (d_src d) = (p, er, r)" by (metis prod_cases3)
  show ?thesis
    using PRead r layer_read_chunk [OF r] layer_read_script [OF r] layer_read_mono [OF r]
    by (auto simp: dir_step_def dir_rank_def)
next
  case (PWrite p er)
  obtain nw ew w where "layer_write (dst_layers g) p (d_dst d) = (nw, ew, w)"
    by (metis prod_cases3)
  then show ?thesis using PWrite by (auto simp: dir_step_def dir_rank_def)
qed (use assms in \<open>auto simp: dir_step_def dir_rank_def\<close>)

text \<open>The copier run by itself to its end.\<close>

function copy_run :: "dir_cfg \<Rightarrow> direction \<Rightarrow> direction" where
  "copy_run g d = (if d_pc d = PDone then d else copy_run g (dir_step g d))"
  by pat_completeness auto
termination
  by (relation "measure (\<lambda>(g, d). dir_rank d)") (auto intro: dir_step_rank)

declare copy_run.simps [simp del]

lemma copy_run_step: "copy_run g (dir_step g d) = copy_run g d"
proof (cases "d_pc d = PDone")
  case True
  then have "dir_step g d = d" by (simp add: dir_step_def)
  then show ?thesis by simp
next
  case False
  then show ?thesis by (simp add: copy_run.simps [of g d])
qed

lemma copy_run_done: "d_pc d = PDone \<Longrightarrow> copy_run g d = d"
  by (simp add: copy_run.simps [of g d])

lemma copy_run_is_done: "d_pc (copy_run g d) = PDone"
  by (induction g d rule: copy_run.induct) (metis copy_run.simps)

section \<open>The two goroutines\<close>

record tunnel_state =
  t_client :: net_conn
  t_upstream :: net_conn
  t_out_pc :: copy_pc
  t_out_n :: int
  t_in_pc :: copy_pc
  t_in_n :: int

definition out_dir :: "tunnel_state \<Rightarrow> direction" where
  "out_dir s = \<lparr>d_pc = t_out_pc s, d_n = t_out_n s,
     d_src = rside (t_client s), d_dst = wside (t_upstream s)\<rparr>"

definition in_dir :: "tunnel_state \<Rightarrow> direction" where
  "in_dir s = \<lparr>d_pc = t_in_pc s, d_n = t_in_n s,
     d_src = rside (t_upstream s), d_dst = wside (t_client s)\<rparr>"

definition out_cfg :: "net_conn \<Rightarrow> net_conn \<Rightarrow> dir_cfg" where
  "out_cfg client upstream = \<lparr>src_layers = layers client, dst_layers = layers upstream,
     dst_close = is_closeWriter upstream\<rparr>"

definition in_cfg :: "net_conn \<Rightarrow> net_conn \<Rightarrow> dir_cfg" where
  "in_cfg client upstream = out_cfg upstream client"

definition set_out :: "direction \<Rightarrow> tunnel_state \<Rightarrow> tunnel_state" where
  "set_out d s = s\<lparr>t_out_pc := d_pc d, t_out_n := d_n d,
     t_client := (t_client s)\<lparr>rside := d_src d\<rparr>,
     t_upstream := (t_upstream s)\<lparr>wside := d_dst d\<rparr>\<rparr>"

definition set_in :: "direction \<Rightarrow> tunnel_state \<Rightarrow> tunnel_state" where
  "set_in d s = s\<lparr>t_in_pc := d_pc d, t_in_n := d_n d,
     t_upstream := (t_upstream s)\<lparr>rside := d_src d\<rparr>,
     t_client := (t_client s)\<lparr>wside := d_dst d\<rparr>\<rparr>"

inductive tunnel_step :: "tunnel_state \<Rightarrow> tunnel_state \<Rightarrow> bool" where
  step_out: "t_out_pc s \<noteq> PDone \<Longrightarrow>
    tunnel_step s (set_out (dir_step (out_cfg (t_client s) (t_upstream s)) (out_dir s)) s)"
| step_in: "t_in_pc s \<noteq> PDone \<Longrightarrow>
    tunnel_step s (set_in (dir_step (in_cfg (t_client s) (t_upstream s)) (in_dir s)) s)"

inductive_cases tunnel_stepE: "tunnel_step s t"

definition tunnel_init :: "net_conn \<Rightarrow> net_conn \<Rightarrow> tunnel_state" where
  "tunnel_init client upstream = \<lparr>t_client = client, t_upstream = upstream,
     t_out_pc = PRead, t_out_n = 0, t_in_pc = PRead, t_in_n = 0\<rparr>"

text \<open>\<open>wg.Wait\<close> returns when both goroutines have called Done.\<close>

definition tunnel_done :: "tunnel_state \<Rightarrow> bool" where
  "tunnel_done s \<longleftrightarrow> t_out_pc s = PDone \<and> t_in_pc s = PDone"

text \<open>The state in which both directions have been run to their end by themselves.\<close>

definition tunnel_final :: "net_conn \<Rightarrow> net_conn \<Rightarrow> tunnel_state" where
  "tunnel_final client upstream =
     (let s = tunnel_init client upstream
      in set_in (copy_run (in_cfg client upstream) (in_dir s))
           (set_out (copy_run (out_cfg client upstream) (out_dir s)) s))"

text \<open>What \<open>tunnel\<close> returns, with the two connections as it leaves them.\<close>

definition tunnel :: "net_conn \<Rightarrow> net_conn \<Rightarrow> (int \<times> int) \<times> net_conn \<times> net_conn" where
  "tunnel client upstream =
     (let s = tunnel_final client upstream
      in ((t_in_n s, t_out_n s), t_client s, t_upstream s))"

section \<open>Every interleaving ends in the sequential result\<close>

lemma set_out_dirs [simp]:
  "out_dir (set_out d s) = d" "in_dir (set_out d s) = in_dir s"
  "in_dir (set_in d s) = d" "out_dir (set_in d s) = out_dir s"
  by (simp_all add: out_dir_def in_dir_def set_out_def set_in_def)

lemma dirs_pc: "d_pc (out_dir s) = t_out_pc s" "d_pc (in_dir s) = t_in_pc s"
  by (simp_all add: out_dir_def in_dir_def)

lemma set_keeps_cfg [simp]:
  "out_cfg (t_client (set_out d s)) (t_upstream (set_out d s)) = out_cfg (t_client s) (t_upstream s)"
  "out_cfg (t_client (set_in d s)) (t_upstream (set_in d s)) = out_cfg (t_client s) (t_upstream s)"
  "in_cfg (t_client (set_out d s)) (t_upstream (set_out d s)) = in_cfg (t_client s) (t_upstream s)"
  "in_cfg (t_client (set_in d s)) (t_upstream (set_in d s)) = in_cfg (t_client s) (t_upstream s)"
  by (simp_all add: out_cfg_def in_cfg_def set_out_def set_in_def is_closeWriter_def)

text \<open>
  The state apart from the two directions: the layers, kinds and closed flags of the
  connections. It never changes, and with the directions it determines the state.
\<close>

definition frame_of :: "tunnel_state \<Rightarrow> (int list \<times> bool \<times> bool) \<times> (int list \<times> bool \<times> bool)" where
  "frame_of s = ((layers (t_client s), half (t_client s), closed (t_client s)),
     (layers (t_upstream s), half (t_upstream s), closed (t_upstream s)))"

lemma frame_set [simp]: "frame_of (set_out d s) = frame_of s" "frame_of (set_in d s) = frame_of s"
  by (simp_all add: frame_of_def set_out_def set_in_def)

lemma state_eqI:
  "frame_of s = frame_of t \<Longrightarrow> out_dir s = out_dir t \<Longrightarrow> in_dir s = in_dir t \<Longrightarrow> s = t"
  by (cases s; cases t) (auto simp: frame_of_def out_dir_def in_dir_def intro!: net_conn.equality)

lemma frame_cfg:
  "frame_of s = frame_of t \<Longrightarrow>
   out_cfg (t_client s) (t_upstream s) = out_cfg (t_client t) (t_upstream t) \<and>
   in_cfg (t_client s) (t_upstream s) = in_cfg (t_client t) (t_upstream t)"
  by (simp add: frame_of_def out_cfg_def in_cfg_def is_closeWriter_def)

text \<open>The invariant of a run from the given connections: what is left to do leads to the same end.\<close>

definition tunnel_inv :: "net_conn \<Rightarrow> net_conn \<Rightarrow> tunnel_state \<Rightarrow> bool" where
  "tunnel_inv client upstream s \<longleftrightarrow>
     frame_of s = frame_of (tunnel_init client upstream) \<and>
     copy_run (out_cfg client upstream) (out_dir s) =
       copy_run (out_cfg client upstream) (out_dir (tunnel_init client upstream)) \<and>
     copy_run (in_cfg client upstream) (in_dir s) =
       copy_run (in_cfg client upstream) (in_dir (tunnel_init client upstream))"

definition tunnel_start :: "net_conn \<Rightarrow> net_conn \<Rightarrow> tunnel_state \<Rightarrow> bool" where
  "tunnel_start client upstream s \<longleftrightarrow> s = tunnel_init client upstream"

definition tunnel_rank :: "tunnel_state \<Rightarrow> nat" where
  "tunnel_rank s = dir_rank (out_dir s) + dir_rank (in_dir s)"

lemma init_conns [simp]:
  "t_client (tunnel_init c u) = c" "t_upstream (tunnel_init c u) = u"
  by (simp_all add: tunnel_init_def)

lemma tunnel_inv_cfg:
  "tunnel_inv c u s \<Longrightarrow> out_cfg (t_client s) (t_upstream s) = out_cfg c u \<and>
   in_cfg (t_client s) (t_upstream s) = in_cfg c u"
  using frame_cfg [of s "tunnel_init c u"] by (simp add: tunnel_inv_def)

lemma tunnel_inv_step: "tunnel_inv c u s \<Longrightarrow> tunnel_step s t \<Longrightarrow> tunnel_inv c u t"
proof (erule tunnel_stepE)
qed (use tunnel_inv_cfg [of c u s] in \<open>auto simp: tunnel_inv_def copy_run_step\<close>)

lemma tunnel_step_rank: "tunnel_step s t \<Longrightarrow> tunnel_rank t < tunnel_rank s"
  by (erule tunnel_stepE) (auto simp: tunnel_rank_def dirs_pc intro!: dir_step_rank)

lemma tunnel_inv_start: "tunnel_start c u s \<Longrightarrow> tunnel_inv c u s"
  by (simp add: tunnel_start_def tunnel_inv_def)

interpretation tunnel_sys: terminating_system "tunnel_start c u" tunnel_step "tunnel_inv c u" tunnel_rank
  for c u
  by unfold_locales
    (auto intro: tunnel_inv_start tunnel_inv_step tunnel_step_rank)

lemma tunnel_stuck: "(\<forall>t. \<not> tunnel_step s t) \<longleftrightarrow> tunnel_done s"
  by (auto simp: tunnel_done_def elim: tunnel_stepE intro: tunnel_step.intros)

lemma tunnel_done_final:
  assumes "tunnel_inv c u s" "tunnel_done s"
  shows "s = tunnel_final c u"
proof (rule state_eqI)
  show "frame_of s = frame_of (tunnel_final c u)"
    using assms(1) by (simp add: tunnel_inv_def tunnel_final_def Let_def)
  have d: "d_pc (out_dir s) = PDone" "d_pc (in_dir s) = PDone"
    using assms(2) by (simp_all add: tunnel_done_def out_dir_def in_dir_def)
  show "out_dir s = out_dir (tunnel_final c u)" "in_dir s = in_dir (tunnel_final c u)"
    using assms(1) copy_run_done [OF d(1), of "out_cfg c u"] copy_run_done [OF d(2), of "in_cfg c u"]
    by (simp_all add: tunnel_inv_def tunnel_final_def Let_def)
qed

section \<open>What is relayed\<close>

text \<open>
  The bytes a source yields up to and including the first read with an error, through the
  layers.
\<close>

fun script_bytes :: "(string \<times> io_err option) list \<Rightarrow> string" where
  "script_bytes [] = []"
| "script_bytes ((p, e) # rs) = p @ (if e = None then script_bytes rs else [])"

definition pending :: "direction \<Rightarrow> string" where
  "pending d =
     (case d_pc d of
        PRead \<Rightarrow> script_bytes (r_script (d_src d))
      | PWrite p er \<Rightarrow> p @ (if er = None then script_bytes (r_script (d_src d)) else [])
      | _ \<Rightarrow> [])"

lemma layer_read_bytes:
  "layer_read ls r = (p, e, r') \<Longrightarrow>
   prefix (p @ (if e = None then script_bytes (r_script r') else [])) (script_bytes (r_script r)) \<and>
   (list_all Not (r_dl r) \<longrightarrow> list_all Not (r_dl r') \<and>
     script_bytes (r_script r) = p @ (if e = None then script_bytes (r_script r') else []))"
proof (induction ls r rule: layer_read.induct)
  case (1 r)
  then show ?case by (auto simp: raw_read_def split: list.splits)
next
  case (2 t ts r)
  obtain err ds where d: "pop_dl (r_dl r) = (err, ds)" by fastforce
  have "list_all Not (r_dl r) \<Longrightarrow> \<not> err \<and> list_all Not ds"
    using d by (auto simp: pop_dl_def split: list.splits)
  then show ?case
    using 2 d by (cases err) (auto simp: Let_def)
qed

text \<open>
  One step keeps this: what the destination got so far, followed by what is pending, is within
  what it had and what was pending before; and the count grows by the bytes it got.
\<close>

lemma dir_step_out:
  "\<exists>k. w_out (d_dst (dir_step g d)) = w_out (d_dst d) @ k \<and>
     d_n (dir_step g d) = d_n d + int (length k) \<and> prefix (k @ pending (dir_step g d)) (pending d)
     \<or> w_out (d_dst (dir_step g d)) = w_out (d_dst d) @ k \<and>
     d_n (dir_step g d) = d_n d + int (length k) \<and> prefix k (pending d) \<and>
     pending (dir_step g d) = []"
proof (cases "d_pc d")
  case PRead
  obtain p er r where r: "layer_read (src_layers g) (d_src d) = (p, er, r)" by (metis prod_cases3)
  show ?thesis
    using PRead r layer_read_bytes [OF r]
    by (intro exI [of _ "[]"]) (auto simp: dir_step_def pending_def split: if_splits)
next
  case (PWrite p er)
  obtain nw ew w where w: "layer_write (dst_layers g) p (d_dst d) = (nw, ew, w)"
    by (metis prod_cases3)
  show ?thesis
    using PWrite w layer_write_out [OF w] take_is_prefix [of nw p]
    by (intro exI [of _ "take nw p"])
      (auto simp: dir_step_def pending_def min_def split: if_splits)
qed (auto simp: dir_step_def pending_def)

lemma copy_run_out:
  "\<exists>k. w_out (d_dst (copy_run g d)) = w_out (d_dst d) @ k \<and>
     d_n (copy_run g d) = d_n d + int (length k) \<and> prefix k (pending d)"
proof (induction g d rule: copy_run.induct)
  case (1 g d)
  show ?case
  proof (cases "d_pc d = PDone")
    case True
    then show ?thesis by (simp add: copy_run_done)
  next
    case False
    obtain k where k: "w_out (d_dst (dir_step g d)) = w_out (d_dst d) @ k"
      "d_n (dir_step g d) = d_n d + int (length k)"
      "prefix (k @ pending (dir_step g d)) (pending d) \<or> prefix k (pending d) \<and> pending (dir_step g d) = []"
      using dir_step_out [of g d] by blast
    obtain j where j: "w_out (d_dst (copy_run g (dir_step g d))) = w_out (d_dst (dir_step g d)) @ j"
      "d_n (copy_run g (dir_step g d)) = d_n (dir_step g d) + int (length j)"
      "prefix j (pending (dir_step g d))" using 1 False by blast
    have "prefix (k @ j) (pending d)"
      using k(3) j(3) by (auto simp: prefix_def)
    then show ?thesis using k(1,2) j(1,2) by (intro exI [of _ "k @ j"]) (simp add: copy_run_step)
  qed
qed

text \<open>Without a failing write or deadline, everything pending is delivered.\<close>

definition clean_dir :: "direction \<Rightarrow> bool" where
  "clean_dir d \<longleftrightarrow> list_all Not (r_dl (d_src d)) \<and> list_all Not (w_dl (d_dst d)) \<and>
     list_all (\<lambda>x. x = None) (w_script (d_dst d))"

lemma layer_write_clean:
  "layer_write ls s w = (n, e, w') \<Longrightarrow> list_all Not (w_dl w) \<Longrightarrow>
   list_all (\<lambda>x. x = None) (w_script w) \<Longrightarrow>
   e = None \<and> n = length s \<and> list_all Not (w_dl w') \<and> list_all (\<lambda>x. x = None) (w_script w')"
proof (induction ls s w rule: layer_write.induct)
  case (1 s w)
  then show ?case by (auto simp: raw_write_def split: list.splits option.splits)
next
  case (2 t ts s w)
  obtain err ds where d: "pop_dl (w_dl w) = (err, ds)" by fastforce
  have "\<not> err \<and> list_all Not ds"
    using d "2.prems"(2) by (auto simp: pop_dl_def split: list.splits)
  then show ?case using 2 d by (auto simp: Let_def)
qed

lemma dir_step_clean:
  assumes "clean_dir d"
  shows "clean_dir (dir_step g d) \<and>
    w_out (d_dst (dir_step g d)) @ pending (dir_step g d) = w_out (d_dst d) @ pending d"
proof (cases "d_pc d")
  case PRead
  obtain p er r where r: "layer_read (src_layers g) (d_src d) = (p, er, r)" by (metis prod_cases3)
  show ?thesis
    using PRead r layer_read_bytes [OF r] assms
    by (auto simp: dir_step_def pending_def clean_dir_def)
next
  case (PWrite p er)
  obtain nw ew w where w: "layer_write (dst_layers g) p (d_dst d) = (nw, ew, w)"
    by (metis prod_cases3)
  show ?thesis
    using PWrite w layer_write_out [OF w] layer_write_clean [OF w] assms
    by (auto simp: dir_step_def pending_def clean_dir_def)
qed (use assms in \<open>auto simp: dir_step_def pending_def clean_dir_def\<close>)

lemma copy_run_clean:
  "clean_dir d \<Longrightarrow> w_out (d_dst (copy_run g d)) = w_out (d_dst d) @ pending d"
proof (induction g d rule: copy_run.induct)
  case (1 g d)
  show ?case
  proof (cases "d_pc d = PDone")
    case True
    then show ?thesis by (simp add: copy_run_done pending_def)
  next
    case False
    then show ?thesis using 1(1) [OF False] dir_step_clean [OF 1(2), of g] by (simp add: copy_run_step)
  qed
qed

text \<open>The destination is half-closed in the end exactly where its type allows it.\<close>

lemma dir_step_shut:
  "d_pc d \<noteq> PDone \<Longrightarrow>
   w_shut (d_dst (dir_step g d)) = (w_shut (d_dst d) \<or> d_pc d = PClose \<and> dst_close g) \<and>
   (d_pc (dir_step g d) = PDone \<longleftrightarrow> d_pc d = PClose)"
  using layer_write_out
  by (cases "d_pc d") (auto simp: dir_step_def split: prod.splits)

lemma copy_run_shut:
  "d_pc d \<noteq> PDone \<Longrightarrow>
   w_shut (d_dst (copy_run g d)) = (w_shut (d_dst d) \<or> dst_close g)"
proof (induction g d rule: copy_run.induct)
  case (1 g d)
  have s: "copy_run g d = copy_run g (dir_step g d)" by (simp add: copy_run_step)
  show ?case
  proof (cases "d_pc d = PClose")
    case True
    then show ?thesis using dir_step_shut [OF 1(2), of g] by (simp add: s copy_run_done)
  next
    case False
    then show ?thesis using 1 dir_step_shut [OF 1(2), of g] by (simp add: s)
  qed
qed

section \<open>The tunnel's result\<close>

lemma tunnel_out_dir: "out_dir (tunnel_final c u) = copy_run (out_cfg c u) (out_dir (tunnel_init c u))"
  by (simp add: tunnel_final_def Let_def)

lemma tunnel_in_dir: "in_dir (tunnel_final c u) = copy_run (in_cfg c u) (in_dir (tunnel_init c u))"
  by (simp add: tunnel_final_def Let_def)

lemma tunnel_results:
  "fst (fst (tunnel c u)) = d_n (in_dir (tunnel_final c u))"
  "snd (fst (tunnel c u)) = d_n (out_dir (tunnel_final c u))"
  "wside (fst (snd (tunnel c u))) = d_dst (in_dir (tunnel_final c u))"
  "wside (snd (snd (tunnel c u))) = d_dst (out_dir (tunnel_final c u))"
  by (simp_all add: tunnel_def Let_def in_dir_def out_dir_def)

lemma init_dirs:
  "pending (out_dir (tunnel_init c u)) = script_bytes (r_script (rside c))"
  "pending (in_dir (tunnel_init c u)) = script_bytes (r_script (rside u))"
  "d_n (out_dir (tunnel_init c u)) = 0" "d_n (in_dir (tunnel_init c u)) = 0"
  "d_dst (out_dir (tunnel_init c u)) = wside u" "d_dst (in_dir (tunnel_init c u)) = wside c"
  "d_src (out_dir (tunnel_init c u)) = rside c" "d_src (in_dir (tunnel_init c u)) = rside u"
  "d_pc (out_dir (tunnel_init c u)) = PRead" "d_pc (in_dir (tunnel_init c u)) = PRead"
  by (simp_all add: tunnel_init_def out_dir_def in_dir_def pending_def)

text \<open>The two connections are the given ones, later on.\<close>

lemma dir_step_suffix: "suffix (r_script (d_src (dir_step g d))) (r_script (d_src d))"
  using layer_read_suffix [of "src_layers g" "d_src d"]
  by (cases "d_pc d") (auto simp: dir_step_def split: prod.splits)

lemma copy_run_suffix: "suffix (r_script (d_src (copy_run g d))) (r_script (d_src d))"
proof (induction g d rule: copy_run.induct)
  case (1 g d)
  then show ?case
    using suffix_order.trans [OF 1 dir_step_suffix [of g d]]
    by (cases "d_pc d = PDone") (simp_all add: copy_run_done copy_run_step)
qed

lemma tunnel_half:
  "half (fst (snd (tunnel c u))) = half c" "half (snd (snd (tunnel c u))) = half u"
  by (simp_all add: tunnel_def tunnel_final_def set_in_def set_out_def Let_def)

lemma tunnel_rsides:
  "rside (fst (snd (tunnel c u))) = d_src (out_dir (tunnel_final c u))"
  "rside (snd (snd (tunnel c u))) = d_src (in_dir (tunnel_final c u))"
  by (simp_all add: tunnel_def Let_def in_dir_def out_dir_def)

lemma later_tunnel:
  "later c (fst (snd (tunnel c u)))" "later u (snd (snd (tunnel c u)))"
  using copy_run_out [of "in_cfg c u" "in_dir (tunnel_init c u)"]
    copy_run_out [of "out_cfg c u" "out_dir (tunnel_init c u)"]
    copy_run_suffix [of "out_cfg c u" "out_dir (tunnel_init c u)"]
    copy_run_suffix [of "in_cfg c u" "in_dir (tunnel_init c u)"]
  by (auto simp: later_def tunnel_half tunnel_results tunnel_rsides tunnel_out_dir tunnel_in_dir init_dirs)

section \<open>Properties\<close>

text \<open>
  C10. The tunnel ends with one result: every run of the two goroutines, however interleaved, is
  bounded, a run that cannot go on has both of them finished, and every finished state is the
  result of \<open>tunnel\<close>: the byte counts and what each connection has sent and received.
\<close>

theorem tunnel_ends_in_one_result:
  "(\<exists>t. tunnel_step\<^sup>*\<^sup>* (tunnel_init c u) t \<and> tunnel_done t) \<and>
   (\<forall>n t. (tunnel_step ^^ n) (tunnel_init c u) t \<longrightarrow> n \<le> tunnel_rank (tunnel_init c u)) \<and>
   (\<forall>t. tunnel_step\<^sup>*\<^sup>* (tunnel_init c u) t \<and> (\<forall>v. \<not> tunnel_step t v) \<longrightarrow>
      tunnel c u = ((t_in_n t, t_out_n t), t_client t, t_upstream t))"
proof (intro conjI allI impI)
  have inv: "tunnel_inv c u (tunnel_init c u)" by (rule tunnel_inv_start) (simp add: tunnel_start_def)
  show "\<exists>t. tunnel_step\<^sup>*\<^sup>* (tunnel_init c u) t \<and> tunnel_done t"
    using tunnel_sys.ends [OF inv] tunnel_stuck by blast
  show "n \<le> tunnel_rank (tunnel_init c u)" if "(tunnel_step ^^ n) (tunnel_init c u) t" for n t
    using tunnel_sys.run_length [OF that inv] by simp
  fix t
  assume t: "tunnel_step\<^sup>*\<^sup>* (tunnel_init c u) t \<and> (\<forall>v. \<not> tunnel_step t v)"
  then have "t = tunnel_final c u"
    using tunnel_sys.run_good [OF _ inv] tunnel_stuck [of t] tunnel_done_final by blast
  then show "tunnel c u = ((t_in_n t, t_out_n t), t_client t, t_upstream t)"
    by (simp add: tunnel_def Let_def)
qed

theorem tunnel_ends_in_one_result_witness:
  "\<exists>t. tunnel_step\<^sup>*\<^sup>* (tunnel_init (ex_conn [(''ping'', None)]) (ex_conn [(''pong!'', Some EOF)])) t \<and>
     tunnel (ex_conn [(''ping'', None)]) (ex_conn [(''pong!'', Some EOF)]) =
       ((t_in_n t, t_out_n t), t_client t, t_upstream t)"
proof -
  let ?c = "ex_conn [(''ping'', None)]" and ?u = "ex_conn [(''pong!'', Some EOF)]"
  obtain t where t: "tunnel_step\<^sup>*\<^sup>* (tunnel_init ?c ?u) t" "tunnel_done t"
    using tunnel_ends_in_one_result [of ?c ?u] by blast
  then have "\<forall>v. \<not> tunnel_step t v" by (simp add: tunnel_stuck)
  then show ?thesis using t(1) tunnel_ends_in_one_result [of ?c ?u] by blast
qed

text \<open>
  C12. Integrity: whatever fails on the way, each side has received, after what it had, a prefix
  of what the other side sent, and the counts returned are the lengths of exactly these prefixes.
  In each direction, when no deadline call on its source fails and no write or deadline call on
  its destination, the prefix is everything the sending side sent.
\<close>

theorem tunnel_relays_prefixes:
  assumes "tunnel c u = ((bytesIn, bytesOut), c', u')"
  shows "(\<exists>i. w_out (wside c') = w_out (wside c) @ i \<and> prefix i (script_bytes (r_script (rside u))) \<and>
       bytesIn = int (length i)) \<and>
    (\<exists>j. w_out (wside u') = w_out (wside u) @ j \<and> prefix j (script_bytes (r_script (rside c))) \<and>
       bytesOut = int (length j)) \<and>
    (list_all Not (r_dl (rside u)) \<and> list_all Not (w_dl (wside c)) \<and>
       list_all (\<lambda>x. x = None) (w_script (wside c)) \<longrightarrow>
       w_out (wside c') = w_out (wside c) @ script_bytes (r_script (rside u)) \<and>
       bytesIn = int (length (script_bytes (r_script (rside u))))) \<and>
    (list_all Not (r_dl (rside c)) \<and> list_all Not (w_dl (wside u)) \<and>
       list_all (\<lambda>x. x = None) (w_script (wside u)) \<longrightarrow>
       w_out (wside u') = w_out (wside u) @ script_bytes (r_script (rside c)) \<and>
       bytesOut = int (length (script_bytes (r_script (rside c)))))"
proof -
  have r: "bytesIn = d_n (in_dir (tunnel_final c u))" "bytesOut = d_n (out_dir (tunnel_final c u))"
    "wside c' = d_dst (in_dir (tunnel_final c u))" "wside u' = d_dst (out_dir (tunnel_final c u))"
    using tunnel_results [of c u] by (simp_all add: assms)
  have i: "\<exists>k. w_out (wside c') = w_out (wside c) @ k \<and> bytesIn = int (length k) \<and>
      prefix k (script_bytes (r_script (rside u)))"
    using copy_run_out [of "in_cfg c u" "in_dir (tunnel_init c u)"] by (auto simp: r tunnel_in_dir init_dirs)
  have o: "\<exists>k. w_out (wside u') = w_out (wside u) @ k \<and> bytesOut = int (length k) \<and>
      prefix k (script_bytes (r_script (rside c)))"
    using copy_run_out [of "out_cfg c u" "out_dir (tunnel_init c u)"]
    by (auto simp: r tunnel_out_dir init_dirs)
  have ci: "clean_dir (in_dir (tunnel_init c u)) \<Longrightarrow>
      w_out (wside c') = w_out (wside c) @ script_bytes (r_script (rside u))"
    by (simp add: r tunnel_in_dir copy_run_clean init_dirs)
  have co: "clean_dir (out_dir (tunnel_init c u)) \<Longrightarrow>
      w_out (wside u') = w_out (wside u) @ script_bytes (r_script (rside c))"
    by (simp add: r tunnel_out_dir copy_run_clean init_dirs)
  show ?thesis using i o ci co by (auto simp: clean_dir_def init_dirs)
qed

theorem tunnel_relays_prefixes_witness:
  "w_out (wside (fst (snd (tunnel (ex_conn [(''ping'', None)]) (ex_conn [(''pong!'', Some EOF)]))))) = ''pong!'' \<and>
   w_out (wside (snd (snd (tunnel (ex_conn [(''ping'', None)]) (ex_conn [(''pong!'', Some EOF)]))))) = ''ping'' \<and>
   fst (tunnel (ex_conn [(''ping'', None)]) (ex_conn [(''pong!'', Some EOF)])) = (5, 4)"
proof -
  let ?c = "ex_conn [(''ping'', None)]" and ?u = "ex_conn [(''pong!'', Some EOF)]"
  obtain bi bo c' u' where t: "tunnel ?c ?u = ((bi, bo), c', u')" by (metis prod.exhaust)
  have "w_out (wside c') = ''pong!''" "w_out (wside u') = ''ping''" "bi = 5" "bo = 4"
    using tunnel_relays_prefixes [OF t] by (simp_all add: ex_conn_def)
  then show ?thesis by (simp add: t)
qed

text \<open>
  C33. Half-close: with an idle timeout the wrapped connections never satisfy the
  \<open>closeWriter\<close> assertion, so the end of one direction is never passed on to the other
  side; only with the timeout disabled does each side get the CloseWrite its type offers.
\<close>

theorem half_close_needs_no_timeout:
  assumes "layers c = []" "layers u = []"
    and "tunnel (wrapIdleTimeout c T) (wrapIdleTimeout u T) = (n, c', u')"
  shows "w_shut (wside c') = (w_shut (wside c) \<or> T \<le> 0 \<and> half c) \<and>
    w_shut (wside u') = (w_shut (wside u) \<or> T \<le> 0 \<and> half u)"
proof -
  let ?c = "wrapIdleTimeout c T" and ?u = "wrapIdleTimeout u T"
  have r: "wside c' = d_dst (in_dir (tunnel_final ?c ?u))" "wside u' = d_dst (out_dir (tunnel_final ?c ?u))"
    using tunnel_results [of ?c ?u] by (simp_all add: assms(3))
  have k: "is_closeWriter (wrapIdleTimeout x T) = (T \<le> 0 \<and> half x)" if "layers x = []" for x
    using that by (simp add: is_closeWriter_def wrapIdleTimeout_def)
  have "w_shut (wside c') = (w_shut (wside c) \<or> dst_close (in_cfg ?c ?u))"
    using copy_run_shut [of "in_dir (tunnel_init ?c ?u)" "in_cfg ?c ?u"]
    by (simp add: r tunnel_in_dir init_dirs)
  moreover have "w_shut (wside u') = (w_shut (wside u) \<or> dst_close (out_cfg ?c ?u))"
    using copy_run_shut [of "out_dir (tunnel_init ?c ?u)" "out_cfg ?c ?u"]
    by (simp add: r tunnel_out_dir init_dirs)
  ultimately show ?thesis by (simp add: in_cfg_def out_cfg_def k assms(1,2))
qed

theorem half_close_needs_no_timeout_witness:
  "\<not> w_shut (wside (snd (snd (tunnel (wrapIdleTimeout (ex_conn []) 90) (wrapIdleTimeout (ex_conn []) 90))))) \<and>
   w_shut (wside (snd (snd (tunnel (wrapIdleTimeout (ex_conn []) 0) (wrapIdleTimeout (ex_conn []) 0)))))"
proof -
  have e: "layers (ex_conn []) = []" "half (ex_conn [])" "\<not> w_shut (wside (ex_conn []))"
    by (simp_all add: ex_conn_def)
  obtain n c' u' where t: "tunnel (wrapIdleTimeout (ex_conn []) 90) (wrapIdleTimeout (ex_conn []) 90) = (n, c', u')"
    by (metis prod.exhaust)
  obtain m d v where z: "tunnel (wrapIdleTimeout (ex_conn []) 0) (wrapIdleTimeout (ex_conn []) 0) = (m, d, v)"
    by (metis prod.exhaust)
  show ?thesis
    using half_close_needs_no_timeout [OF e(1) e(1) t] half_close_needs_no_timeout [OF e(1) e(1) z] e
    by (simp add: t z)
qed

end
