(* ===== verification/Connect.thy ===== *)
theory Connect
  imports Forward Tunnel
begin

text \<open>
  The CONNECT path (internal/proxy/handler.go): \<open>handleConnect\<close>, \<open>denyConnect\<close>,
  \<open>writeHeader\<close>, and the dispatcher \<open>ServeHTTP\<close>.

  The upstream's reply is read as bytes: chunks are read from the connection into a buffer
  until the status line and the header block are complete, as \<open>http.ReadResponse\<close> does
  over a \<open>bufio.Reader\<close>. What the library makes of the header lines is an argument:
  None for a malformed block, otherwise how many further reads closing the response body makes,
  given the bytes still buffered and the connection (none when the headers announce no body).
  The library rejects a malformed block at its first bad line, the model at its end; the result
  is the same.
\<close>

section \<open>Reading the reply\<close>

fun read_line :: "string \<Rightarrow> string \<Rightarrow> (string \<times> string) option" where
  "read_line acc [] = None"
| "read_line acc (c # s) =
     (if c = CHR 0x0A then
        Some (case acc of (d # ds) \<Rightarrow> if d = CHR 0x0D then rev ds else rev acc | [] \<Rightarrow> [], s)
      else read_line (c # acc) s)"

lemma read_line_shorter: "read_line acc s = Some (l, r) \<Longrightarrow> length r < length s"
  by (induction acc s rule: read_line.induct) (auto split: if_splits)

text \<open>The header lines up to the empty line.\<close>

function read_block :: "string \<Rightarrow> (string list \<times> string) option" where
  "read_block s =
     (case read_line [] s of
        None \<Rightarrow> None
      | Some (l, r) \<Rightarrow>
          if l = [] then Some ([], r)
          else map_option (\<lambda>(ls, r'). (l # ls, r')) (read_block r))"
  by pat_completeness auto
termination
  by (relation "measure length") (auto dest: read_line_shorter)

declare read_block.simps [simp del]

definition cut_space :: "string \<Rightarrow> (string \<times> string) option" where
  "cut_space s = (case Index s '' '' of None \<Rightarrow> None | Some i \<Rightarrow> Some (take i s, drop (Suc i) s))"

text \<open>\<open>http.ParseHTTPVersion\<close>: two single digits after the protocol name.\<close>

definition version_ok :: "string \<Rightarrow> bool" where
  "version_ok p \<longleftrightarrow>
     (case p of
        [h, t1, t2, q, sl, a, d, b] \<Rightarrow>
          [h, t1, t2, q, sl] = ''HTTP/'' \<and> is_digit a \<and> d = CHR ''.'' \<and> is_digit b
      | _ \<Rightarrow> False)"

text \<open>
  Three bytes that \<open>strconv.Atoi\<close> reads as a number of at least 0: digits, or a sign
  and two digits where the number is not negative.
\<close>

definition atoi3 :: "string \<Rightarrow> nat option" where
  "atoi3 s =
     (if length s \<noteq> 3 then None
      else if list_all is_digit s then Some (dec_val s)
      else if s ! 0 = CHR ''+'' \<and> list_all is_digit (tl s) then Some (dec_val (tl s))
      else if s = ''-00'' then Some 0
      else None)"

definition parse_status :: "string \<Rightarrow> (nat \<times> string) option" where
  "parse_status line =
     (case cut_space line of
        None \<Rightarrow> None
      | Some (proto, st0) \<Rightarrow>
          let status = dropWhile (\<lambda>c. c = CHR '' '') st0;
              codeStr = (case cut_space status of None \<Rightarrow> status | Some (a, b) \<Rightarrow> a)
          in case atoi3 codeStr of
               None \<Rightarrow> None
             | Some code \<Rightarrow> if version_ok proto then Some (code, status) else None)"

type_synonym mime_lib = "string list \<Rightarrow> (string \<Rightarrow> net_conn \<Rightarrow> nat) option"

record reply =
  rp_code :: nat
  rp_status :: string
  rp_body_reads :: "string \<Rightarrow> net_conn \<Rightarrow> nat"

datatype parse = NeedMore | Malformed | Parsed reply string

definition parse_reply :: "mime_lib \<Rightarrow> string \<Rightarrow> parse" where
  "parse_reply mime buf =
     (case read_line [] buf of
        None \<Rightarrow> NeedMore
      | Some (line, r) \<Rightarrow>
          (case parse_status line of
             None \<Rightarrow> Malformed
           | Some (code, status) \<Rightarrow>
               (case read_block r of
                  None \<Rightarrow> NeedMore
                | Some (lines, rest) \<Rightarrow>
                    (case mime lines of
                       None \<Rightarrow> Malformed
                     | Some n \<Rightarrow>
                         Parsed \<lparr>rp_code = code, rp_status = status, rp_body_reads = n\<rparr> rest))))"

text \<open>
  The reply, if one comes, with the connection and the bytes left in the buffer. The buffer
  belongs to the reader the handler creates for this call.
\<close>

function read_reply ::
  "mime_lib \<Rightarrow> string \<Rightarrow> net_conn \<Rightarrow> (reply \<times> string) option \<times> net_conn" where
  "read_reply mime buf c =
     (case parse_reply mime buf of
        Parsed rp rest \<Rightarrow> (Some (rp, rest), c)
      | Malformed \<Rightarrow> (None, c)
      | NeedMore \<Rightarrow>
          (case nc_Read c of
             (p, None, c') \<Rightarrow> read_reply mime (buf @ p) c'
           | (p, Some e, c') \<Rightarrow>
               (case parse_reply mime (buf @ p) of
                  Parsed rp rest \<Rightarrow> (Some (rp, rest), c')
                | _ \<Rightarrow> (None, c'))))"
  by pat_completeness auto
termination
  by (relation "measure (\<lambda>(m, b, c). length (r_script (rside c)))")
    (auto dest!: nc_Read_script [OF sym])

declare read_reply.simps [simp del]

text \<open>Closing the body makes this many further reads.\<close>

fun drain :: "nat \<Rightarrow> net_conn \<Rightarrow> net_conn" where
  "drain 0 c = c"
| "drain (Suc n) c = (case nc_Read c of (p, e, c') \<Rightarrow> drain n c')"

section \<open>Writing the request\<close>

text \<open>\<open>writeHeader\<close>: one formatted write; the flag is whether it failed.\<close>

definition write_all :: "string \<Rightarrow> net_conn \<Rightarrow> bool \<times> net_conn" where
  "write_all s c = (case nc_Write s c of (n, e, c') \<Rightarrow> (e \<noteq> None, c'))"

definition writeHeader :: "string \<Rightarrow> string \<Rightarrow> net_conn \<Rightarrow> bool \<times> net_conn" where
  "writeHeader name value c = write_all (header_line name value) c"

fun write_extra :: "string gomap \<Rightarrow> net_conn \<Rightarrow> bool \<times> net_conn" where
  "write_extra [] c = (False, c)"
| "write_extra ((name, value) # es) c =
     (case writeHeader name value c of
        (True, c') \<Rightarrow> (True, c')
      | (False, c') \<Rightarrow> write_extra es c')"

definition write_auth :: "string \<Rightarrow> net_conn \<Rightarrow> bool \<times> net_conn" where
  "write_auth auth c =
     (if auth \<noteq> [] then writeHeader ''Proxy-Authorization'' auth c else (False, c))"

definition connect_line :: "string \<Rightarrow> string" where
  "connect_line host = ''CONNECT '' @ host @ '' HTTP/1.1'' @ crlf"

text \<open>
  The whole CONNECT request with the early returns; only the failure of the first write is
  logged.
\<close>

datatype write_end = Written | FirstFailed | LaterFailed

definition write_connect :: "handler \<Rightarrow> string \<Rightarrow> net_conn \<Rightarrow> write_end \<times> net_conn" where
  "write_connect h host c0 =
     (case write_all (connect_line host) c0 of
        (True, c1) \<Rightarrow> (FirstFailed, c1)
      | (False, c1) \<Rightarrow>
          (case writeHeader ''Host'' host c1 of
             (True, c2) \<Rightarrow> (LaterFailed, c2)
           | (False, c2) \<Rightarrow>
               (case write_auth (UpstreamAuth h) c2 of
                  (True, c3) \<Rightarrow> (LaterFailed, c3)
                | (False, c3) \<Rightarrow>
                    (case write_extra (ExtraHeaders h) c3 of
                       (True, c4) \<Rightarrow> (LaterFailed, c4)
                     | (False, c4) \<Rightarrow>
                         (case write_all crlf c4 of
                            (True, c5) \<Rightarrow> (LaterFailed, c5)
                          | (False, c5) \<Rightarrow> (Written, c5))))))"

section \<open>The handler\<close>

record connect_env =
  ce_start :: int
  ce_log :: int
  ce_hijacker :: bool
  ce_hijack :: "(net_conn \<times> string) option"
  ce_dial :: dial_env
  ce_mime :: mime_lib

text \<open>
  How the call ended: the connections it took over and opened, as the deferred calls leave them,
  and whether it returned or panicked.
\<close>

record connect_result =
  cr_client :: "net_conn option"
  cr_upstream :: "net_conn option"
  cr_end :: run_end

definition denyConnect ::
  "go_lib \<Rightarrow> handler \<Rightarrow> int \<Rightarrow> request \<Rightarrow> string \<Rightarrow> port \<Rightarrow> string \<Rightarrow> pstate \<Rightarrow> pstate" where
  "denyConnect lib h now r host port reason s =
     reply_error (''forbidden: '' @ reason) StatusForbidden
       (metric (RequestsTotal ''CONNECT'' ''deny'')
         (audit_log (zero_event\<lparr>Timestamp := now, ClientAddr := RemoteAddr r,
            SPIFFE := spiffeFromRequest (url_Parse lib) (TrustXFCCHeader h) r,
            EMethod := ''CONNECT'', TargetHost := host, TargetPort := port,
            Decision := ''deny'', DenyReason := reason, EStatus := StatusForbidden\<rparr>) s))"

definition bad_gateway_reply :: string where
  "bad_gateway_reply = ''HTTP/1.1 502 Bad Gateway'' @ crlf @ crlf"

definition established_reply :: string where
  "established_reply = ''HTTP/1.1 200 Connection established'' @ crlf @ crlf"

definition reject_reply :: "nat \<Rightarrow> string \<Rightarrow> string" where
  "reject_reply code status = ''HTTP/1.1 '' @ nat_dec code @ '' '' @ status @ crlf @ crlf"

definition best_effort :: "string \<Rightarrow> net_conn \<Rightarrow> net_conn" where
  "best_effort t c = snd (write_all t c)"

text \<open>From the upstream's 200 on: confirm, flush what the client already sent, tunnel, log.\<close>

definition run_tunnel ::
  "go_lib \<Rightarrow> handler \<Rightarrow> connect_env \<Rightarrow> request \<Rightarrow> string \<Rightarrow> port \<Rightarrow> net_conn \<Rightarrow> string \<Rightarrow> net_conn \<Rightarrow>
   pstate \<Rightarrow> pstate \<times> net_conn \<times> net_conn" where
  "run_tunnel lib h env r host port client buffered upstream s =
     (case write_all established_reply client of
        (True, client1) \<Rightarrow> (s, client1, upstream)
      | (False, client1) \<Rightarrow>
          (case (if buffered \<noteq> [] then write_all buffered upstream else (False, upstream)) of
             (True, upstream1) \<Rightarrow> (s, client1, upstream1)
           | (False, upstream1) \<Rightarrow>
               (case tunnel (wrapIdleTimeout client1 (IdleTimeout h)) upstream1 of
                  ((bytesIn, bytesOut), client2, upstream2) \<Rightarrow>
                    (let s1 = metric (BytesTransferred ''client_to_upstream'' bytesOut) s;
                         s2 = metric (BytesTransferred ''upstream_to_client'' bytesIn) s1;
                         s3 = audit_log (zero_event\<lparr>Timestamp := ce_start env,
                                ClientAddr := RemoteAddr r,
                                SPIFFE := spiffeFromRequest (url_Parse lib) (TrustXFCCHeader h) r,
                                EMethod := ''CONNECT'', TargetHost := host, TargetPort := port,
                                EUpstreamProxy := UpstreamProxy h, Decision := ''allow'',
                                EStatus := 200, BytesIn := bytesIn, BytesOut := bytesOut,
                                DurationMS := Milliseconds (ce_log env - ce_start env)\<rparr>) s2
                     in (metric (RequestsTotal ''CONNECT'' ''allow'') s3, client2, upstream2)))))"

text \<open>With the upstream connected: the exchange up to the deferred calls.\<close>

definition connect_upstream ::
  "go_lib \<Rightarrow> handler \<Rightarrow> connect_env \<Rightarrow> request \<Rightarrow> string \<Rightarrow> port \<Rightarrow> net_conn \<Rightarrow> string \<Rightarrow> net_conn \<Rightarrow>
   pstate \<Rightarrow> pstate \<times> net_conn \<times> net_conn" where
  "connect_upstream lib h env r host port client buffered upstream0 s =
     (case write_connect h (Host r) upstream0 of
        (FirstFailed, upstream) \<Rightarrow> (diag LevelError ''write CONNECT failed'' s, client, upstream)
      | (LaterFailed, upstream) \<Rightarrow> (s, client, upstream)
      | (Written, upstream) \<Rightarrow>
          (case read_reply (ce_mime env) [] upstream of
             (None, upstream1) \<Rightarrow>
               (metric (RequestsTotal ''CONNECT'' ''upstream_error'')
                 (diag LevelError ''read upstream CONNECT response failed'' s),
                best_effort bad_gateway_reply client, upstream1)
           | (Some (rp, leftover), upstream1) \<Rightarrow>
               (let upstream2 = drain (rp_body_reads rp leftover upstream1) upstream1 in
                if rp_code rp \<noteq> StatusOK then
                  (metric (RequestsTotal ''CONNECT'' ''upstream_rejected'')
                    (diag LevelWarn ''upstream CONNECT rejected'' s),
                   best_effort (reject_reply (rp_code rp) (rp_status rp)) client, upstream2)
                else run_tunnel lib h env r host port client buffered upstream2 s)))"

text \<open>
  The whole handler. A dial that panics runs only the deferred close of the client's connection:
  no answer, no counter.
\<close>

definition handleConnect ::
  "go_lib \<Rightarrow> handler \<Rightarrow> watcher \<Rightarrow> connect_env \<Rightarrow> request \<Rightarrow> pstate \<Rightarrow> pstate \<times> connect_result" where
  "handleConnect lib h w env r s =
     (let (targetHost, targetPort) = splitHostPort (Host r) 443 in
      if \<not> fst (AllowHost (unicode_lower lib) w targetHost targetPort) then
        (denyConnect lib h (ce_log env) r targetHost targetPort deny_reason s,
         \<lparr>cr_client = None, cr_upstream = None, cr_end = Returned\<rparr>)
      else if \<not> ce_hijacker env then
        (reply_error ''hijacking not supported'' StatusInternalServerError s,
         \<lparr>cr_client = None, cr_upstream = None, cr_end = Returned\<rparr>)
      else case ce_hijack env of
        None \<Rightarrow> (diag LevelError ''hijack failed'' s, \<lparr>cr_client = None, cr_upstream = None, cr_end = Returned\<rparr>)
      | Some (client, buffered) \<Rightarrow>
          (case fst (dialUpstream h (ce_dial env)) of
             Inl e \<Rightarrow>
               if e = NilConfig then
                 (s, \<lparr>cr_client = Some (nc_Close client), cr_upstream = None, cr_end = Panicked\<rparr>)
               else
                 (metric (RequestsTotal ''CONNECT'' ''upstream_error'')
                   (diag LevelError ''upstream dial failed'' (metric DialErrors s)),
                  \<lparr>cr_client = Some (nc_Close (best_effort bad_gateway_reply client)),
                   cr_upstream = None, cr_end = Returned\<rparr>)
           | Inr conn \<Rightarrow>
               (case connect_upstream lib h env r targetHost targetPort client buffered
                       (wrapIdleTimeout conn (IdleTimeout h)) (metric ActiveInc s) of
                  (s1, client1, upstream1) \<Rightarrow>
                    (metric ActiveDec s1,
                     \<lparr>cr_client = Some (nc_Close client1),
                      cr_upstream = Some (nc_Close upstream1), cr_end = Returned\<rparr>))))"

definition MethodConnect :: string where
  "MethodConnect = ''CONNECT''"

text \<open>What one call of the dispatcher leaves: the shared state and, for CONNECT, the connections.\<close>

definition ServeHTTP ::
  "go_lib \<Rightarrow> handler \<Rightarrow> watcher \<Rightarrow> fwd_env \<Rightarrow> connect_env \<Rightarrow> request \<Rightarrow> pstate \<Rightarrow>
   pstate \<times> connect_result option" where
  "ServeHTTP lib h w fenv cenv r s =
     (if Method r = MethodConnect then
        (case handleConnect lib h w cenv r s of (s1, res) \<Rightarrow> (s1, Some res))
      else (fst (handleHTTPForward lib h w fenv r s), None))"

section \<open>The handler, branch by branch\<close>

definition connect_target :: "request \<Rightarrow> string \<times> port" where
  "connect_target r = splitHostPort (Host r) 443"

definition connect_allowed :: "go_lib \<Rightarrow> watcher \<Rightarrow> request \<Rightarrow> bool" where
  "connect_allowed lib w r \<longleftrightarrow>
     fst (AllowHost (unicode_lower lib) w (fst (connect_target r)) (snd (connect_target r)))"

lemma connect_deny:
  "\<not> connect_allowed lib w r \<Longrightarrow> handleConnect lib h w env r s =
     (denyConnect lib h (ce_log env) r (fst (connect_target r)) (snd (connect_target r))
        deny_reason s, \<lparr>cr_client = None, cr_upstream = None, cr_end = Returned\<rparr>)"
  by (simp add: handleConnect_def connect_allowed_def connect_target_def case_prod_unfold Let_def)

lemma connect_dial_error:
  "connect_allowed lib w r \<Longrightarrow> ce_hijacker env \<Longrightarrow> ce_hijack env = Some (client, buffered) \<Longrightarrow>
   fst (dialUpstream h (ce_dial env)) = Inl e \<Longrightarrow> e \<noteq> NilConfig \<Longrightarrow>
   handleConnect lib h w env r s =
     (metric (RequestsTotal ''CONNECT'' ''upstream_error'')
        (diag LevelError ''upstream dial failed'' (metric DialErrors s)),
      \<lparr>cr_client = Some (nc_Close (best_effort bad_gateway_reply client)), cr_upstream = None,
       cr_end = Returned\<rparr>)"
  by (simp add: handleConnect_def connect_allowed_def connect_target_def case_prod_unfold Let_def)

lemma connect_panic:
  "connect_allowed lib w r \<Longrightarrow> ce_hijacker env \<Longrightarrow> ce_hijack env = Some (client, buffered) \<Longrightarrow>
   fst (dialUpstream h (ce_dial env)) = Inl NilConfig \<Longrightarrow>
   handleConnect lib h w env r s =
     (s, \<lparr>cr_client = Some (nc_Close client), cr_upstream = None, cr_end = Panicked\<rparr>)"
  by (simp add: handleConnect_def connect_allowed_def connect_target_def case_prod_unfold Let_def)

lemma connect_connected:
  "connect_allowed lib w r \<Longrightarrow> ce_hijacker env \<Longrightarrow> ce_hijack env = Some (client, buffered) \<Longrightarrow>
   fst (dialUpstream h (ce_dial env)) = Inr conn \<Longrightarrow>
   handleConnect lib h w env r s =
     (case connect_upstream lib h env r (fst (connect_target r)) (snd (connect_target r)) client
             buffered (wrapIdleTimeout conn (IdleTimeout h)) (metric ActiveInc s) of
        (s1, client1, upstream1) \<Rightarrow>
          (metric ActiveDec s1,
           \<lparr>cr_client = Some (nc_Close client1), cr_upstream = Some (nc_Close upstream1),
            cr_end = Returned\<rparr>))"
  by (simp add: handleConnect_def connect_allowed_def connect_target_def case_prod_unfold Let_def)

text \<open>No upstream connection is touched unless the ACL allows the target.\<close>

lemma connect_upstream_allowed:
  "cr_upstream (snd (handleConnect lib h w env r s)) \<noteq> None \<Longrightarrow> connect_allowed lib w r"
  using connect_deny [of lib w r h env s] by fastforce

section \<open>Writing to a connection that takes everything\<close>

definition clean_write :: "net_conn \<Rightarrow> bool" where
  "clean_write c \<longleftrightarrow> list_all Not (w_dl (wside c)) \<and> list_all (\<lambda>x. x = None) (w_script (wside c))"

lemma write_all_clean:
  assumes "clean_write c"
  shows "fst (write_all s c) = False" "clean_write (snd (write_all s c))"
    "w_out (wside (snd (write_all s c))) = w_out (wside c) @ s"
    "rside (snd (write_all s c)) = rside c" "layers (snd (write_all s c)) = layers c"
    "half (snd (write_all s c)) = half c"
proof -
  obtain n e w where w: "layer_write (layers c) s (wside c) = (n, e, w)" by (metis prod_cases3)
  have cl: "e = None \<and> n = length s \<and> list_all Not (w_dl w) \<and> list_all (\<lambda>x. x = None) (w_script w)"
    using layer_write_clean [OF w] assms by (simp add: clean_write_def)
  show "fst (write_all s c) = False" "clean_write (snd (write_all s c))"
    "w_out (wside (snd (write_all s c))) = w_out (wside c) @ s"
    "rside (snd (write_all s c)) = rside c" "layers (snd (write_all s c)) = layers c"
    "half (snd (write_all s c)) = half c"
    using cl layer_write_out [OF w] by (simp_all add: write_all_def nc_Write_def w clean_write_def)
qed

lemma clean_wrap [simp]: "clean_write (wrapIdleTimeout c t) = clean_write c"
  by (simp add: clean_write_def)

definition extra_lines :: "string gomap \<Rightarrow> string" where
  "extra_lines es = concat (map (\<lambda>(n, v). header_line n v) es)"

text \<open>What a sequence of writes leaves of a connection, told from what it had.\<close>

definition wrote :: "string \<Rightarrow> net_conn \<Rightarrow> net_conn \<Rightarrow> bool" where
  "wrote s c c' \<longleftrightarrow> clean_write c' \<and> w_out (wside c') = w_out (wside c) @ s \<and>
     rside c' = rside c \<and> layers c' = layers c \<and> half c' = half c"

lemma wrote_trans: "wrote s c c' \<Longrightarrow> wrote t c' c'' \<Longrightarrow> wrote (s @ t) c c''"
  by (simp add: wrote_def)

lemma wroteD: "wrote s c c' \<Longrightarrow> clean_write c'"
  by (simp add: wrote_def)

lemma wrote_Nil: "clean_write c \<Longrightarrow> wrote [] c c"
  by (simp add: wrote_def)

lemma write_all_wrote:
  assumes "clean_write c"
  shows "\<exists>c'. write_all s c = (False, c') \<and> wrote s c c'"
proof -
  have "write_all s c = (False, snd (write_all s c))"
    using write_all_clean(1) [OF assms] by (metis prod.collapse)
  then show ?thesis using write_all_clean [OF assms] by (auto simp: wrote_def)
qed

lemma writeHeader_wrote:
  "clean_write c \<Longrightarrow> \<exists>c'. writeHeader nm v c = (False, c') \<and> wrote (header_line nm v) c c'"
  unfolding writeHeader_def by (rule write_all_wrote)

lemma write_extra_wrote:
  "clean_write c \<Longrightarrow> \<exists>c'. write_extra es c = (False, c') \<and> wrote (extra_lines es) c c'"
proof (induction es arbitrary: c)
  case Nil
  then show ?case by (simp add: extra_lines_def wrote_Nil)
next
  case (Cons e es)
  obtain nm v where e: "e = (nm, v)" by fastforce
  obtain c' where c': "writeHeader nm v c = (False, c')" "wrote (header_line nm v) c c'"
    using writeHeader_wrote [OF Cons.prems] by blast
  then have "clean_write c'" by (simp add: wrote_def)
  then obtain c'' where "write_extra es c' = (False, c'')" "wrote (extra_lines es) c' c''"
    using Cons.IH by blast
  then show ?case using c' wrote_trans [OF c'(2)] by (auto simp: e extra_lines_def)
qed

definition auth_line :: "string \<Rightarrow> string" where
  "auth_line auth = (if auth \<noteq> [] then header_line ''Proxy-Authorization'' auth else [])"

lemma write_auth_wrote:
  "clean_write c \<Longrightarrow> \<exists>c'. write_auth auth c = (False, c') \<and> wrote (auth_line auth) c c'"
  by (cases "auth = []") (simp_all add: write_auth_def auth_line_def wrote_Nil writeHeader_wrote)

text \<open>The CONNECT request as the upstream receives it.\<close>

definition connect_request :: "handler \<Rightarrow> string \<Rightarrow> string" where
  "connect_request h host =
     connect_line host @ header_line ''Host'' host @
     auth_line (UpstreamAuth h) @ extra_lines (ExtraHeaders h) @ crlf"

lemma write_connect_wrote:
  assumes "clean_write c"
  shows "\<exists>c'. write_connect h host c = (Written, c') \<and> wrote (connect_request h host) c c'"
proof -
  obtain c1 where c1: "write_all (connect_line host) c = (False, c1)" "wrote (connect_line host) c c1"
    using write_all_wrote [OF assms] by blast
  obtain c2 where c2: "writeHeader ''Host'' host c1 = (False, c2)"
    "wrote (header_line ''Host'' host) c1 c2"
    using writeHeader_wrote [OF wroteD [OF c1(2)]] by blast
  obtain c3 where c3: "write_auth (UpstreamAuth h) c2 = (False, c3)"
    "wrote (auth_line (UpstreamAuth h)) c2 c3"
    using write_auth_wrote [OF wroteD [OF c2(2)]] by blast
  obtain c4 where c4: "write_extra (ExtraHeaders h) c3 = (False, c4)"
    "wrote (extra_lines (ExtraHeaders h)) c3 c4"
    using write_extra_wrote [OF wroteD [OF c3(2)]] by blast
  obtain c5 where c5: "write_all crlf c4 = (False, c5)" "wrote crlf c4 c5"
    using write_all_wrote [OF wroteD [OF c4(2)]] by blast
  have "wrote (connect_request h host) c c5"
    using wrote_trans [OF wrote_trans [OF wrote_trans [OF wrote_trans [OF c1(2) c2(2)] c3(2)] c4(2)] c5(2)]
    by (simp add: connect_request_def)
  moreover have "write_connect h host c = (Written, c5)"
    by (simp only: write_connect_def c1(1) c2(1) c3(1) c4(1) c5(1) prod.case bool.case)
  ultimately show ?thesis by blast
qed

end
