(* ===== verification/Connect_Path.thy ===== *)
theory Connect_Path
  imports Connect
begin

text \<open>
  The CONNECT path from end to end: what the reply reader takes from the upstream's stream, what
  each side has received when a tunnel is over, the gauge and the counters on every way out, and
  the connections that are closed at the end.
\<close>

section \<open>What reading the reply takes from the stream\<close>

definition clean_read :: "net_conn \<Rightarrow> bool" where
  "clean_read c \<longleftrightarrow> list_all Not (r_dl (rside c)) \<and> list_all (\<lambda>(p, e). e = None) (r_script (rside c))"

abbreviation stream :: "net_conn \<Rightarrow> string" where
  "stream c \<equiv> script_bytes (r_script (rside c))"

lemma read_line_split: "read_line acc s = Some (l, r) \<Longrightarrow> \<exists>k. s = k @ r"
proof (induction acc s rule: read_line.induct)
  case (2 acc c s)
  show ?case
  proof (cases "c = CHR 0x0A")
    case True
    then have "c # s = [c] @ r" using "2.prems" by simp
    then show ?thesis by blast
  next
    case False
    then obtain k where "s = k @ r" using 2 by auto
    then have "c # s = (c # k) @ r" by simp
    then show ?thesis by blast
  qed
qed simp

lemma read_block_split: "read_block s = Some (ls, r) \<Longrightarrow> \<exists>k. s = k @ r"
proof (induction s arbitrary: ls r rule: read_block.induct)
  case (1 s)
  obtain l t where l: "read_line [] s = Some (l, t)"
    using "1.prems" by (auto simp: read_block.simps [of s] split: option.splits)
  obtain k where k: "s = k @ t" using read_line_split [OF l] by blast
  show ?case
  proof (cases "l = []")
    case True
    then have "t = r" using "1.prems" l by (simp add: read_block.simps [of s])
    then show ?thesis using k by blast
  next
    case False
    then obtain ls' where "read_block t = Some (ls', r)"
      using "1.prems" l by (auto simp: read_block.simps [of s])
    then obtain j where "t = j @ r" using "1.IH" [OF l refl False] by blast
    then have "s = (k @ j) @ r" using k by simp
    then show ?thesis by blast
  qed
qed

lemma parse_reply_split:
  assumes "parse_reply mime buf = Parsed rp rest"
  shows "\<exists>k. buf = k @ rest"
proof -
  obtain line r lines where l: "read_line [] buf = Some (line, r)" "read_block r = Some (lines, rest)"
    using assms by (auto simp: parse_reply_def split: option.splits)
  obtain j k where "buf = j @ r" "r = k @ rest"
    using read_line_split [OF l(1)] read_block_split [OF l(2)] by blast
  then have "buf = (j @ k) @ rest" by simp
  then show ?thesis by blast
qed

lemma clean_layer_read:
  "layer_read ls r = (p, e, r') \<Longrightarrow> list_all Not (r_dl r) \<Longrightarrow>
   list_all (\<lambda>(p, e). e = None) (r_script r) \<Longrightarrow>
   list_all Not (r_dl r') \<and> list_all (\<lambda>(p, e). e = None) (r_script r') \<and>
   script_bytes (r_script r) = p @ script_bytes (r_script r')"
proof (induction ls r rule: layer_read.induct)
  case (1 r)
  then show ?case by (auto simp: raw_read_def split: list.splits)
next
  case (2 t ts r)
  obtain err ds where d: "pop_dl (r_dl r) = (err, ds)" by fastforce
  have "\<not> err \<and> list_all Not ds"
    using d "2.prems"(2) by (auto simp: pop_dl_def split: list.splits)
  then show ?case using 2 d by (auto simp: Let_def)
qed

lemma clean_nc_Read:
  assumes "nc_Read c = (p, e, c')" "clean_read c"
  shows "clean_read c' \<and> stream c = p @ stream c' \<and> wside c' = wside c \<and> layers c' = layers c \<and>
    half c' = half c"
proof -
  obtain r where r: "layer_read (layers c) (rside c) = (p, e, r)" "c' = c\<lparr>rside := r\<rparr>"
    using assms(1) by (auto simp: nc_Read_def split: prod.splits)
  show ?thesis using clean_layer_read [OF r(1)] assms(2) r(2) by (auto simp: clean_read_def)
qed

text \<open>
  The stream is the reply, then what is left over in the reader's buffer, then what the
  connection still yields.
\<close>

lemma read_reply_stream:
  assumes "read_reply mime buf c = (Some (rp, rest), c')" "clean_read c"
  shows "clean_read c' \<and> wside c' = wside c \<and> layers c' = layers c \<and> half c' = half c \<and>
    (\<exists>k. buf @ stream c = k @ rest @ stream c' \<and> parse_reply mime (k @ rest) = Parsed rp rest)"
  using assms
proof (induction mime buf c rule: read_reply.induct)
  case (1 mime buf c)
  note eq = read_reply.simps [of mime buf c]
  show ?case
  proof (cases "parse_reply mime buf")
    case NeedMore
    obtain p e d where rd: "nc_Read c = (p, e, d)" by (metis prod_cases3)
    note d = clean_nc_Read [OF rd "1.prems"(2)]
    show ?thesis
    proof (cases e)
      case None
      then have "read_reply mime (buf @ p) d = (Some (rp, rest), c')"
        using "1.prems"(1) eq NeedMore rd by simp
      then show ?thesis using "1.IH" [OF NeedMore rd [symmetric] refl None] d by auto
    next
      case (Some er)
      then have ps: "parse_reply mime (buf @ p) = Parsed rp rest" "c' = d"
        using "1.prems"(1) eq NeedMore rd by (auto split: parse.splits)
      obtain k where "buf @ p = k @ rest" using parse_reply_split [OF ps(1)] by blast
      then show ?thesis using d ps by (intro conjI exI [of _ k]) simp_all
    qed
  next
    case Malformed
    then show ?thesis using "1.prems"(1) eq by simp
  next
    case (Parsed rp' rest')
    then have p: "rp' = rp" "rest' = rest" "c' = c" using "1.prems"(1) eq by auto
    obtain k where "buf = k @ rest" using parse_reply_split [OF Parsed] p by blast
    then show ?thesis using Parsed p "1.prems"(2) by (intro conjI exI [of _ k]) simp_all
  qed
qed

section \<open>A tunnel from end to end\<close>

text \<open>
  Both directions of a tunnel over connections without failing writes or deadlines deliver
  everything.
\<close>

lemma tunnel_clean:
  assumes "clean_write c" "clean_write u" "list_all Not (r_dl (rside c))" "list_all Not (r_dl (rside u))"
  shows "w_out (wside (fst (snd (tunnel c u)))) = w_out (wside c) @ stream u"
    "w_out (wside (snd (snd (tunnel c u)))) = w_out (wside u) @ stream c"
    "fst (fst (tunnel c u)) = int (length (stream u))"
    "snd (fst (tunnel c u)) = int (length (stream c))"
proof -
  have cl: "clean_dir (out_dir (tunnel_init c u))" "clean_dir (in_dir (tunnel_init c u))"
    using assms by (simp_all add: clean_dir_def clean_write_def init_dirs)
  show o: "w_out (wside (fst (snd (tunnel c u)))) = w_out (wside c) @ stream u"
    "w_out (wside (snd (snd (tunnel c u)))) = w_out (wside u) @ stream c"
    by (simp_all add: tunnel_results tunnel_out_dir tunnel_in_dir copy_run_clean cl init_dirs)
  obtain i where i: "w_out (d_dst (in_dir (tunnel_final c u))) = w_out (wside c) @ i"
    "d_n (in_dir (tunnel_final c u)) = int (length i)"
    using copy_run_out [of "in_cfg c u" "in_dir (tunnel_init c u)"]
    by (auto simp: tunnel_in_dir init_dirs)
  obtain j where j: "w_out (d_dst (out_dir (tunnel_final c u))) = w_out (wside u) @ j"
    "d_n (out_dir (tunnel_final c u)) = int (length j)"
    using copy_run_out [of "out_cfg c u" "out_dir (tunnel_init c u)"]
    by (auto simp: tunnel_out_dir init_dirs)
  show "fst (fst (tunnel c u)) = int (length (stream u))"
    "snd (fst (tunnel c u)) = int (length (stream c))"
    using i j o by (simp_all add: tunnel_results)
qed

text \<open>
  From the upstream's 200 on, without failures: the client has the confirmation and the bytes
  the upstream connection still had, the upstream the bytes the client had sent early and its
  stream; both counts are logged and counted.
\<close>

lemma run_tunnel_clean:
  assumes "clean_write client" "clean_write up" "clean_read client" "clean_read up"
  shows "\<exists>client' up'. run_tunnel lib h env r host port client buffered up s =
      (metric (RequestsTotal ''CONNECT'' ''allow'')
        (audit_log (zero_event\<lparr>Timestamp := ce_start env, ClientAddr := RemoteAddr r,
           SPIFFE := spiffeFromRequest (url_Parse lib) (TrustXFCCHeader h) r,
           EMethod := ''CONNECT'', TargetHost := host, TargetPort := port,
           EUpstreamProxy := UpstreamProxy h, Decision := ''allow'', EStatus := 200,
           BytesIn := int (length (stream up)), BytesOut := int (length (stream client)),
           DurationMS := Milliseconds (ce_log env - ce_start env)\<rparr>)
          (metric (BytesTransferred ''upstream_to_client'' (int (length (stream up))))
            (metric (BytesTransferred ''client_to_upstream'' (int (length (stream client)))) s))),
       client', up') \<and>
     w_out (wside client') = w_out (wside client) @ established_reply @ stream up \<and>
     w_out (wside up') = w_out (wside up) @ buffered @ stream client"
proof -
  obtain c1 where c1: "write_all established_reply client = (False, c1)"
    "wrote established_reply client c1" using write_all_wrote [OF assms(1)] by blast
  obtain u1 where u1: "(if buffered \<noteq> [] then write_all buffered up else (False, up)) = (False, u1)"
    "wrote buffered up u1"
    using write_all_wrote [OF assms(2)] wrote_Nil [OF assms(2)] by (cases "buffered = []") force+
  let ?c = "wrapIdleTimeout c1 (IdleTimeout h)"
  obtain bi bo c2 u2 where t: "tunnel ?c u1 = ((bi, bo), c2, u2)" by (metis prod.exhaust)
  have cw: "clean_write ?c" "clean_write u1" using c1(2) u1(2) by (simp_all add: wrote_def)
  have rs: "rside ?c = rside client" "rside u1 = rside up" using c1(2) u1(2) by (simp_all add: wrote_def)
  have dl: "list_all Not (r_dl (rside ?c))" "list_all Not (r_dl (rside u1))"
    using assms(3,4) unfolding rs by (simp_all add: clean_read_def)
  have res: "w_out (wside c2) = w_out (wside client) @ established_reply @ stream up"
    "w_out (wside u2) = w_out (wside up) @ buffered @ stream client"
    "bi = int (length (stream up))" "bo = int (length (stream client))"
    using tunnel_clean [OF cw dl] c1(2) u1(2) unfolding rs t by (simp_all add: wrote_def)
  have "run_tunnel lib h env r host port client buffered up s =
      (metric (RequestsTotal ''CONNECT'' ''allow'')
        (audit_log (zero_event\<lparr>Timestamp := ce_start env, ClientAddr := RemoteAddr r,
           SPIFFE := spiffeFromRequest (url_Parse lib) (TrustXFCCHeader h) r,
           EMethod := ''CONNECT'', TargetHost := host, TargetPort := port,
           EUpstreamProxy := UpstreamProxy h, Decision := ''allow'', EStatus := 200,
           BytesIn := bi, BytesOut := bo,
           DurationMS := Milliseconds (ce_log env - ce_start env)\<rparr>)
          (metric (BytesTransferred ''upstream_to_client'' bi)
            (metric (BytesTransferred ''client_to_upstream'' bo) s))), c2, u2)"
    by (simp only: run_tunnel_def c1(1) u1(1) t prod.case bool.case Let_def)
  then show ?thesis unfolding res(3,4) using res(1,2) by blast
qed

section \<open>The handler from end to end\<close>

text \<open>
  C7. A tunnel from end to end, when nothing fails: the upstream has received the CONNECT
  request with the proxy's credentials and extra headers, then what the client sent before the
  confirmation, then the client's stream; the client has received the confirmation, then exactly
  what the upstream connection yields after the reads that served its reply. Bytes that came in
  the same read as the end of the reply (the leftover) are in neither: they are lost.
\<close>

theorem connect_end_to_end:
  assumes ok: "connect_allowed lib w r" "ce_hijacker env" "ce_hijack env = Some (client, buffered)"
      "fst (dialUpstream h (ce_dial env)) = Inr conn"
    and clean: "clean_write client" "clean_read client" "clean_write conn" "clean_read conn"
    and reply: "read_reply (ce_mime env) [] (snd (write_connect h (Host r) (wrapIdleTimeout conn (IdleTimeout h)))) =
      (Some (rp, leftover), up)"
      "rp_code rp = StatusOK" "rp_body_reads rp leftover up = 0"
  shows "\<exists>client' up' k.
    snd (handleConnect lib h w env r s) = \<lparr>cr_client = Some client', cr_upstream = Some up', cr_end = Returned\<rparr> \<and>
    stream conn = k @ leftover @ stream up \<and>
    parse_reply (ce_mime env) (k @ leftover) = Parsed rp leftover \<and>
    w_out (wside client') = w_out (wside client) @ established_reply @ stream up \<and>
    w_out (wside up') = w_out (wside conn) @ connect_request h (Host r) @ buffered @ stream client"
proof -
  let ?conn = "wrapIdleTimeout conn (IdleTimeout h)"
  have cw: "clean_write ?conn" using clean(3) by simp
  obtain c1 where c1: "write_connect h (Host r) ?conn = (Written, c1)"
    "wrote (connect_request h (Host r)) ?conn c1" using write_connect_wrote [OF cw] by blast
  have rd: "read_reply (ce_mime env) [] c1 = (Some (rp, leftover), up)" using reply(1) c1(1) by simp
  have cr: "clean_read c1" using clean(4) c1(2) by (simp add: clean_read_def wrote_def)
  note st = read_reply_stream [OF rd cr]
  then obtain k where k: "stream c1 = k @ leftover @ stream up"
    "parse_reply (ce_mime env) (k @ leftover) = Parsed rp leftover" by auto
  have up: "clean_write up" "clean_read up"
    using st c1(2) by (simp_all add: clean_write_def wrote_def)
  obtain client' up' s' where t:
    "run_tunnel lib h env r (fst (connect_target r)) (snd (connect_target r)) client buffered up
       (metric ActiveInc s) = (s', client', up')"
    "w_out (wside client') = w_out (wside client) @ established_reply @ stream up"
    "w_out (wside up') = w_out (wside up) @ buffered @ stream client"
    using run_tunnel_clean [OF clean(1) up(1) clean(2) up(2)] by metis
  have "connect_upstream lib h env r (fst (connect_target r)) (snd (connect_target r)) client buffered
      ?conn (metric ActiveInc s) = (s', client', up')"
    using c1(1) rd reply(2,3) t(1) by (simp add: connect_upstream_def)
  then have "snd (handleConnect lib h w env r s) =
      \<lparr>cr_client = Some (nc_Close client'), cr_upstream = Some (nc_Close up'), cr_end = Returned\<rparr>"
    by (simp add: connect_connected [OF ok])
  moreover have "w_out (wside up') = w_out (wside conn) @ connect_request h (Host r) @ buffered @ stream client"
    using t(3) st c1(2) by (simp add: wrote_def)
  moreover have "stream conn = stream c1" using c1(2) by (simp add: wrote_def)
  ultimately show ?thesis using t(2) k by (auto simp: nc_Close_def)
qed

section \<open>The gauge and the closed connections\<close>

lemma run_tunnel_active:
  "active_connections (p_metrics (fst (run_tunnel lib h env r host port client b up s))) =
     active_connections (p_metrics s)"
  by (simp add: run_tunnel_def Let_def case_prod_unfold effect_simps split: bool.splits)

lemma connect_upstream_active:
  "active_connections (p_metrics (fst (connect_upstream lib h env r host port client b up s))) =
     active_connections (p_metrics s)"
  by (simp add: connect_upstream_def Let_def case_prod_unfold effect_simps run_tunnel_active
      split: write_end.splits option.splits)

text \<open>The ways a call can go, by the first obstacle.\<close>

lemma handleConnect_cases:
  obtains (deny) "\<not> connect_allowed lib w r"
  | (no_hijacker) "connect_allowed lib w r" "\<not> ce_hijacker env"
  | (hijack_fails) "connect_allowed lib w r" "ce_hijacker env" "ce_hijack env = None"
  | (dial_fails) client buffered e where "connect_allowed lib w r" "ce_hijacker env"
      "ce_hijack env = Some (client, buffered)" "fst (dialUpstream h (ce_dial env)) = Inl e"
      "e \<noteq> NilConfig"
  | (panics) client buffered where "connect_allowed lib w r" "ce_hijacker env"
      "ce_hijack env = Some (client, buffered)" "fst (dialUpstream h (ce_dial env)) = Inl NilConfig"
  | (connected) client buffered conn where "connect_allowed lib w r" "ce_hijacker env"
      "ce_hijack env = Some (client, buffered)" "fst (dialUpstream h (ce_dial env)) = Inr conn"
proof (cases "fst (dialUpstream h (ce_dial env))"; cases "ce_hijack env")
  fix e p
  assume "fst (dialUpstream h (ce_dial env)) = Inl e" "ce_hijack env = Some p"
  then show ?thesis using that by (cases "e = NilConfig"; cases p) auto
qed (use that in auto)

lemma connect_no_hijacker:
  "connect_allowed lib w r \<Longrightarrow> \<not> ce_hijacker env \<Longrightarrow> handleConnect lib h w env r s =
     (reply_error ''hijacking not supported'' StatusInternalServerError s,
      \<lparr>cr_client = None, cr_upstream = None, cr_end = Returned\<rparr>)"
  by (simp add: handleConnect_def connect_allowed_def connect_target_def case_prod_unfold Let_def)

lemma connect_hijack_fails:
  "connect_allowed lib w r \<Longrightarrow> ce_hijacker env \<Longrightarrow> ce_hijack env = None \<Longrightarrow>
   handleConnect lib h w env r s =
     (diag LevelError ''hijack failed'' s, \<lparr>cr_client = None, cr_upstream = None, cr_end = Returned\<rparr>)"
  by (simp add: handleConnect_def connect_allowed_def connect_target_def case_prod_unfold Let_def)

lemmas connect_branches = connect_deny connect_no_hijacker connect_hijack_fails connect_dial_error
  connect_panic   connect_connected

lemma connect_active:
  "active_connections (p_metrics (fst (handleConnect lib h w env r s))) =
     active_connections (p_metrics s)"
proof (rule handleConnect_cases [where lib = lib and w = w and r = r and env = env and h = h])
  fix client buffered conn
  assume a: "connect_allowed lib w r" "ce_hijacker env" "ce_hijack env = Some (client, buffered)"
    "fst (dialUpstream h (ce_dial env)) = Inr conn"
  show ?thesis
    by (simp add: connect_connected [OF a] case_prod_unfold effect_simps connect_upstream_active)
qed (simp_all add: connect_branches denyConnect_def effect_simps)

section \<open>What becomes of the connections\<close>

text \<open>Every part of the exchange leaves the connections it was given, later on.\<close>

lemma later_write_all: "later c (snd (write_all t c))"
  by (cases "nc_Write t c") (simp add: write_all_def later_nc_Write)

lemma later_write_all': "write_all t c = (e, c') \<Longrightarrow> later c c'"
  using later_write_all [of c t] by simp

lemma later_writeHeader: "writeHeader nm v c = (e, c') \<Longrightarrow> later c c'"
  unfolding writeHeader_def by (rule later_write_all')

lemma later_write_extra: "write_extra es c = (e, c') \<Longrightarrow> later c c'"
proof (induction es c rule: write_extra.induct)
  case (2 nm v es c)
  obtain f d where w: "writeHeader nm v c = (f, d)" by fastforce
  then show ?case using 2 later_writeHeader [OF w] later_trans by (cases f) auto
qed simp

lemma later_write_auth: "write_auth auth c = (e, c') \<Longrightarrow> later c c'"
  by (auto simp: write_auth_def split: if_splits dest: later_writeHeader)

lemma later_write_connect: "write_connect h host c = (e, c') \<Longrightarrow> later c c'"
  by (auto simp: write_connect_def split: prod.splits bool.splits
      dest!: later_write_all' later_writeHeader later_write_auth later_write_extra)
    (blast intro: later_trans)+

lemma later_read_reply: "read_reply mime buf c = (p, c') \<Longrightarrow> later c c'"
proof (induction mime buf c rule: read_reply.induct)
  case (1 mime buf c)
  note eq = read_reply.simps [of mime buf c]
  obtain q e d where rd: "nc_Read c = (q, e, d)" by (metis prod_cases3)
  show ?case
  proof (cases "parse_reply mime buf")
    case NeedMore
    show ?thesis
    proof (cases e)
      case None
      then have "later d c'"
        using "1.IH" [OF NeedMore rd [symmetric] refl None] "1.prems" eq NeedMore rd by simp
      then show ?thesis using later_nc_Read [OF rd] later_trans by blast
    next
      case (Some er)
      then have "c' = d" using "1.prems" eq NeedMore rd by (auto split: parse.splits)
      then show ?thesis using later_nc_Read [OF rd] by simp
    qed
  qed (use "1.prems" eq in auto)
qed

lemma later_drain: "later c (drain n c)"
proof (induction n c rule: drain.induct)
  case (2 n c)
  obtain p e d where rd: "nc_Read c = (p, e, d)" by (metis prod_cases3)
  then show ?case using 2 [OF rd [symmetric] refl] later_nc_Read [OF rd] later_trans by fastforce
qed simp

lemma later_run_tunnel:
  assumes "run_tunnel lib h env r host port client b up s = (s', client', up')"
  shows "later client client' \<and> later up up'"
proof -
  obtain f c1 where c1: "write_all established_reply client = (f, c1)" by fastforce
  obtain g u1 where u1: "(if b \<noteq> [] then write_all b up else (False, up)) = (g, u1)" by fastforce
  have l: "later client c1" "later up u1"
    using later_write_all' [OF c1] u1 later_write_all' [of b up g u1] by (auto split: if_splits)
  let ?t = "tunnel (wrapIdleTimeout c1 (IdleTimeout h)) u1"
  have t: "later c1 (fst (snd ?t))" "later u1 (snd (snd ?t))"
    using later_tunnel(1) [of "wrapIdleTimeout c1 (IdleTimeout h)" u1]
      later_tunnel(2) [where c = "wrapIdleTimeout c1 (IdleTimeout h)" and u = u1] by simp_all
  have "(client' = c1 \<or> client' = fst (snd ?t)) \<and> (up' = up \<or> up' = u1 \<or> up' = snd (snd ?t))"
    using assms by (auto simp: run_tunnel_def c1 u1 Let_def split: bool.splits prod.splits)
  then show ?thesis using l t later_trans by auto
qed

lemma later_connect_upstream:
  assumes "connect_upstream lib h env r host port client b up s = (s', client', up')"
  shows "later client client' \<and> later up up'"
proof -
  obtain e u1 where u1: "write_connect h (Host r) up = (e, u1)" by fastforce
  obtain p u2 where u2: "read_reply (ce_mime env) [] u1 = (p, u2)" by fastforce
  note l = later_write_connect [OF u1] later_read_reply [OF u2]
  have bf: "later client (best_effort t client)" for t
    by (simp add: best_effort_def later_write_all)
  have "later client client' \<and> (later up up' \<or> later u1 up' \<or> later u2 up')"
    using assms bf l
    by (cases e) (auto simp: connect_upstream_def u1 u2 Let_def later_drain
        split: option.splits if_splits prod.splits dest!: later_run_tunnel intro: later_trans [OF later_drain])
  then show ?thesis using l later_trans by blast
qed

section \<open>Releasing the connections\<close>

text \<open>A call that took the client over, by the outcome of dialling; and one that did not.\<close>

lemma connect_taken:
  assumes t: "connect_allowed lib w r" "ce_hijacker env" "ce_hijack env = Some (client, buffered)"
    and call: "handleConnect lib h w env r s = (s', res)"
    and dial: "fst (dialUpstream h (ce_dial env)) = dialled"
  shows "\<exists>c. later client c \<and>
    (case dialled of
       Inl e \<Rightarrow> res = \<lparr>cr_client = Some (nc_Close c), cr_upstream = None,
         cr_end = (if e = NilConfig then Panicked else Returned)\<rparr>
     | Inr conn \<Rightarrow> \<exists>u. later conn u \<and>
         res = \<lparr>cr_client = Some (nc_Close c), cr_upstream = Some (nc_Close u), cr_end = Returned\<rparr>)"
proof (cases dialled)
  case (Inl e)
  then show ?thesis
    using call connect_panic [OF t, of h s] connect_dial_error [OF t, of h e s] dial
      later_write_all [of client bad_gateway_reply]
    by (intro exI [of _ "if e = NilConfig then client else best_effort bad_gateway_reply client"])
      (auto simp: best_effort_def)
next
  case (Inr conn)
  obtain s1 c u where u: "connect_upstream lib h env r (fst (connect_target r)) (snd (connect_target r))
      client buffered (wrapIdleTimeout conn (IdleTimeout h)) (metric ActiveInc s) = (s1, c, u)"
    by (metis prod_cases3)
  show ?thesis
    using connect_connected [OF t, of h conn s] call dial Inr later_connect_upstream [OF u]
    by (auto simp: u)
qed

lemma connect_not_taken:
  assumes "\<not> (connect_allowed lib w r \<and> ce_hijacker env \<and> ce_hijack env \<noteq> None)"
  shows "snd (handleConnect lib h w env r s) =
    \<lparr>cr_client = None, cr_upstream = None, cr_end = Returned\<rparr>"
  using assms connect_deny [of lib w r h env s] connect_no_hijacker [of lib w r env h s]
    connect_hijack_fails [of lib w r env h s] by fastforce

section \<open>The status text of a reply\<close>

lemma read_reply_parsed:
  "read_reply mime buf c = (Some (rp, rest), c') \<Longrightarrow> \<exists>b. parse_reply mime b = Parsed rp rest"
proof (induction mime buf c rule: read_reply.induct)
  case (1 mime buf c)
  note eq = read_reply.simps [of mime buf c]
  obtain p e d where rd: "nc_Read c = (p, e, d)" by (metis prod_cases3)
  show ?case
  proof (cases "parse_reply mime buf")
    case NeedMore
    show ?thesis
    proof (cases e)
      case None
      then have "read_reply mime (buf @ p) d = (Some (rp, rest), c')"
        using "1.prems" eq NeedMore rd by simp
      then show ?thesis by (rule "1.IH" [OF NeedMore rd [symmetric] refl None])
    next
      case (Some er)
      then have "parse_reply mime (buf @ p) = Parsed rp rest"
        using "1.prems" eq NeedMore rd by (auto split: parse.splits)
      then show ?thesis by blast
    qed
  qed (use "1.prems" eq in auto)
qed

lemma atoi3_length: "atoi3 s = Some n \<Longrightarrow> length s = 3"
  by (simp add: atoi3_def split: if_splits)

lemma parse_status_code: "parse_status line = Some (code, status) \<Longrightarrow> atoi3 (take 3 status) = Some code"
proof -
  assume a: "parse_status line = Some (code, status)"
  let ?cs = "case cut_space status of None \<Rightarrow> status | Some (x, y) \<Rightarrow> x"
  have c: "atoi3 ?cs = Some code"
    using a by (auto simp: parse_status_def Let_def split: option.splits if_splits)
  have "take (length ?cs) status = ?cs"
    using Index_bound [of status "'' ''"]
    by (auto simp: cut_space_def min_def split: option.splits)
  then have "take 3 status = ?cs" using atoi3_length [OF c] by simp
  then show ?thesis using c by simp
qed

lemma parse_reply_code: "parse_reply mime b = Parsed rp rest \<Longrightarrow> atoi3 (take 3 (rp_status rp)) = Some (rp_code rp)"
proof -
  assume "parse_reply mime b = Parsed rp rest"
  then obtain line where "parse_status line = Some (rp_code rp, rp_status rp)"
    by (auto simp: parse_reply_def split: option.splits)
  then show ?thesis by (rule parse_status_code)
qed

section \<open>Properties\<close>

text \<open>
  The upstream answers and greets in one read; the client sends its first bytes with the CONNECT
  request.
\<close>

definition ex_reply :: string where
  "ex_reply = ''HTTP/1.1 200 OK'' @ crlf @ crlf"

definition ex_connect_env :: "net_conn \<Rightarrow> connect_env" where
  "ex_connect_env up = \<lparr>ce_start = 0, ce_log = 1000000, ce_hijacker = True,
     ce_hijack = Some (ex_conn [(''more'', None)], ''hello ''),
     ce_dial = \<lparr>de_dial = (\<lambda>t a. Some up), de_handshake = (\<lambda>t cfg c. Some c)\<rparr>,
     ce_mime = (\<lambda>ls. Some (\<lambda>b c. 0))\<rparr>"

definition ex_upstream :: net_conn where
  "ex_upstream = ex_conn [(ex_reply @ ''SSH-2.0'', None), (''data'', None)]"

definition ex_connect :: request where
  "ex_connect = ex_request\<lparr>Method := ''CONNECT'', Host := ''api.example.com''\<rparr>"

lemma ex_connect_allowed: "connect_allowed ex_go ex_watcher ex_connect"
proof -
  have "connect_target ex_connect = (''api.example.com'', 443)"
    by (simp add: connect_target_def ex_connect_def splitHostPort_no_colon colon_def)
  moreover have "fst (AllowHost (\<lambda>s. s) ex_watcher ''api.example.com'' 443)"
    by (simp add: ex_watcher_def example_eval rule_ports_def se_entry_def)
  ultimately show ?thesis by (simp add: connect_allowed_def ex_go_def)
qed

lemma ex_parse_reply:
  "parse_reply (\<lambda>ls. Some (\<lambda>b c. 0)) (ex_reply @ ''SSH-2.0'') =
     Parsed \<lparr>rp_code = 200, rp_status = ''200 OK'', rp_body_reads = (\<lambda>b c. 0)\<rparr> ''SSH-2.0''"
proof -
  have l: "read_line [] (ex_reply @ ''SSH-2.0'') = Some (''HTTP/1.1 200 OK'', crlf @ ''SSH-2.0'')" by code_simp
  have e: "read_line [] (crlf @ ''SSH-2.0'') = Some ([], ''SSH-2.0'')" by code_simp
  have b: "read_block (crlf @ ''SSH-2.0'') = Some ([], ''SSH-2.0'')" by (simp add: read_block.simps e)
  have c: "cut_space ''HTTP/1.1 200 OK'' = Some (''HTTP/1.1'', ''200 OK'')"
    "cut_space ''200 OK'' = Some (''200'', ''OK'')" "version_ok ''HTTP/1.1''" by code_simp+
  have "list_all is_digit ''200''" by code_simp
  then have a: "atoi3 ''200'' = Some 200" by (simp add: atoi3_def dec_val_def byte_def)
  have "parse_status ''HTTP/1.1 200 OK'' = Some (200, ''200 OK'')" by (simp add: parse_status_def c a)
  then show ?thesis by (simp add: parse_reply_def l b)
qed

lemma ex_conn_clean: "clean_write (ex_conn rs)" "clean_read (ex_conn rs) = list_all (\<lambda>(p, e). e = None) rs"
  by (simp_all add: clean_write_def clean_read_def ex_conn_def)

theorem connect_end_to_end_witness:
  "\<exists>client' up'. snd (handleConnect ex_go ex_handler ex_watcher (ex_connect_env ex_upstream) ex_connect ex_state) =
      \<lparr>cr_client = Some client', cr_upstream = Some up', cr_end = Returned\<rparr> \<and>
    w_out (wside client') = established_reply @ ''data'' \<and>
    w_out (wside up') = connect_request ex_handler ''api.example.com'' @ ''hello more''"
proof -
  let ?env = "ex_connect_env ex_upstream"
  let ?conn = "wrapIdleTimeout ex_upstream (IdleTimeout ex_handler)"
  have env: "ce_hijacker ?env" "ce_hijack ?env = Some (ex_conn [(''more'', None)], ''hello '')"
    "fst (dialUpstream ex_handler (ce_dial ?env)) = Inr ex_upstream"
    by (simp_all add: ex_connect_env_def dialUpstream_def ex_handler_def)
  have cl: "clean_write (ex_conn [(''more'', None)])" "clean_read (ex_conn [(''more'', None)])"
    "clean_write ex_upstream" "clean_read ex_upstream"
    by (simp_all add: ex_conn_clean ex_upstream_def)
  obtain c1 where c1: "write_connect ex_handler (Host ex_connect) ?conn = (Written, c1)"
    "wrote (connect_request ex_handler (Host ex_connect)) ?conn c1"
    using write_connect_wrote [of ?conn] cl(3) by auto
  have rs: "rside c1 = rside ex_upstream" "layers c1 = [90]"
    using c1(2) by (simp_all add: wrote_def wrapIdleTimeout_def ex_handler_def ex_upstream_def ex_conn_def)
  define up where "up = c1\<lparr>rside := \<lparr>r_script = [(''data'', None)], r_dl = []\<rparr>\<rparr>"
  have rd: "nc_Read c1 = (ex_reply @ ''SSH-2.0'', None, up)"
    by (simp add: nc_Read_def rs up_def ex_upstream_def ex_conn_def pop_dl_def raw_read_def)
  let ?rp = "\<lparr>rp_code = 200, rp_status = ''200 OK'', rp_body_reads = (\<lambda>b c. 0)\<rparr>"
  have nm: "parse_reply (\<lambda>ls. Some (\<lambda>b c. 0)) [] = NeedMore" by (simp add: parse_reply_def)
  have "read_reply (\<lambda>ls. Some (\<lambda>b c. 0)) [] c1 = (Some (?rp, ''SSH-2.0''), up)"
    by (simp add: read_reply.simps [of _ "[]"] nm rd read_reply.simps [of _ "ex_reply @ ''SSH-2.0''"] ex_parse_reply)
  then have rr: "read_reply (ce_mime ?env) [] (snd (write_connect ex_handler (Host ex_connect) ?conn)) =
      (Some (?rp, ''SSH-2.0''), up)"
    by (simp add: c1(1) ex_connect_env_def)
  have "rp_code ?rp = StatusOK" "rp_body_reads ?rp ''SSH-2.0'' up = 0" by (simp_all add: StatusOK_def)
  note th = connect_end_to_end [OF ex_connect_allowed env cl rr this, of ex_state]
  have "Host ex_connect = ''api.example.com''" by (simp add: ex_connect_def)
  then show ?thesis using th by (auto simp: up_def ex_conn_def ex_upstream_def)
qed

text \<open>
  C34. A rejected CONNECT is answered with the upstream's status code twice: the text the client
  gets is the code, then the upstream's status text, which begins with the same code.
\<close>

theorem reject_repeats_status_code:
  assumes "connect_allowed lib w r" "ce_hijacker env" "ce_hijack env = Some (client, buffered)"
      "fst (dialUpstream h (ce_dial env)) = Inr conn"
    and "clean_write client" "clean_write conn"
    and "read_reply (ce_mime env) [] (snd (write_connect h (Host r) (wrapIdleTimeout conn (IdleTimeout h)))) =
      (Some (rp, leftover), up)" "rp_code rp \<noteq> StatusOK"
  shows "\<exists>client'. cr_client (snd (handleConnect lib h w env r s)) = Some client' \<and>
    w_out (wside client') = w_out (wside client) @
      ''HTTP/1.1 '' @ nat_dec (rp_code rp) @ '' '' @ rp_status rp @ crlf @ crlf \<and>
    atoi3 (take 3 (rp_status rp)) = Some (rp_code rp)"
proof -
  let ?conn = "wrapIdleTimeout conn (IdleTimeout h)"
  obtain c1 where c1: "write_connect h (Host r) ?conn = (Written, c1)"
    using write_connect_wrote [of ?conn h "Host r"] assms(6) by auto
  have rd: "read_reply (ce_mime env) [] c1 = (Some (rp, leftover), up)" using assms(7) c1 by simp
  have "cr_client (snd (handleConnect lib h w env r s)) =
      Some (nc_Close (best_effort (reject_reply (rp_code rp) (rp_status rp)) client))"
    by (simp add: connect_connected [OF assms(1-4)] connect_upstream_def c1 rd assms(8) Let_def)
  moreover have "atoi3 (take 3 (rp_status rp)) = Some (rp_code rp)"
    using read_reply_parsed [OF rd] parse_reply_code by blast
  ultimately show ?thesis
    using write_all_clean(3) [OF assms(5)] by (simp add: nc_Close_def best_effort_def reject_reply_def)
qed

definition ex_reject_text :: string where
  "ex_reject_text = ''HTTP/1.1 407 Proxy Authentication Required'' @ crlf @ crlf"

definition ex_rejecting :: net_conn where
  "ex_rejecting = ex_conn [(ex_reject_text, None)]"

lemma ex_parse_reject:
  "parse_reply (\<lambda>ls. Some (\<lambda>b c. 0)) ex_reject_text =
     Parsed \<lparr>rp_code = 407, rp_status = ''407 Proxy Authentication Required'', rp_body_reads = (\<lambda>b c. 0)\<rparr> []"
proof -
  have l: "read_line [] ex_reject_text =
      Some (''HTTP/1.1 407 Proxy Authentication Required'', crlf)" by code_simp
  have e: "read_line [] crlf = Some ([], [])" by code_simp
  have b: "read_block crlf = Some ([], [])" by (simp add: read_block.simps e)
  have c: "cut_space ''HTTP/1.1 407 Proxy Authentication Required'' =
      Some (''HTTP/1.1'', ''407 Proxy Authentication Required'')"
    "cut_space ''407 Proxy Authentication Required'' = Some (''407'', ''Proxy Authentication Required'')"
    "version_ok ''HTTP/1.1''" by code_simp+
  have "list_all is_digit ''407''" by code_simp
  then have a: "atoi3 ''407'' = Some 407" by (simp add: atoi3_def dec_val_def byte_def)
  have "parse_status ''HTTP/1.1 407 Proxy Authentication Required'' =
      Some (407, ''407 Proxy Authentication Required'')" by (simp add: parse_status_def c a)
  then show ?thesis by (simp add: parse_reply_def l b)
qed

theorem reject_repeats_status_code_witness:
  "\<exists>client'. cr_client (snd (handleConnect ex_go ex_handler ex_watcher (ex_connect_env ex_rejecting)
      ex_connect ex_state)) = Some client' \<and>
    w_out (wside client') = ''HTTP/1.1 407 407 Proxy Authentication Required'' @ crlf @ crlf"
proof -
  let ?env = "ex_connect_env ex_rejecting"
  let ?conn = "wrapIdleTimeout ex_rejecting (IdleTimeout ex_handler)"
  have env: "ce_hijacker ?env" "ce_hijack ?env = Some (ex_conn [(''more'', None)], ''hello '')"
    "fst (dialUpstream ex_handler (ce_dial ?env)) = Inr ex_rejecting"
    by (simp_all add: ex_connect_env_def dialUpstream_def ex_handler_def)
  have cl: "clean_write (ex_conn [(''more'', None)])" "clean_write ex_rejecting"
    by (simp_all add: ex_conn_clean ex_rejecting_def)
  obtain c1 where c1: "write_connect ex_handler (Host ex_connect) ?conn = (Written, c1)"
    "wrote (connect_request ex_handler (Host ex_connect)) ?conn c1"
    using write_connect_wrote [of ?conn] cl(2) by auto
  have rs: "rside c1 = rside ex_rejecting" "layers c1 = [90]"
    using c1(2) by (simp_all add: wrote_def wrapIdleTimeout_def ex_handler_def ex_rejecting_def ex_conn_def)
  define up where "up = c1\<lparr>rside := \<lparr>r_script = [], r_dl = []\<rparr>\<rparr>"
  have rd: "nc_Read c1 = (ex_reject_text, None, up)"
    by (simp add: nc_Read_def rs up_def ex_rejecting_def ex_conn_def pop_dl_def raw_read_def)
  let ?rp = "\<lparr>rp_code = 407, rp_status = ''407 Proxy Authentication Required'', rp_body_reads = (\<lambda>b c. 0)\<rparr>"
  have nm: "parse_reply (\<lambda>ls. Some (\<lambda>b c. 0)) [] = NeedMore" by (simp add: parse_reply_def)
  have "read_reply (\<lambda>ls. Some (\<lambda>b c. 0)) [] c1 = (Some (?rp, []), up)"
    by (simp add: read_reply.simps [of _ "[]"] nm rd read_reply.simps [of _ ex_reject_text] ex_parse_reject)
  then have rr: "read_reply (ce_mime ?env) [] (snd (write_connect ex_handler (Host ex_connect) ?conn)) =
      (Some (?rp, []), up)"
    by (simp add: c1(1) ex_connect_env_def)
  have ne: "rp_code ?rp \<noteq> StatusOK" by (simp add: StatusOK_def)
  have d: "nat_dec 407 = ''407''" by (simp add: nat_dec.simps byte_inject [symmetric]) (simp add: byte_def)
  show ?thesis
    using reject_repeats_status_code [OF ex_connect_allowed env cl rr ne, of ex_state]
    by (auto simp: d) (simp add: ex_conn_def)
qed

text \<open>
  C19. Resources of a CONNECT call. Unless the target is allowed and the client's connection could
  be taken over, the call holds no connection of either side and returns. Otherwise the
  client's connection ends up closed, and so does the connection that dialling handed out, whatever
  was read and written on them in between; without one no upstream connection is recorded. A raw
  connection that was dialled is the one handed out, or the handshake's connection built on it is,
  or \<open>dialUpstream\<close> closed it; the one exception is the nil configuration, the only case in
  which the call panics. On every way out the gauge of active connections is back where it was.
\<close>

theorem connect_releases_everything:
  assumes call: "handleConnect lib h w env r s = (s', res)"
    and dial: "dialUpstream h (ce_dial env) = (dialled, closed_raws)"
  shows "(\<forall>client buffered. connect_allowed lib w r \<and> ce_hijacker env \<and> ce_hijack env = Some (client, buffered) \<longrightarrow>
      (\<exists>c. cr_client res = Some c \<and> closed c \<and> later client c) \<and>
      (case dialled of
         Inr conn \<Rightarrow> \<exists>u. cr_upstream res = Some u \<and> closed u \<and> later conn u
       | Inl e \<Rightarrow> cr_upstream res = None) \<and>
      (\<forall>raw. de_dial (ce_dial env) (DialTimeout h) (UpstreamProxy h) = Some raw \<longrightarrow>
         dialled = Inr raw \<or>
         (\<exists>cfg c. de_handshake (ce_dial env) (DialTimeout h) cfg raw = Some c \<and> dialled = Inr c) \<or>
         closed_raws = [nc_Close raw] \<or> cr_end res = Panicked) \<and>
      (cr_end res = Panicked \<longleftrightarrow> dialled = Inl NilConfig)) \<and>
    (\<not> (connect_allowed lib w r \<and> ce_hijacker env \<and> ce_hijack env \<noteq> None) \<longrightarrow>
      cr_client res = None \<and> cr_upstream res = None \<and> cr_end res = Returned) \<and>
    active_connections (p_metrics s') = active_connections (p_metrics s)"
proof (intro conjI allI impI)
  show "active_connections (p_metrics s') = active_connections (p_metrics s)"
    using connect_active [of lib h w env r s] by (simp add: call)
next
  assume "\<not> (connect_allowed lib w r \<and> ce_hijacker env \<and> ce_hijack env \<noteq> None)"
  then show "cr_client res = None" "cr_upstream res = None" "cr_end res = Returned"
    using connect_not_taken [of lib w r env h s] by (simp_all add: call)
next
  fix client buffered
  assume "connect_allowed lib w r \<and> ce_hijacker env \<and> ce_hijack env = Some (client, buffered)"
  then have t: "connect_allowed lib w r" "ce_hijacker env" "ce_hijack env = Some (client, buffered)"
    by simp_all
  have d: "fst (dialUpstream h (ce_dial env)) = dialled" by (simp add: dial)
  note res = connect_taken [OF t call d]
  show "\<exists>c. cr_client res = Some c \<and> closed c \<and> later client c"
    "case dialled of Inr conn \<Rightarrow> \<exists>u. cr_upstream res = Some u \<and> closed u \<and> later conn u
     | Inl e \<Rightarrow> cr_upstream res = None"
    using res closed_Close later_close by (cases dialled; fastforce)+
  show e: "cr_end res = Panicked \<longleftrightarrow> dialled = Inl NilConfig"
    using res by (cases dialled) (auto split: if_splits)
  show "dialled = Inr raw \<or>
      (\<exists>cfg c. de_handshake (ce_dial env) (DialTimeout h) cfg raw = Some c \<and> dialled = Inr c) \<or>
      closed_raws = [nc_Close raw] \<or> cr_end res = Panicked"
    if "de_dial (ce_dial env) (DialTimeout h) (UpstreamProxy h) = Some raw" for raw
    using dialUpstream_raw [OF that] dial unfolding e by auto
qed

theorem connect_releases_everything_witness:
  "(\<exists>c u. cr_client (snd (handleConnect ex_go ex_handler ex_watcher (ex_connect_env ex_upstream) ex_connect ex_state)) =
        Some c \<and> closed c \<and>
      cr_upstream (snd (handleConnect ex_go ex_handler ex_watcher (ex_connect_env ex_upstream) ex_connect ex_state)) =
        Some u \<and> closed u \<and> later ex_upstream u) \<and>
   cr_client (snd (handleConnect ex_go ex_handler NewWatcher (ex_connect_env ex_upstream) ex_connect ex_state)) = None"
proof -
  let ?env = "ex_connect_env ex_upstream"
  have env: "ce_hijacker ?env" "ce_hijack ?env = Some (ex_conn [(''more'', None)], ''hello '')"
    "dialUpstream ex_handler (ce_dial ?env) = (Inr ex_upstream, [])"
    by (simp_all add: ex_connect_env_def dialUpstream_def ex_handler_def)
  have d: "\<not> connect_allowed ex_go NewWatcher ex_connect"
    by (simp add: connect_allowed_def AllowHost_new)
  obtain s1 a where a: "handleConnect ex_go ex_handler ex_watcher ?env ex_connect ex_state = (s1, a)" by fastforce
  obtain s2 b where b: "handleConnect ex_go ex_handler NewWatcher ?env ex_connect ex_state = (s2, b)" by fastforce
  show ?thesis
    using connect_releases_everything [OF a env(3)] connect_releases_everything [OF b env(3)] ex_connect_allowed
      env(1,2) d by (auto simp: a b)
qed

end
