(* ===== verification/Watcher_Sync.thy ===== *)
theory Watcher_Sync
  imports Watcher
begin

text \<open>
  The watcher under concurrency: the informer's event handlers call \<open>rebuild\<close> while
  request goroutines call \<open>AllowHost\<close>, and \<open>Run\<close> sets the synced flag. One record
  holds the watcher with its read-write lock, the place \<open>rebuild\<close> has reached, and the
  informer's store with the number of notifications it still has to deliver. The steps
  interleave freely; the two assignments of \<open>rebuild\<close> are separate steps.

  The informer (Kubernetes client library) is not modelled beyond what the code relies on:
  its store changes, every change is followed by a notification, notifications are delivered
  one at a time (one handler call at a time), and a resync is a notification without a change.
  The model's ghost components are the listing whose tables are published
  (\<open>ws_shown\<close>) and whether the last listing failed (\<open>ws_failed\<close>).
\<close>

section \<open>State\<close>

datatype rebuild_pc =
    RIdle
  | RList
  | RHave "service_entry list"
  | RLocked "service_entry list"
  | RHosts "service_entry list"
  | RBoth "service_entry list"

datatype run_pc = RunStart | RunWait | RunDone | RunFailed

record wstate =
  ws_w :: watcher
  ws_pc :: rebuild_pc
  ws_readers :: nat
  ws_cache :: "service_entry list"
  ws_pending :: nat
  ws_store_synced :: bool
  ws_stop :: bool
  ws_run :: run_pc
  ws_shown :: "service_entry list"
  ws_failed :: bool

definition wstart_state :: wstate where
  "wstart_state = \<lparr>ws_w = NewWatcher, ws_pc = RIdle, ws_readers = 0, ws_cache = [],
     ws_pending = 0, ws_store_synced = False, ws_stop = False, ws_run = RunStart,
     ws_shown = [], ws_failed = False\<rparr>"

definition wstart :: "wstate \<Rightarrow> bool" where
  "wstart s \<longleftrightarrow> s = wstart_state"

definition writer_holds :: "rebuild_pc \<Rightarrow> bool" where
  "writer_holds pc = (case pc of RLocked es \<Rightarrow> True | RHosts es \<Rightarrow> True | RBoth es \<Rightarrow> True | _ \<Rightarrow> False)"

section \<open>Steps\<close>

text \<open>
  A handler call: a notification is taken, the lister returns the store, the tables are
  computed, the write lock is taken once no reader is left, both fields are assigned, the lock
  is released.
\<close>

inductive rebuild_step :: "(string \<Rightarrow> string) \<Rightarrow> wstate \<Rightarrow> wstate \<Rightarrow> bool" for ul where
  take: "ws_pc s = RIdle \<Longrightarrow> 0 < ws_pending s \<Longrightarrow>
    rebuild_step ul s (s\<lparr>ws_pc := RList, ws_pending := ws_pending s - 1\<rparr>)"
| list_ok: "ws_pc s = RList \<Longrightarrow>
    rebuild_step ul s (s\<lparr>ws_pc := RHave (ws_cache s), ws_failed := False\<rparr>)"
| lock: "ws_pc s = RHave es \<Longrightarrow> ws_readers s = 0 \<Longrightarrow>
    rebuild_step ul s (s\<lparr>ws_pc := RLocked es\<rparr>)"
| set_hosts: "ws_pc s = RLocked es \<Longrightarrow>
    rebuild_step ul s (s\<lparr>ws_w := (ws_w s)\<lparr>hosts := fst (tables ul es)\<rparr>, ws_pc := RHosts es\<rparr>)"
| set_wildcards: "ws_pc s = RHosts es \<Longrightarrow>
    rebuild_step ul s (s\<lparr>ws_w := (ws_w s)\<lparr>wildcards := snd (tables ul es)\<rparr>, ws_pc := RBoth es\<rparr>)"
| unlock: "ws_pc s = RBoth es \<Longrightarrow>
    rebuild_step ul s (s\<lparr>ws_pc := RIdle, ws_shown := es\<rparr>)"

inductive list_fail :: "wstate \<Rightarrow> wstate \<Rightarrow> bool" where
  "ws_pc s = RList \<Longrightarrow> list_fail s (s\<lparr>ws_pc := RIdle, ws_failed := True\<rparr>)"

inductive rlock_step :: "wstate \<Rightarrow> wstate \<Rightarrow> bool" where
  "\<not> writer_holds (ws_pc s) \<Longrightarrow> rlock_step s (s\<lparr>ws_readers := ws_readers s + 1\<rparr>)"

inductive runlock_step :: "wstate \<Rightarrow> wstate \<Rightarrow> bool" where
  "0 < ws_readers s \<Longrightarrow> runlock_step s (s\<lparr>ws_readers := ws_readers s - 1\<rparr>)"

text \<open>
  \<open>Run\<close>: the handler is registered and the informer started, or registration fails and
  \<open>Run\<close> returns; when the store is synced or the context ends, the flag is set.
\<close>

inductive run_step :: "wstate \<Rightarrow> wstate \<Rightarrow> bool" where
  register: "ws_run s = RunStart \<Longrightarrow> run_step s (s\<lparr>ws_run := RunWait\<rparr>)"
| register_fails: "ws_run s = RunStart \<Longrightarrow> run_step s (s\<lparr>ws_run := RunFailed\<rparr>)"
| set_synced: "ws_run s = RunWait \<Longrightarrow> ws_store_synced s \<or> ws_stop s \<Longrightarrow>
    run_step s (s\<lparr>ws_run := RunDone, ws_w := (ws_w s)\<lparr>synced := True\<rparr>\<rparr>)"

definition started :: "wstate \<Rightarrow> bool" where
  "started s \<longleftrightarrow> ws_run s = RunWait \<or> ws_run s = RunDone"

inductive informer_step :: "wstate \<Rightarrow> wstate \<Rightarrow> bool" where
  change: "started s \<Longrightarrow>
    informer_step s (s\<lparr>ws_cache := es, ws_pending := ws_pending s + 1\<rparr>)"
| resync: "started s \<Longrightarrow> informer_step s (s\<lparr>ws_pending := ws_pending s + 1\<rparr>)"
| store_sync: "started s \<Longrightarrow> informer_step s (s\<lparr>ws_store_synced := True\<rparr>)"
| cancel: "informer_step s (s\<lparr>ws_stop := True\<rparr>)"

definition wstep :: "(string \<Rightarrow> string) \<Rightarrow> wstate \<Rightarrow> wstate \<Rightarrow> bool" where
  "wstep ul s t \<longleftrightarrow> rebuild_step ul s t \<or> list_fail s t \<or> rlock_step s t \<or> runlock_step s t \<or>
     run_step s t \<or> informer_step s t"

inductive_cases rebuild_stepE: "rebuild_step ul s t"
inductive_cases list_failE: "list_fail s t"
inductive_cases rlock_stepE: "rlock_step s t"
inductive_cases runlock_stepE: "runlock_step s t"
inductive_cases run_stepE: "run_step s t"
inductive_cases informer_stepE: "informer_step s t"

lemmas wstep_cases = rebuild_stepE list_failE rlock_stepE runlock_stepE run_stepE informer_stepE

section \<open>The invariant\<close>

definition published :: "(string \<Rightarrow> string) \<Rightarrow> wstate \<Rightarrow> bool" where
  "published ul s \<longleftrightarrow>
     hosts (ws_w s) = (case ws_pc s of
        RHosts es \<Rightarrow> fst (tables ul es) | RBoth es \<Rightarrow> fst (tables ul es)
      | _ \<Rightarrow> fst (tables ul (ws_shown s))) \<and>
     wildcards (ws_w s) = (case ws_pc s of
        RBoth es \<Rightarrow> snd (tables ul es) | _ \<Rightarrow> snd (tables ul (ws_shown s)))"

definition fresh :: "wstate \<Rightarrow> bool" where
  "fresh s \<longleftrightarrow> ws_pending s = 0 \<longrightarrow>
     (case ws_pc s of
        RIdle \<Rightarrow> ws_failed s \<or> ws_shown s = ws_cache s
      | RList \<Rightarrow> True
      | RHave es \<Rightarrow> es = ws_cache s
      | RLocked es \<Rightarrow> es = ws_cache s
      | RHosts es \<Rightarrow> es = ws_cache s
      | RBoth es \<Rightarrow> es = ws_cache s)"

definition winv :: "(string \<Rightarrow> string) \<Rightarrow> wstate \<Rightarrow> bool" where
  "winv ul s \<longleftrightarrow> (writer_holds (ws_pc s) \<longrightarrow> ws_readers s = 0) \<and> published ul s \<and> fresh s"

lemma tables_Nil: "tables ul [] = ([], [])"
  by (simp add: tables_def)

lemma winv_start: "wstart s \<Longrightarrow> winv ul s"
  by (simp add: wstart_def wstart_state_def winv_def writer_holds_def published_def fresh_def
      NewWatcher_def tables_Nil)

lemma winv_rebuild: "winv ul s \<Longrightarrow> rebuild_step ul s t \<Longrightarrow> winv ul t"
  by (erule rebuild_stepE)
     (auto simp: winv_def writer_holds_def published_def fresh_def)

lemma winv_other:
  "winv ul s \<Longrightarrow> list_fail s t \<or> rlock_step s t \<or> runlock_step s t \<or> run_step s t \<or>
   informer_step s t \<Longrightarrow> winv ul t"
  by (elim disjE wstep_cases)
     (auto simp: winv_def writer_holds_def published_def fresh_def split: rebuild_pc.splits)

lemma winv_step: "winv ul s \<Longrightarrow> wstep ul s t \<Longrightarrow> winv ul t"
  using winv_rebuild winv_other unfolding wstep_def by blast

interpretation watcher_sys: inv_system wstart "wstep ul" "winv ul" for ul
  by unfold_locales (auto intro: winv_start winv_step)

section \<open>What readers see\<close>

text \<open>
  While a reader holds the lock the tables are those of one listing, so its answer is the
  reference decision on that listing.
\<close>

lemma reader_sees_listing:
  assumes "winv ul s" "0 < ws_readers s"
  shows "fst (AllowHost ul (ws_w s) h port) = decide (rules ul (ws_shown s)) (norm_host ul h) port"
proof (rule AllowHost_rules)
  have "\<not> writer_holds (ws_pc s)" using assms by (auto simp: winv_def)
  then have "hosts (ws_w s) = fst (tables ul (ws_shown s)) \<and>
      wildcards (ws_w s) = snd (tables ul (ws_shown s))"
    using assms(1) by (auto simp: winv_def published_def writer_holds_def split: rebuild_pc.splits)
  then show "hosts (ws_w s) = exact_table (rules ul (ws_shown s)) []"
    "wildcards (ws_w s) = wild_table (rules ul (ws_shown s))"
    by (simp_all add: tables_rules)
qed

text \<open>With no notification left and no failed listing, the published listing is the store.\<close>

lemma quiescent_shows_store:
  "winv ul s \<Longrightarrow> ws_pc s = RIdle \<Longrightarrow> ws_pending s = 0 \<Longrightarrow> \<not> ws_failed s \<Longrightarrow>
   ws_shown s = ws_cache s"
  by (simp add: winv_def fresh_def)

lemma idle_tables:
  assumes "winv ul s" "ws_pc s = RIdle"
  shows "fst (AllowHost ul (ws_w s) h port) = decide (rules ul (ws_shown s)) (norm_host ul h) port"
  using assms by (intro AllowHost_rules)
    (simp_all add: winv_def published_def tables_rules)

section \<open>The rebuild catches up\<close>

text \<open>
  If the informer is quiet, listings succeed and no new reader arrives, the steps left are
  those of \<open>rebuild\<close> and the readers' unlocks. Each lowers the measure below, and where
  none is left the store is published.
\<close>

definition pc_rank :: "rebuild_pc \<Rightarrow> nat" where
  "pc_rank pc = (case pc of RIdle \<Rightarrow> 0 | RBoth es \<Rightarrow> 1 | RHosts es \<Rightarrow> 2 | RLocked es \<Rightarrow> 3
     | RHave es \<Rightarrow> 4 | RList \<Rightarrow> 5)"

definition wrank :: "wstate \<Rightarrow> nat" where
  "wrank s = 6 * ws_pending s + pc_rank (ws_pc s) + ws_readers s"

definition quiet_step :: "(string \<Rightarrow> string) \<Rightarrow> wstate \<Rightarrow> wstate \<Rightarrow> bool" where
  "quiet_step ul s t \<longleftrightarrow> rebuild_step ul s t \<or> runlock_step s t"

lemma quiet_wstep: "quiet_step ul s t \<Longrightarrow> wstep ul s t"
  by (auto simp: quiet_step_def wstep_def)

lemma quiet_rank: "quiet_step ul s t \<Longrightarrow> wrank t < wrank s"
  unfolding quiet_step_def
  by (elim disjE rebuild_stepE runlock_stepE) (auto simp: wrank_def pc_rank_def)

interpretation watcher_quiet: terminating_system wstart "quiet_step ul" "winv ul" wrank for ul
  by unfold_locales (auto intro: winv_start winv_step quiet_wstep quiet_rank)

lemma quiet_stuck:
  assumes "\<And>t. \<not> quiet_step ul s t"
  shows "ws_pc s = RIdle \<and> ws_pending s = 0"
proof -
  have no: "\<not> rebuild_step ul s t" "\<not> runlock_step s t" for t
    using assms by (auto simp: quiet_step_def)
  have rd: "ws_readers s = 0" using no(2) runlock_step.intros [of s] by auto
  have "ws_pc s = RIdle"
    by (cases "ws_pc s") (use no(1) rd in \<open>auto dest: rebuild_step.intros\<close>)
  moreover have "ws_pending s = 0" using calculation no(1) rebuild_step.take [of s ul] by auto
  ultimately show ?thesis by blast
qed

lemma quiet_keeps:
  "quiet_step ul s t \<Longrightarrow> ws_cache t = ws_cache s \<and> (ws_failed t \<longrightarrow> ws_failed s)"
  unfolding quiet_step_def by (elim disjE rebuild_stepE runlock_stepE) auto

lemma quiet_run_keeps:
  "(quiet_step ul)\<^sup>*\<^sup>* s t \<Longrightarrow> ws_cache t = ws_cache s \<and> (ws_failed t \<longrightarrow> ws_failed s)"
  by (induction rule: rtranclp_induct) (auto dest: quiet_keeps)

lemma catches_up:
  assumes "winv ul s" "\<not> ws_failed s"
  shows "\<exists>t. (quiet_step ul)\<^sup>*\<^sup>* s t \<and> ws_pc t = RIdle \<and> ws_pending t = 0 \<and>
    ws_shown t = ws_cache s"
proof -
  obtain t where t: "(quiet_step ul)\<^sup>*\<^sup>* s t" "\<And>u. \<not> quiet_step ul t u"
    using watcher_quiet.ends [OF assms(1)] by blast
  have inv: "winv ul t" using t(1) assms(1) by (rule watcher_quiet.run_good)
  have "ws_pc t = RIdle \<and> ws_pending t = 0" using t(2) by (rule quiet_stuck)
  moreover have "ws_cache t = ws_cache s \<and> \<not> ws_failed t"
    using quiet_run_keeps [OF t(1)] assms(2) by blast
  ultimately show ?thesis using t(1) quiescent_shows_store [OF inv] by auto
qed

section \<open>A run of the watcher\<close>

text \<open>The informer delivers a listing, the rebuild publishes it, a reader arrives.\<close>

lemma example_run:
  "\<exists>s. (wstep ul)\<^sup>*\<^sup>* wstart_state s \<and> ws_readers s = 1 \<and> ws_shown s = es \<and> ws_cache s = es \<and>
     \<not> ws_failed s"
proof -
  define s1 where "s1 = wstart_state\<lparr>ws_run := RunWait\<rparr>"
  define s2 where "s2 = s1\<lparr>ws_cache := es, ws_pending := 1\<rparr>"
  define s3 where "s3 = s2\<lparr>ws_pc := RList, ws_pending := 0\<rparr>"
  define s4 where "s4 = s3\<lparr>ws_pc := RHave es, ws_failed := False\<rparr>"
  define s5 where "s5 = s4\<lparr>ws_pc := RLocked es\<rparr>"
  define s6 where "s6 = s5\<lparr>ws_w := (ws_w s5)\<lparr>hosts := fst (tables ul es)\<rparr>, ws_pc := RHosts es\<rparr>"
  define s7 where "s7 = s6\<lparr>ws_w := (ws_w s6)\<lparr>wildcards := snd (tables ul es)\<rparr>, ws_pc := RBoth es\<rparr>"
  define s8 where "s8 = s7\<lparr>ws_pc := RIdle, ws_shown := es\<rparr>"
  define s9 where "s9 = s8\<lparr>ws_readers := 1\<rparr>"
  note d = s1_def s2_def s3_def s4_def s5_def s6_def s7_def s8_def s9_def wstart_state_def wstep_def
  have st1: "wstep ul wstart_state s1" using run_step.register [of wstart_state] by (simp add: d)
  have st2: "wstep ul s1 s2" using informer_step.change [of s1 es] by (simp add: d started_def)
  have st3: "wstep ul s2 s3" using rebuild_step.take [of s2 ul] by (simp add: d)
  have st4: "wstep ul s3 s4" using rebuild_step.list_ok [of s3 ul] by (simp add: d)
  have st5: "wstep ul s4 s5" using rebuild_step.lock [of s4 es ul] by (simp add: d)
  have st6: "wstep ul s5 s6" using rebuild_step.set_hosts [of s5 es ul] by (simp add: d)
  have st7: "wstep ul s6 s7" using rebuild_step.set_wildcards [of s6 es ul] by (simp add: d)
  have st8: "wstep ul s7 s8" using rebuild_step.unlock [of s7 es ul] by (simp add: d)
  have st9: "wstep ul s8 s9" using rlock_step.intros [of s8] by (simp add: d writer_holds_def)
  have "(wstep ul)\<^sup>*\<^sup>* wstart_state s9"
    using converse_rtranclp_into_rtranclp [where r = "wstep ul", OF st1]
      converse_rtranclp_into_rtranclp [where r = "wstep ul", OF st2]
      converse_rtranclp_into_rtranclp [where r = "wstep ul", OF st3]
      converse_rtranclp_into_rtranclp [where r = "wstep ul", OF st4]
      converse_rtranclp_into_rtranclp [where r = "wstep ul", OF st5]
      converse_rtranclp_into_rtranclp [where r = "wstep ul", OF st6]
      converse_rtranclp_into_rtranclp [where r = "wstep ul", OF st7]
      converse_rtranclp_into_rtranclp [where r = "wstep ul", OF st8]
      r_into_rtranclp [where r = "wstep ul", OF st9] by blast
  then show ?thesis by (intro exI [of _ s9]) (simp add: d)
qed

section \<open>Properties\<close>

text \<open>
  C4. Snapshot reads: in every reachable state of the concurrent watcher, whatever the
  interleaving with a rebuild, a goroutine that holds the read lock gets the answer of one
  listing, the published one, never of a mixture of an old and a new table.
\<close>

theorem readers_see_one_listing:
  assumes "reachable wstart (wstep ul) s" "0 < ws_readers s"
  shows "fst (AllowHost ul (ws_w s) h port) = decide (rules ul (ws_shown s)) (norm_host ul h) port"
  using reader_sees_listing [OF watcher_sys.reachable_good [OF assms(1)] assms(2)] .

theorem readers_see_one_listing_witness:
  "\<exists>s. reachable wstart (wstep (\<lambda>s. s)) s \<and> ws_shown s = [ex_se [''api.example.com''] [443]] \<and>
     fst (AllowHost (\<lambda>s. s) (ws_w s) ''api.example.com'' 443)"
proof -
  obtain s where s: "(wstep (\<lambda>s. s))\<^sup>*\<^sup>* wstart_state s" "ws_readers s = 1"
    "ws_shown s = [ex_se [''api.example.com''] [443]]"
    using example_run [of "\<lambda>s. s" "[ex_se [''api.example.com''] [443]]"] by blast
  have r: "reachable wstart (wstep (\<lambda>s. s)) s" using s(1) by (auto simp: reachable_def wstart_def)
  have "decide (rules (\<lambda>s. s) (ws_shown s)) (norm_host (\<lambda>s. s) ''api.example.com'') 443"
    by (simp add: s(3) example_eval rule_ports_def se_entry_def)
  then show ?thesis using readers_see_one_listing [OF r] s(2,3) r by auto
qed

text \<open>
  C15. Catching up: from every reachable state whose last listing did not fail, the steps that
  are left to the handlers and to the readers that hold the lock lead, without further events,
  to a state in which no notification is left and the published listing is the informer's store.
  No run of such steps is longer than the rank of the state.
\<close>

theorem rebuild_catches_up:
  assumes "reachable wstart (wstep ul) s" "\<not> ws_failed s"
  shows "(\<exists>t. (quiet_step ul)\<^sup>*\<^sup>* s t \<and> ws_pc t = RIdle \<and> ws_pending t = 0 \<and>
      ws_shown t = ws_cache s \<and>
      (\<forall>h port. fst (AllowHost ul (ws_w t) h port) = decide (rules ul (ws_cache s)) (norm_host ul h) port)) \<and>
    (\<forall>n t. (quiet_step ul ^^ n) s t \<longrightarrow> n \<le> wrank s)"
proof (intro conjI allI impI)
  have inv: "winv ul s" by (rule watcher_sys.reachable_good [OF assms(1)])
  obtain t where t: "(quiet_step ul)\<^sup>*\<^sup>* s t" "ws_pc t = RIdle" "ws_pending t = 0" "ws_shown t = ws_cache s"
    using catches_up [OF inv assms(2)] by blast
  have "winv ul t" using t(1) inv by (rule watcher_quiet.run_good)
  then show "\<exists>t. (quiet_step ul)\<^sup>*\<^sup>* s t \<and> ws_pc t = RIdle \<and> ws_pending t = 0 \<and> ws_shown t = ws_cache s \<and>
      (\<forall>h port. fst (AllowHost ul (ws_w t) h port) = decide (rules ul (ws_cache s)) (norm_host ul h) port)"
    using t idle_tables [of ul t] by (intro exI [of _ t]) simp
  fix n t
  assume "(quiet_step ul ^^ n) s t"
  then show "n \<le> wrank s" using watcher_quiet.run_length [OF _ inv] by fastforce
qed

theorem rebuild_catches_up_witness:
  "\<exists>s t. ws_readers s = 1 \<and> (quiet_step (\<lambda>s. s))\<^sup>*\<^sup>* s t \<and>
     ws_shown t = [ex_se [''api.example.com''] [443]]"
proof -
  obtain s where s: "(wstep (\<lambda>s. s))\<^sup>*\<^sup>* wstart_state s" "ws_readers s = 1"
    "ws_cache s = [ex_se [''api.example.com''] [443]]" "\<not> ws_failed s"
    using example_run [of "\<lambda>s. s" "[ex_se [''api.example.com''] [443]]"] by blast
  have "reachable wstart (wstep (\<lambda>s. s)) s" using s(1) by (auto simp: reachable_def wstart_def)
  then show ?thesis using rebuild_catches_up [of "\<lambda>s. s" s] s(2,3,4) by auto
qed

end
