(* ===== verification/Serve.thy ===== *)
theory Serve
  imports Connect_Path Watcher_Sync
begin

text \<open>
  The dispatcher as a whole (internal/proxy/handler.go, \<open>ServeHTTP\<close>) and the proxy at
  work: requests served one after another while the watcher's goroutines run.
\<close>

section \<open>The decision of the dispatcher\<close>

definition is_connect :: "request \<Rightarrow> bool" where
  "is_connect r \<longleftrightarrow> Method r = MethodConnect"

definition request_target :: "request \<Rightarrow> string \<times> port" where
  "request_target r = (if is_connect r then connect_target r else forward_target r)"

text \<open>A request that reaches the ACL check: CONNECT, or an absolute URI with a host.\<close>

definition reaches_acl :: "request \<Rightarrow> bool" where
  "reaches_acl r \<longleftrightarrow> is_connect r \<or> proxy_form r"

definition acl_allows :: "go_lib \<Rightarrow> watcher \<Rightarrow> request \<Rightarrow> bool" where
  "acl_allows lib w r \<longleftrightarrow>
     fst (AllowHost (unicode_lower lib) w (fst (request_target r)) (snd (request_target r)))"

lemma acl_allows_split:
  "is_connect r \<Longrightarrow> connect_allowed lib w r = acl_allows lib w r"
  "\<not> is_connect r \<Longrightarrow> forward_allowed lib w r = (proxy_form r \<and> acl_allows lib w r)"
  by (simp_all add: connect_allowed_def forward_allowed_def acl_allows_def request_target_def)

lemma ServeHTTP_state:
  "fst (ServeHTTP lib h w fenv cenv r s) =
     (if is_connect r then fst (handleConnect lib h w cenv r s)
      else fst (handleHTTPForward lib h w fenv r s))"
  by (simp add: ServeHTTP_def is_connect_def case_prod_unfold)

section \<open>What the CONNECT path leaves alone\<close>

lemma run_tunnel_frame:
  "p_sent (fst (run_tunnel lib h env r host port client b up s)) = p_sent s"
  "p_cell (fst (run_tunnel lib h env r host port client b up s)) = p_cell s"
  "p_rw (fst (run_tunnel lib h env r host port client b up s)) = p_rw s"
  "p_bodies (fst (run_tunnel lib h env r host port client b up s)) = p_bodies s"
  by (simp_all add: run_tunnel_def Let_def case_prod_unfold effect_simps split: bool.splits)

lemma connect_upstream_frame:
  "p_sent (fst (connect_upstream lib h env r host port client b up s)) = p_sent s"
  "p_cell (fst (connect_upstream lib h env r host port client b up s)) = p_cell s"
  "p_rw (fst (connect_upstream lib h env r host port client b up s)) = p_rw s"
  "p_bodies (fst (connect_upstream lib h env r host port client b up s)) = p_bodies s"
  by (simp_all add: connect_upstream_def Let_def case_prod_unfold effect_simps run_tunnel_frame
      split: write_end.splits option.splits)

lemma connect_frame:
  "p_sent (fst (handleConnect lib h w env r s)) = p_sent s \<and>
   p_cell (fst (handleConnect lib h w env r s)) = p_cell s \<and>
   p_bodies (fst (handleConnect lib h w env r s)) = p_bodies s"
proof (rule handleConnect_cases [where lib = lib and w = w and r = r and env = env and h = h])
  fix client buffered conn
  assume a: "connect_allowed lib w r" "ce_hijacker env" "ce_hijack env = Some (client, buffered)"
    "fst (dialUpstream h (ce_dial env)) = Inr conn"
  show ?thesis
    by (simp add: connect_connected [OF a] case_prod_unfold effect_simps connect_upstream_frame)
qed (simp_all add: connect_branches denyConnect_def effect_simps)

lemma serve_sent:
  "p_sent (fst (ServeHTTP lib h w fenv cenv r s)) =
     p_sent s @ (if \<not> is_connect r \<and> proxy_form r \<and> acl_allows lib w r then [built lib h r] else [])"
  using acl_allows_split(2) [of r lib w] by (simp add: ServeHTTP_state connect_frame forward_sent)

lemma serve_active:
  "active_connections (p_metrics (fst (ServeHTTP lib h w fenv cenv r s))) =
     active_connections (p_metrics s)"
  by (simp add: ServeHTTP_state connect_active forward_active)

lemma serve_bodies: "p_bodies (fst (ServeHTTP lib h w fenv cenv r s)) = p_bodies s"
  by (simp add: ServeHTTP_state connect_frame forward_bodies)

lemma serve_cell:
  "cell_ok h (p_cell s) \<Longrightarrow> cell_ok h (p_cell (fst (ServeHTTP lib h w fenv cenv r s)))"
proof (cases "\<not> is_connect r \<and> forward_allowed lib w r")
  case True
  assume ok: "cell_ok h (p_cell s)"
  show ?thesis
    using True upstreamTransport_ok [OF ok]
    by (simp add: ServeHTTP_state forward_allow forward_built_cell) (metis prod.collapse)
next
  case False
  assume ok: "cell_ok h (p_cell s)"
  show ?thesis
    using False ok
    by (cases "is_connect r"; cases "proxy_form r")
       (simp_all add: ServeHTTP_state connect_frame forward_deny forward_bad effect_simps)
qed

section \<open>The audit trail\<close>

text \<open>A line about a request, at level info: its decision, target, client and identity.\<close>

definition audits :: "go_lib \<Rightarrow> handler \<Rightarrow> request \<Rightarrow> string \<Rightarrow> log_line \<Rightarrow> bool" where
  "audits lib h r decision l \<longleftrightarrow>
     line_level l = LevelInfo \<and>
     line_attr l ''decision'' = Some (VStr decision) \<and>
     line_attr l ''target_host'' = Some (VStr (fst (request_target r))) \<and>
     line_attr l ''target_port'' = Some (VUint (snd (request_target r))) \<and>
     line_attr l ''client_addr'' = Some (VStr (RemoteAddr r)) \<and>
     line_attr l ''spiffe'' = Some (VStr (spiffeFromRequest (url_Parse lib) (TrustXFCCHeader h) r))"

text \<open>A log grows by at most one line, and that line is about the request.\<close>

definition audit_grows ::
  "go_lib \<Rightarrow> handler \<Rightarrow> request \<Rightarrow> string \<Rightarrow> log_line list \<Rightarrow> log_line list \<Rightarrow> bool" where
  "audit_grows lib h r decision a b \<longleftrightarrow>
     (\<exists>ls. b = a @ ls \<and> length ls \<le> 1 \<and> (\<forall>l \<in> set ls. audits lib h r decision l))"

lemma audit_grows_same [intro]: "audit_grows lib h r d a a"
  by (simp add: audit_grows_def)

lemma audit_grows_one [intro]: "audits lib h r d l \<Longrightarrow> audit_grows lib h r d a (a @ [l])"
  by (auto simp: audit_grows_def)

lemma relay_audit:
  "\<not> is_connect r \<Longrightarrow> p_audit s = a \<Longrightarrow>
   audit_grows lib h r ''allow'' a (p_audit (fst (relay_response lib h env r (fst (forward_target r))
      (snd (forward_target r)) resp s)))"
  by (auto simp: relay_response_def Let_def case_prod_unfold effect_simps audits_def
      request_target_def zero_event_def split: option.splits)

lemma forward_built_audit:
  "\<not> is_connect r \<Longrightarrow>
   audit_grows lib h r ''allow'' (p_audit s) (p_audit (fst (forward_built lib h env r
      (fst (forward_target r)) (snd (forward_target r)) outReq cnt s)))"
  by (auto simp: forward_built_def forward_finish_def Let_def case_prod_unfold effect_simps
      intro!: relay_audit
      split: round_trip.splits)

lemma run_tunnel_audit:
  "is_connect r \<Longrightarrow> p_audit s = a \<Longrightarrow>
   audit_grows lib h r ''allow'' a (p_audit (fst (run_tunnel lib h env r (fst (connect_target r))
      (snd (connect_target r)) client b up s)))"
  by (auto simp: run_tunnel_def Let_def case_prod_unfold effect_simps audits_def
      request_target_def zero_event_def split: bool.splits)

lemma connect_upstream_audit:
  "is_connect r \<Longrightarrow> p_audit s = a \<Longrightarrow>
   audit_grows lib h r ''allow'' a (p_audit (fst (connect_upstream lib h env r (fst (connect_target r))
      (snd (connect_target r)) client b up s)))"
  by (auto simp: connect_upstream_def Let_def case_prod_unfold effect_simps intro!: run_tunnel_audit
      split: write_end.splits option.splits)

lemma connect_audit:
  assumes "is_connect r" "connect_allowed lib w r"
  shows "audit_grows lib h r ''allow'' (p_audit s) (p_audit (fst (handleConnect lib h w env r s)))"
proof (rule handleConnect_cases [where lib = lib and w = w and r = r and env = env and h = h])
  fix client buffered conn
  assume a: "connect_allowed lib w r" "ce_hijacker env" "ce_hijack env = Some (client, buffered)"
    "fst (dialUpstream h (ce_dial env)) = Inr conn"
  show ?thesis
    by (auto simp: connect_connected [OF a] case_prod_unfold effect_simps
        intro!: connect_upstream_audit assms(1))
qed (use assms in \<open>auto simp: connect_branches effect_simps\<close>)

text \<open>The line a denied request leaves.\<close>

lemma deny_audits:
  "\<not> is_connect r \<Longrightarrow> \<exists>l. p_audit (denyForward lib h now r (fst (forward_target r))
      (snd (forward_target r)) reason s) = p_audit s @ [l] \<and> audits lib h r ''deny'' l"
  "is_connect r \<Longrightarrow> \<exists>l. p_audit (denyConnect lib h now r (fst (connect_target r))
      (snd (connect_target r)) reason s) = p_audit s @ [l] \<and> audits lib h r ''deny'' l"
  by (simp_all add: denyForward_def denyConnect_def effect_simps audits_def request_target_def
      zero_event_def)

lemma serve_audit_allow:
  assumes "reaches_acl r" "acl_allows lib w r"
  shows "audit_grows lib h r ''allow'' (p_audit s)
    (p_audit (fst (ServeHTTP lib h w fenv cenv r s)))"
proof (cases "is_connect r")
  case True
  then show ?thesis using assms by (simp add: ServeHTTP_state connect_audit acl_allows_split)
next
  case False
  then have "forward_allowed lib w r" using assms by (simp add: acl_allows_split reaches_acl_def)
  then show ?thesis using False by (simp add: ServeHTTP_state forward_allow forward_built_audit)
qed

lemma serve_audit_deny:
  assumes "reaches_acl r" "\<not> acl_allows lib w r"
  shows "\<exists>l. p_audit (fst (ServeHTTP lib h w fenv cenv r s)) = p_audit s @ [l] \<and>
    audits lib h r ''deny'' l"
proof (cases "is_connect r")
  case True
  then have "\<not> connect_allowed lib w r" using assms by (simp add: acl_allows_split)
  then show ?thesis using True deny_audits(2) by (simp add: ServeHTTP_state connect_deny)
next
  case False
  then have "proxy_form r" "\<not> forward_allowed lib w r"
    using assms by (simp_all add: acl_allows_split reaches_acl_def)
  then show ?thesis using False deny_audits(1) by (simp add: ServeHTTP_state forward_deny)
qed

lemma serve_audit_bad:
  "\<not> reaches_acl r \<Longrightarrow> p_audit (fst (ServeHTTP lib h w fenv cenv r s)) = p_audit s"
  by (simp add: reaches_acl_def ServeHTTP_state forward_bad effect_simps)

section \<open>Properties\<close>

text \<open>
  C13. A denied request is refused and nothing else happens: the client gets 403 with the reason,
  exactly one audit line is written, a deny of that target for that client, no request is passed
  on, no connection is opened or taken over, and the transport is not touched.
\<close>

theorem denied_request_is_refused:
  assumes "reaches_acl r" "\<not> acl_allows lib w r" "rw_sent (p_rw s) = None" "rw_limit (p_rw s) = None"
    and "ServeHTTP lib h w fenv cenv r s = (s', res)"
  shows "sent_status (p_rw s') = Some 403 \<and>
    rw_body (p_rw s') = rw_body (p_rw s) @ ''forbidden: host_not_in_service_entry_allowlist'' @ newline \<and>
    (\<exists>l. p_audit s' = p_audit s @ [l] \<and> audits lib h r ''deny'' l) \<and>
    p_sent s' = p_sent s \<and> p_cell s' = p_cell s \<and>
    (case res of None \<Rightarrow> True | Some c \<Rightarrow> cr_client c = None \<and> cr_upstream c = None)"
proof -
  have st: "s' = fst (ServeHTTP lib h w fenv cenv r s)" using assms(5) by simp
  have audit: "\<exists>l. p_audit s' = p_audit s @ [l] \<and> audits lib h r ''deny'' l"
    unfolding st by (rule serve_audit_deny [OF assms(1,2)])
  show ?thesis
  proof (cases "is_connect r")
    case True
    then have d: "\<not> connect_allowed lib w r" using assms(2) by (simp add: acl_allows_split)
    have "s' = denyConnect lib h (ce_log cenv) r (fst (connect_target r)) (snd (connect_target r)) deny_reason s"
      "res = Some \<lparr>cr_client = None, cr_upstream = None, cr_end = Returned\<rparr>"
      using assms(5) True by (auto simp: ServeHTTP_def is_connect_def connect_deny [OF d])
    then show ?thesis using audit assms(3,4)
      by (simp add: denyConnect_def effect_simps http_Error_status http_Error_body body_allowed_def status_defs deny_reason_def)
  next
    case False
    then have d: "proxy_form r" "\<not> forward_allowed lib w r"
      using assms(1,2) by (simp_all add: acl_allows_split reaches_acl_def)
    have "s' = denyForward lib h (fe_log fenv) r (fst (forward_target r)) (snd (forward_target r)) deny_reason s"
      "res = None"
      using assms(5) False by (auto simp: ServeHTTP_def is_connect_def forward_deny [OF d])
    then show ?thesis using audit assms(3,4)
      by (simp add: denyForward_def effect_simps http_Error_status http_Error_body body_allowed_def status_defs deny_reason_def)
  qed
qed

theorem denied_request_is_refused_witness:
  "\<exists>s' res. ServeHTTP ex_go ex_handler NewWatcher (ex_env RTError) (ex_connect_env ex_upstream) ex_connect
      ex_state = (s', res) \<and> sent_status (p_rw s') = Some 403 \<and> p_sent s' = []"
proof -
  obtain s' res where e: "ServeHTTP ex_go ex_handler NewWatcher (ex_env RTError) (ex_connect_env ex_upstream)
      ex_connect ex_state = (s', res)" by fastforce
  have "reaches_acl ex_connect"
    by (simp add: reaches_acl_def is_connect_def ex_connect_def MethodConnect_def)
  moreover have "\<not> acl_allows ex_go NewWatcher ex_connect" by (simp add: acl_allows_def AllowHost_new)
  moreover have "rw_sent (p_rw ex_state) = None" "rw_limit (p_rw ex_state) = None" "p_sent ex_state = []"
    by (simp_all add: ex_state_def ex_writer_def)
  ultimately show ?thesis using denied_request_is_refused [OF _ _ _ _ e] e by auto
qed

end
