(* ===== verification/Proxy_System.thy ===== *)
theory Proxy_System
  imports Serve
begin

text \<open>
  The proxy at work: the watcher's goroutines (the machine of \<open>Watcher_Sync\<close>) and requests
  that are served by one \<open>Handler\<close> (internal/proxy/handler.go), whose ACL answer is taken
  while the request holds the read lock. The effects of one request on the shared state (audit
  log, metrics, transport, requests sent upstream) are one step; the ghost component
  \<open>px_served\<close> lists the requests with the listing that was published when their answer was
  taken.
\<close>

record proxy =
  px_watch :: wstate
  px_state :: pstate
  px_served :: "(request \<times> service_entry list) list"

text \<open>Every request has a response writer of its own.\<close>

definition serve ::
  "go_lib \<Rightarrow> handler \<Rightarrow> fwd_env \<Rightarrow> connect_env \<Rightarrow> request \<Rightarrow> response_writer \<Rightarrow> proxy \<Rightarrow> proxy" where
  "serve lib h fenv cenv r rw p =
     p\<lparr>px_state := fst (ServeHTTP lib h (ws_w (px_watch p)) fenv cenv r ((px_state p)\<lparr>p_rw := rw\<rparr>)),
       px_served := px_served p @ [(r, ws_shown (px_watch p))]\<rparr>"

inductive proxy_step :: "go_lib \<Rightarrow> handler \<Rightarrow> proxy \<Rightarrow> proxy \<Rightarrow> bool" for lib h where
  watch: "wstep (unicode_lower lib) (px_watch p) w \<Longrightarrow> proxy_step lib h p (p\<lparr>px_watch := w\<rparr>)"
| serve: "0 < ws_readers (px_watch p) \<Longrightarrow> fresh_writer rw \<Longrightarrow>
    proxy_step lib h p (serve lib h fenv cenv r rw p)"

inductive_cases proxy_stepE: "proxy_step lib h p q"

definition empty_state :: "response_writer \<Rightarrow> pstate" where
  "empty_state rw = \<lparr>p_rw = rw, p_metrics = [], p_audit = [], p_diag = [], p_sent = [],
     p_cell = new_cell, p_bodies = 0\<rparr>"

definition proxy_start :: "proxy \<Rightarrow> bool" where
  "proxy_start p \<longleftrightarrow> wstart (px_watch p) \<and> (\<exists>rw. px_state p = empty_state rw) \<and> px_served p = []"

section \<open>What the decisions were\<close>

definition listing_allows :: "go_lib \<Rightarrow> request \<times> service_entry list \<Rightarrow> bool" where
  "listing_allows lib re \<longleftrightarrow>
     decide (rules (unicode_lower lib) (snd re))
       (norm_host (unicode_lower lib) (fst (request_target (fst re)))) (snd (request_target (fst re)))"

definition forwarded :: "go_lib \<Rightarrow> request \<times> service_entry list \<Rightarrow> bool" where
  "forwarded lib re \<longleftrightarrow>
     \<not> is_connect (fst re) \<and> proxy_form (fst re) \<and> listing_allows lib re"

text \<open>The decision the audit trail must show for a served request.\<close>

definition decision_of :: "go_lib \<Rightarrow> request \<times> service_entry list \<Rightarrow> string" where
  "decision_of lib re = (if listing_allows lib re then ''allow'' else ''deny'')"

definition audit_line_for :: "go_lib \<Rightarrow> handler \<Rightarrow> (request \<times> service_entry list) list \<Rightarrow> log_line \<Rightarrow> bool"
where
  "audit_line_for lib h served l \<longleftrightarrow>
     (\<exists>re \<in> set served. reaches_acl (fst re) \<and> audits lib h (fst re) (decision_of lib re) l)"

definition proxy_inv :: "go_lib \<Rightarrow> handler \<Rightarrow> proxy \<Rightarrow> bool" where
  "proxy_inv lib h p \<longleftrightarrow>
     winv (unicode_lower lib) (px_watch p) \<and>
     p_sent (px_state p) = map (built lib h \<circ> fst) (filter (forwarded lib) (px_served p)) \<and>
     active_connections (p_metrics (px_state p)) = 0 \<and> p_bodies (px_state p) = 0 \<and>
     cell_ok h (p_cell (px_state p)) \<and>
     (\<forall>l \<in> set (p_audit (px_state p)). audit_line_for lib h (px_served p) l) \<and>
     (\<forall>re \<in> set (px_served p). reaches_acl (fst re) \<and> \<not> listing_allows lib re \<longrightarrow>
        (\<exists>l \<in> set (p_audit (px_state p)). audits lib h (fst re) ''deny'' l))"

lemma reader_acl:
  "winv (unicode_lower lib) s \<Longrightarrow> 0 < ws_readers s \<Longrightarrow>
   acl_allows lib (ws_w s) r = listing_allows lib (r, ws_shown s)"
  by (simp add: acl_allows_def listing_allows_def reader_sees_listing)

lemma proxy_inv_start: "proxy_start p \<Longrightarrow> proxy_inv lib h p"
  by (auto simp: proxy_start_def proxy_inv_def empty_state_def winv_start cell_ok_new)

lemma audit_line_more: "audit_line_for lib h xs l \<Longrightarrow> audit_line_for lib h (xs @ ys) l"
  by (auto simp: audit_line_for_def)

lemma serve_trail:
  assumes "acl_allows lib w r = listing_allows lib (r, es)"
  shows "\<exists>ls. p_audit (fst (ServeHTTP lib h w fenv cenv r s)) = p_audit s @ ls \<and>
    (\<forall>l \<in> set ls. audit_line_for lib h [(r, es)] l) \<and>
    (reaches_acl r \<and> \<not> listing_allows lib (r, es) \<longrightarrow> (\<exists>l \<in> set ls. audits lib h r ''deny'' l))"
proof -
  consider "\<not> reaches_acl r" | "reaches_acl r" "acl_allows lib w r" | "reaches_acl r" "\<not> acl_allows lib w r"
    by blast
  then show ?thesis
  proof cases
    case 1
    then show ?thesis by (simp add: serve_audit_bad)
  next
    case 2
    then show ?thesis using serve_audit_allow [OF 2, of h s fenv cenv] assms
      by (auto simp: audit_grows_def audit_line_for_def decision_of_def)
  next
    case 3
    then show ?thesis using serve_audit_deny [OF 3, of h fenv cenv s] assms
      by (auto simp: audit_line_for_def decision_of_def)
  qed
qed

lemma proxy_inv_serve:
  assumes inv: "proxy_inv lib h p" and rd: "0 < ws_readers (px_watch p)"
  shows "proxy_inv lib h (serve lib h fenv cenv r rw p)"
proof -
  let ?w = "px_watch p" and ?s = "(px_state p)\<lparr>p_rw := rw\<rparr>"
  let ?q = "serve lib h fenv cenv r rw p"
  have acl: "acl_allows lib (ws_w ?w) r = listing_allows lib (r, ws_shown ?w)"
    using inv rd by (intro reader_acl) (simp_all add: proxy_inv_def)
  have st: "px_state ?q = fst (ServeHTTP lib h (ws_w ?w) fenv cenv r ?s)"
    "px_served ?q = px_served p @ [(r, ws_shown ?w)]" "px_watch ?q = ?w"
    by (simp_all add: serve_def)
  have sent: "p_sent (px_state ?q) = map (built lib h \<circ> fst) (filter (forwarded lib) (px_served ?q))"
    using inv acl by (simp add: st serve_sent proxy_inv_def forwarded_def)
  have rest: "active_connections (p_metrics (px_state ?q)) = 0" "p_bodies (px_state ?q) = 0"
    "cell_ok h (p_cell (px_state ?q))"
    using inv by (simp_all add: st serve_active serve_bodies serve_cell proxy_inv_def)
  obtain ls where ls: "p_audit (px_state ?q) = p_audit (px_state p) @ ls"
    "\<forall>l \<in> set ls. audit_line_for lib h [(r, ws_shown ?w)] l"
    "reaches_acl r \<and> \<not> listing_allows lib (r, ws_shown ?w) \<longrightarrow> (\<exists>l \<in> set ls. audits lib h r ''deny'' l)"
    using serve_trail [OF acl, of h fenv cenv ?s] by (auto simp: st)
  have "audit_line_for lib h (px_served ?q) l" if "l \<in> set (p_audit (px_state ?q))" for l
    using that inv ls(1,2) by (auto simp: st(2) proxy_inv_def audit_line_for_def)
  moreover have "\<exists>l \<in> set (p_audit (px_state ?q)). audits lib h (fst re) ''deny'' l"
    if "re \<in> set (px_served ?q)" "reaches_acl (fst re) \<and> \<not> listing_allows lib re" for re
    using that inv ls(1,3) by (auto simp: st(2) proxy_inv_def)
  ultimately show ?thesis using inv sent rest by (auto simp: proxy_inv_def st(3))
qed

lemma proxy_inv_step: "proxy_inv lib h p \<Longrightarrow> proxy_step lib h p q \<Longrightarrow> proxy_inv lib h q"
proof (erule proxy_stepE)
  fix w
  assume "proxy_inv lib h p" "q = p\<lparr>px_watch := w\<rparr>" "wstep (unicode_lower lib) (px_watch p) w"
  then show "proxy_inv lib h q" by (auto simp: proxy_inv_def intro: winv_step)
qed (auto intro: proxy_inv_serve)

interpretation proxy_sys: inv_system proxy_start "proxy_step lib h" "proxy_inv lib h" for lib h
  by unfold_locales (auto intro: proxy_inv_start proxy_inv_step)

text \<open>Every audit line is a record of level info, that of a served request that reached the ACL.\<close>

lemma audit_line_info: "audit_line_for lib h served l \<Longrightarrow> line_level l = LevelInfo"
  by (auto simp: audit_line_for_def audits_def)

lemma reachable_lines_info:
  assumes "reachable proxy_start (proxy_step lib h) p" "l \<in> set (p_audit (px_state p))"
  shows "line_level l = LevelInfo"
  using proxy_sys.reachable_good [OF assms(1)] assms(2) audit_line_info by (auto simp: proxy_inv_def)

section \<open>A run of the proxy\<close>

lemma watch_run:
  assumes "(wstep (unicode_lower lib))\<^sup>*\<^sup>* (px_watch p) w"
  shows "(proxy_step lib h)\<^sup>*\<^sup>* p (p\<lparr>px_watch := w\<rparr>)"
  using assms
proof (induction rule: rtranclp_induct)
  case base
  then show ?case by simp
next
  case (step v w)
  have "proxy_step lib h (p\<lparr>px_watch := v\<rparr>) (p\<lparr>px_watch := w\<rparr>)"
    using proxy_step.watch [of lib "p\<lparr>px_watch := v\<rparr>" w h] step.hyps(2) by simp
  with step.IH show ?case by (rule rtranclp.rtrancl_into_rtrancl)
qed

text \<open>The listing is published, then any one request is served.\<close>

lemma example_proxy_run:
  "\<exists>p. reachable proxy_start (proxy_step ex_go ex_handler) p \<and>
     px_served p = [(q, [ex_se [''api.example.com''] [80, 443]])]"
proof -
  let ?es = "[ex_se [''api.example.com''] [80, 443]]"
  define p0 where "p0 = \<lparr>px_watch = wstart_state, px_state = empty_state ex_writer, px_served = []\<rparr>"
  obtain w where w: "(wstep (\<lambda>s. s))\<^sup>*\<^sup>* wstart_state w" "ws_readers w = 1" "ws_shown w = ?es"
    using example_run [of "\<lambda>s. s" ?es] by blast
  have "(proxy_step ex_go ex_handler)\<^sup>*\<^sup>* p0 (p0\<lparr>px_watch := w\<rparr>)"
    by (rule watch_run) (use w(1) in \<open>simp add: ex_go_def p0_def\<close>)
  moreover have "proxy_step ex_go ex_handler (p0\<lparr>px_watch := w\<rparr>)
      (serve ex_go ex_handler (ex_env RTError) (ex_connect_env ex_upstream) q ex_writer
        (p0\<lparr>px_watch := w\<rparr>))"
    by (rule proxy_step.serve) (simp_all add: w(2) fresh_writer_def ex_writer_def)
  moreover have "proxy_start p0" by (auto simp: proxy_start_def p0_def wstart_def)
  ultimately show ?thesis
    by (intro exI [of _ "serve ex_go ex_handler (ex_env RTError) (ex_connect_env ex_upstream) q
        ex_writer (p0\<lparr>px_watch := w\<rparr>)"])
      (auto simp: reachable_def serve_def w(3) p0_def intro: rtranclp.rtrancl_into_rtrancl)
qed

lemmas ex_proxy_run = example_proxy_run [of ex_request]

end
