(* ===== verification/Idle_Timer.thy ===== *)
theory Idle_Timer
  imports Conn
begin

text \<open>
  The idle timeout in time (internal/proxy/handler.go, \<open>idleTimeoutConn\<close>): what the
  deadlines set before every read and write do to a connection and to a tunnel. Times are
  integers on one clock.

  \<open>conn_Read\<close> is a net.Conn read under its deadline: data that is there before the
  deadline is returned when it arrives, otherwise the read fails when the deadline passes, and
  without data and deadline it never returns (None).

  Here setting a deadline succeeds and a write takes no time; the branch in which
  \<open>SetDeadline\<close> fails, and the reads and writes that return its error, are those of
  \<open>layer_read\<close> and \<open>layer_write\<close> in theory \<open>Conn\<close>.
\<close>

section \<open>One connection\<close>

record timed_conn =
  deadline :: "int option"
  arrivals :: "(int \<times> string) list"

datatype read_result = Data int string | TimedOut int

definition SetDeadline :: "int \<Rightarrow> timed_conn \<Rightarrow> timed_conn" where
  "SetDeadline t c = c\<lparr>deadline := Some t\<rparr>"

definition conn_Read :: "int \<Rightarrow> timed_conn \<Rightarrow> (read_result \<times> timed_conn) option" where
  "conn_Read now c =
     (case arrivals c of
        [] \<Rightarrow> (case deadline c of None \<Rightarrow> None | Some d \<Rightarrow> Some (TimedOut (max now d), c))
      | (a, b) # as \<Rightarrow>
          let ready = max now a in
          if deadline c \<noteq> None \<and> the (deadline c) \<le> ready
          then Some (TimedOut (max now (the (deadline c))), c)
          else Some (Data ready b, c\<lparr>arrivals := as\<rparr>))"

text \<open>\<open>idleTimeoutConn.Read\<close>, and the read of what \<open>wrapIdleTimeout\<close> returns.\<close>

definition idle_Read :: "int \<Rightarrow> int \<Rightarrow> timed_conn \<Rightarrow> (read_result \<times> timed_conn) option" where
  "idle_Read timeout now c = conn_Read now (SetDeadline (now + timeout) c)"

definition wrapped_Read :: "int \<Rightarrow> int \<Rightarrow> timed_conn \<Rightarrow> (read_result \<times> timed_conn) option" where
  "wrapped_Read timeout now c = (if timeout \<le> 0 then conn_Read now c else idle_Read timeout now c)"

text \<open>Reading chunk after chunk, each read starting when the one before returned.\<close>

fun read_chunks ::
  "(int \<Rightarrow> timed_conn \<Rightarrow> (read_result \<times> timed_conn) option) \<Rightarrow> nat \<Rightarrow> int \<Rightarrow> timed_conn \<Rightarrow> read_result list"
where
  "read_chunks rd 0 now c = []"
| "read_chunks rd (Suc n) now c =
     (case rd now c of
        None \<Rightarrow> []
      | Some (TimedOut t, c') \<Rightarrow> [TimedOut t]
      | Some (Data t b, c') \<Rightarrow> Data t b # read_chunks rd n t c')"

text \<open>Every gap, from the start on, is shorter than the timeout.\<close>

fun gaps_below :: "int \<Rightarrow> int \<Rightarrow> (int \<times> 'a) list \<Rightarrow> bool" where
  "gaps_below T t [] = True"
| "gaps_below T t ((a, b) # as) = (t \<le> a \<and> a < t + T \<and> gaps_below T a as)"

lemma idle_reads_all:
  "gaps_below T now (arrivals c) \<Longrightarrow>
   read_chunks (idle_Read T) (length (arrivals c)) now c = map (\<lambda>(a, b). Data a b) (arrivals c)"
proof (induction "arrivals c" arbitrary: now c)
  case Nil
  then show ?case by (metis length_0_conv list.map_disc_iff read_chunks.simps(1))
next
  case (Cons ab as)
  obtain a b where ab: "ab = (a, b)" by fastforce
  have arr: "arrivals c = (a, b) # as" using Cons.hyps(2) ab by simp
  let ?c = "(SetDeadline (now + T) c)\<lparr>arrivals := as\<rparr>"
  have g: "now \<le> a" "a < now + T" "gaps_below T a as" using Cons.prems arr by auto
  have "read_chunks (idle_Read T) (length (arrivals ?c)) a ?c = map (\<lambda>(a, b). Data a b) (arrivals ?c)"
    by (rule Cons.hyps(1)) (use g in simp_all)
  then show ?case
    using g arr by (simp add: idle_Read_def conn_Read_def SetDeadline_def max_def)
qed

text \<open>A gap of at least the timeout ends the reading at the end of the timeout.\<close>

lemma idle_times_out:
  "0 < T \<Longrightarrow> (case arrivals c of [] \<Rightarrow> True | (a, b) # as \<Rightarrow> now + T \<le> a) \<Longrightarrow>
   \<exists>c'. idle_Read T now c = Some (TimedOut (now + T), c')"
  by (auto simp: idle_Read_def conn_Read_def SetDeadline_def max_def split: list.splits)

section \<open>Both legs of a tunnel\<close>

text \<open>
  The deadlines of the two wrapped connections of a tunnel. A chunk relayed at time \<open>t\<close>
  is read from one connection and written to the other; the write sets that one's deadline
  and the next read sets the first one's.
\<close>

datatype flow = ToUpstream | ToClient

record timers =
  dl_client :: int
  dl_upstream :: int

definition tunnel_timers :: "int \<Rightarrow> int \<Rightarrow> timers" where
  "tunnel_timers T now = \<lparr>dl_client = now + T, dl_upstream = now + T\<rparr>"

definition leg_Read :: "int \<Rightarrow> flow \<Rightarrow> int \<Rightarrow> timers \<Rightarrow> timers" where
  "leg_Read T f now tm =
     (case f of ToUpstream \<Rightarrow> tm\<lparr>dl_client := now + T\<rparr> | ToClient \<Rightarrow> tm\<lparr>dl_upstream := now + T\<rparr>)"

definition leg_Write :: "int \<Rightarrow> flow \<Rightarrow> int \<Rightarrow> timers \<Rightarrow> timers" where
  "leg_Write T f now tm =
     (case f of ToUpstream \<Rightarrow> tm\<lparr>dl_upstream := now + T\<rparr> | ToClient \<Rightarrow> tm\<lparr>dl_client := now + T\<rparr>)"

definition relay_chunk :: "int \<Rightarrow> flow \<Rightarrow> int \<Rightarrow> timers \<Rightarrow> timers" where
  "relay_chunk T f now tm = leg_Read T f now (leg_Write T f now tm)"

text \<open>
  Whether neither pending read of the tunnel times out before each of the chunks, and the
  timers afterwards. A pending read of a leg fails once that leg's deadline is reached.
\<close>

fun tunnel_alive :: "int \<Rightarrow> timers \<Rightarrow> (int \<times> flow) list \<Rightarrow> bool" where
  "tunnel_alive T tm [] = True"
| "tunnel_alive T tm ((t, f) # es) =
     (t < dl_client tm \<and> t < dl_upstream tm \<and> tunnel_alive T (relay_chunk T f t tm) es)"

fun tunnel_after :: "int \<Rightarrow> timers \<Rightarrow> (int \<times> flow) list \<Rightarrow> timers" where
  "tunnel_after T tm [] = tm"
| "tunnel_after T tm ((t, f) # es) = tunnel_after T (relay_chunk T f t tm) es"

text \<open>Whichever way a chunk goes, both deadlines are those of a fresh tunnel.\<close>

lemma relay_chunk_timers: "relay_chunk T f t tm = tunnel_timers T t"
  by (cases f) (simp_all add: relay_chunk_def leg_Read_def leg_Write_def tunnel_timers_def)

fun ordered_from :: "int \<Rightarrow> (int \<times> 'a) list \<Rightarrow> bool" where
  "ordered_from t [] = True"
| "ordered_from t ((a, b) # as) = (t \<le> a \<and> ordered_from a as)"

lemma tunnel_alive_gaps:
  "ordered_from now es \<Longrightarrow> tunnel_alive T (tunnel_timers T now) es \<longleftrightarrow> gaps_below T now es"
proof (induction es arbitrary: now)
  case (Cons e es)
  obtain t f where e: "e = (t, f)" by fastforce
  show ?case using Cons by (auto simp: e relay_chunk_timers) (auto simp: tunnel_timers_def)
qed simp

lemma tunnel_after_last:
  "tunnel_after T (tunnel_timers T now) es =
   tunnel_timers T (case es of [] \<Rightarrow> now | _ \<Rightarrow> fst (last es))"
proof (induction es arbitrary: now)
  case (Cons e es)
  obtain t f where e: "e = (t, f)" by fastforce
  show ?case by (simp add: e relay_chunk_timers Cons split: list.splits)
qed simp

section \<open>Properties\<close>

text \<open>
  C21. The timeout is an idle timeout: a transfer in which every chunk follows the one before in
  less than the timeout is delivered completely, however long it lasts, and a read on a
  connection that stays silent fails exactly when the timeout has passed. A timeout that is not
  positive changes nothing.
\<close>

theorem idle_timeout_counts_from_last_activity:
  "(0 < T \<and> gaps_below T now (arrivals c) \<longrightarrow>
      read_chunks (wrapped_Read T) (length (arrivals c)) now c = map (\<lambda>(a, b). Data a b) (arrivals c)) \<and>
   (0 < T \<and> (case arrivals c of [] \<Rightarrow> True | (a, b) # as \<Rightarrow> now + T \<le> a) \<longrightarrow>
      (\<exists>c'. wrapped_Read T now c = Some (TimedOut (now + T), c'))) \<and>
   (T \<le> 0 \<longrightarrow> wrapped_Read T now c = conn_Read now c)"
proof -
  have w: "wrapped_Read T = idle_Read T" if "0 < T" using that by (simp add: wrapped_Read_def fun_eq_iff)
  show ?thesis using w idle_reads_all [of T now c] idle_times_out [where T = T and c = c and now = now] by (auto simp: wrapped_Read_def)
qed

theorem idle_timeout_counts_from_last_activity_witness:
  "read_chunks (wrapped_Read 90) 3 0 \<lparr>deadline = None, arrivals = [(60, ''a''), (120, ''b''), (200, ''c'')]\<rparr> =
     [Data 60 ''a'', Data 120 ''b'', Data 200 ''c'']"
  using idle_timeout_counts_from_last_activity
    [of 90 0 "\<lparr>deadline = None, arrivals = [(60, ''a''), (120, ''b''), (200, ''c'')]\<rparr>"]
  by (simp add: eval_nat_numeral)

text \<open>
  C22. One timer for the tunnel: with both legs wrapped, traffic in either direction keeps both
  alive, so the tunnel survives exactly if every gap between chunks, whichever way they go, is
  shorter than the timeout; and afterwards both legs time out one timeout after the last chunk.
\<close>

theorem tunnel_has_one_idle_timer:
  assumes "ordered_from now es"
  shows "(tunnel_alive T (tunnel_timers T now) es \<longleftrightarrow> gaps_below T now es) \<and>
    tunnel_after T (tunnel_timers T now) es =
      (let t = (case es of [] \<Rightarrow> now | _ \<Rightarrow> fst (last es)) in \<lparr>dl_client = t + T, dl_upstream = t + T\<rparr>)"
  using tunnel_alive_gaps [OF assms, of T] tunnel_after_last [of T now es]
  by (simp add: tunnel_timers_def Let_def split: list.splits)

theorem tunnel_has_one_idle_timer_witness:
  "tunnel_alive 90 (tunnel_timers 90 0) [(80, ToClient), (160, ToClient), (240, ToUpstream)] \<and>
   \<not> tunnel_alive 90 (tunnel_timers 90 0) [(80, ToClient), (170, ToUpstream)]"
  using tunnel_has_one_idle_timer [of 0 "[(80, ToClient), (160, ToClient), (240, ToUpstream)]" 90]
    tunnel_has_one_idle_timer [of 0 "[(80, ToClient), (170, ToUpstream)]" 90]
  by simp

end
