(* ===== verification/Admin.thy ===== *)
theory Admin
  imports Watcher Http_Msg "HOL-Library.List_Lexorder" "HOL-Library.Char_ord"
begin

text \<open>
  The administration endpoints (cmd/main.go, \<open>metricsMux\<close> and \<open>isLoopback\<close>) and the
  dump of the allowlist (internal/serviceentry/watcher.go, \<open>DumpJSON\<close>).

  The Prometheus handler and what the request multiplexer answers on other paths (a redirect or
  404) are arguments. The dump is modelled to the bytes: the JSON value of the payload struct,
  with the struct tags, nil slices as null and map keys in order, and the indented rendering of
  Go's \<open>encoding/json\<close>; a string with a byte above 127 is rendered by the argument
  \<open>uj\<close> (UTF-8 validation).
\<close>

section \<open>Loopback clients\<close>

definition isLoopback :: "string \<Rightarrow> bool" where
  "isLoopback remoteAddr =
     (let host = (case SplitHostPort remoteAddr of Inl err \<Rightarrow> remoteAddr | Inr (h, p) \<Rightarrow> h)
      in case ParseIP host of None \<Rightarrow> False | Some ip \<Rightarrow> IsLoopback ip)"

section \<open>JSON\<close>

datatype json =
    JNull
  | JBool bool
  | JNum nat
  | JStr string
  | JArr "json list"
  | JObj "(string \<times> json) list"

definition hex_digit :: "nat \<Rightarrow> char" where
  "hex_digit n = (if n < 10 then char_of (48 + n) else char_of (87 + n))"

definition quote :: char where "quote = CHR 0x22"
definition backslash :: char where "backslash = CHR 0x5C"

text \<open>The escapes of the encoder: quotes, control bytes, and the three HTML characters.\<close>

definition json_char :: "char \<Rightarrow> string" where
  "json_char c =
     (if c = quote \<or> c = backslash then [backslash, c]
      else if byte c = 8 then [backslash, CHR ''b'']
      else if byte c = 12 then [backslash, CHR ''f'']
      else if byte c = 10 then [backslash, CHR ''n'']
      else if byte c = 13 then [backslash, CHR ''r'']
      else if byte c = 9 then [backslash, CHR ''t'']
      else if byte c < 32 \<or> c = CHR 0x3C \<or> c = CHR 0x3E \<or> c = CHR 0x26
        then [backslash, CHR ''u'', CHR ''0'', CHR ''0'', hex_digit (byte c div 16),
              hex_digit (byte c mod 16)]
      else [c])"

definition json_string :: "(string \<Rightarrow> string) \<Rightarrow> string \<Rightarrow> string" where
  "json_string uj s =
     quote # (if is_ascii s then concat (map json_char s) else uj s) @ [quote]"

definition indent :: "nat \<Rightarrow> string" where
  "indent n = newline @ replicate (2 * n) CHR 0x20"

fun separate :: "string \<Rightarrow> string list \<Rightarrow> string" where
  "separate sep [] = []"
| "separate sep [x] = x"
| "separate sep (x # xs) = x @ sep @ separate sep xs"

text \<open>The rendering with prefix empty and indent of two spaces.\<close>

fun json_text :: "(string \<Rightarrow> string) \<Rightarrow> nat \<Rightarrow> json \<Rightarrow> string" where
  "json_text uj n JNull = ''null''"
| "json_text uj n (JBool b) = (if b then ''true'' else ''false'')"
| "json_text uj n (JNum k) = nat_dec k"
| "json_text uj n (JStr s) = json_string uj s"
| "json_text uj n (JArr xs) =
     (if xs = [] then ''[]''
      else ''['' @ indent (Suc n) @
           separate ('','' @ indent (Suc n)) (map (json_text uj (Suc n)) xs) @ indent n @ [CHR 0x5D])"
| "json_text uj n (JObj kvs) =
     (if kvs = [] then ''{}''
      else [CHR 0x7B] @ indent (Suc n) @
           separate ('','' @ indent (Suc n))
             (map (\<lambda>kv. json_string uj (fst kv) @ '': '' @ json_text uj (Suc n) (snd kv)) kvs) @
           indent n @ [CHR 0x7D])"

section \<open>The dump\<close>

text \<open>A slice that nothing was appended to is nil and prints as null.\<close>

definition json_slice :: "('a \<Rightarrow> json) \<Rightarrow> 'a list \<Rightarrow> json" where
  "json_slice f xs = (if xs = [] then JNull else JArr (map f xs))"

definition json_ports :: "port list \<Rightarrow> json" where
  "json_ports ps = json_slice (\<lambda>p. JNum (unat p)) ps"

definition json_entry :: "host_entry \<Rightarrow> json" where
  "json_entry e = JObj [(''namespace'', JStr (Namespace e)), (''name'', JStr (Name e)),
     (''ports'', json_ports (Ports e)), (''allowed_ports'', json_ports (AllowedPorts e))]"

definition json_wildcard :: "wildcard_entry \<Rightarrow> json" where
  "json_wildcard w = JObj [(''Suffix'', JStr (Suffix w)), (''entry'', json_entry (Entry w))]"

definition dump_payload :: "watcher \<Rightarrow> json" where
  "dump_payload w = JObj
     [(''synced'', JBool (synced w)),
      (''hosts'', JObj (map (\<lambda>(h, e). (h, json_entry e)) (sort_key fst (hosts w)))),
      (''wildcards'', json_slice json_wildcard (wildcards w))]"

text \<open>The text that \<open>DumpJSON\<close> writes; \<open>Encode\<close> ends it with a newline.\<close>

definition DumpJSON :: "(string \<Rightarrow> string) \<Rightarrow> watcher \<Rightarrow> response_writer \<Rightarrow> response_writer" where
  "DumpJSON uj w rw = snd (rw_Write (json_text uj 0 (dump_payload w) @ newline) rw)"

section \<open>The endpoints\<close>

definition set_header :: "string \<Rightarrow> string \<Rightarrow> response_writer \<Rightarrow> response_writer" where
  "set_header k v w = w\<lparr>rw_header := hdr_Set (rw_header w) k v\<rparr>"

text \<open>\<open>WriteHeader\<close> with 200, which never panics, followed by one write.\<close>

definition reply_ok :: "string \<Rightarrow> response_writer \<Rightarrow> response_writer" where
  "reply_ok t w = (case WriteHeader StatusOK w of None \<Rightarrow> w | Some w1 \<Rightarrow> snd (rw_Write t w1))"

definition healthz :: "response_writer \<Rightarrow> response_writer" where
  "healthz rw = reply_ok ''ok'' rw"

definition readyz :: "watcher \<Rightarrow> response_writer \<Rightarrow> response_writer" where
  "readyz w rw =
     (if \<not> Synced w then http_Error ''ServiceEntry cache not synced'' StatusServiceUnavailable rw
      else reply_ok ''ready'' rw)"

definition loopback_only :: string where
  "loopback_only =
     ''forbidden: /debug/allowlist is only accessible via kubectl exec or kubectl port-forward''"

definition debug_allowlist ::
  "(string \<Rightarrow> string) \<Rightarrow> watcher \<Rightarrow> request \<Rightarrow> response_writer \<Rightarrow> response_writer" where
  "debug_allowlist uj w r rw =
     (if \<not> isLoopback (RemoteAddr r) then http_Error loopback_only StatusForbidden rw
      else DumpJSON uj w (set_header ''Content-Type'' ''application/json'' rw))"

record mux_lib =
  mx_uj :: "string \<Rightarrow> string"
  mx_metrics :: "request \<Rightarrow> response_writer \<Rightarrow> response_writer"
  mx_other :: "string \<Rightarrow> request \<Rightarrow> response_writer \<Rightarrow> response_writer"

text \<open>The multiplexer on a request with the given path; the four patterns match exactly.\<close>

definition metricsMux ::
  "mux_lib \<Rightarrow> watcher \<Rightarrow> string \<Rightarrow> request \<Rightarrow> response_writer \<Rightarrow> response_writer" where
  "metricsMux lib w path r rw =
     (if path = ''/metrics'' then mx_metrics lib r rw
      else if path = ''/healthz'' then healthz rw
      else if path = ''/readyz'' then readyz w rw
      else if path = ''/debug/allowlist'' then debug_allowlist (mx_uj lib) w r rw
      else mx_other lib path r rw)"

section \<open>Loopback addresses\<close>

lemma print_ipv4_plain: "colon \<notin> set (print_ipv4 v4) \<and> lbrack \<notin> set (print_ipv4 v4) \<and>
  rbrack \<notin> set (print_ipv4 v4)"
  using print_ipv4_bytes [of _ v4] digit_sep
  by (auto simp: dot_def colon_def lbrack_def rbrack_def)

lemma isLoopback_ipv4:
  assumes "length v4 = 4"
  shows "isLoopback (print_ipv4 v4 @ colon # nat_dec p) \<longleftrightarrow> v4 ! 0 = 127"
proof -
  have "SplitHostPort (print_ipv4 v4 @ colon # nat_dec p) = Inr (print_ipv4 v4, nat_dec p)"
    using print_ipv4_plain [of v4] nat_dec_sep [of _ p] digit_sep
    by (intro SplitHostPort_plain) blast+
  then show ?thesis
    by (simp add: isLoopback_def ParseIP_print [OF assms] IsLoopback_v4 [OF assms])
qed

text \<open>A name is never a loopback address, whatever it resolves to.\<close>

lemma ParseIP_name:
  "list_all (\<lambda>c. c \<noteq> dot \<and> c \<noteq> colon \<and> c \<noteq> percent) s \<Longrightarrow> ParseIP s = None"
proof -
  assume "list_all (\<lambda>c. c \<noteq> dot \<and> c \<noteq> colon \<and> c \<noteq> percent) s"
  then have "List.find (\<lambda>c. c = dot \<or> c = colon \<or> c = percent) s = None"
    by (auto simp: find_None_iff_all list_all_iff)
  then show ?thesis by (simp add: ParseIP_def)
qed

section \<open>Reading the dump back\<close>

text \<open>
  A reader of the dump, which only knows the field names: a value is looked up under
  its name, and a missing field, a wrong type or a number that is no port is an error (None).
\<close>

definition field :: "string \<Rightarrow> json \<Rightarrow> json option" where
  "field k j = (case j of JObj kvs \<Rightarrow> map_of kvs k | _ \<Rightarrow> None)"

definition un_bool :: "json \<Rightarrow> bool option" where
  "un_bool j = (case j of JBool b \<Rightarrow> Some b | _ \<Rightarrow> None)"

definition un_str :: "json \<Rightarrow> string option" where
  "un_str j = (case j of JStr s \<Rightarrow> Some s | _ \<Rightarrow> None)"

definition un_port :: "json \<Rightarrow> port option" where
  "un_port j = (case j of JNum n \<Rightarrow> if n < 2 ^ 32 then Some (of_nat n) else None | _ \<Rightarrow> None)"

fun un_list :: "(json \<Rightarrow> 'a option) \<Rightarrow> json list \<Rightarrow> 'a list option" where
  "un_list f [] = Some []"
| "un_list f (j # js) =
     (case (f j, un_list f js) of (Some x, Some xs) \<Rightarrow> Some (x # xs) | _ \<Rightarrow> None)"

definition un_slice :: "(json \<Rightarrow> 'a option) \<Rightarrow> json \<Rightarrow> 'a list option" where
  "un_slice f j = (case j of JNull \<Rightarrow> Some [] | JArr js \<Rightarrow> un_list f js | _ \<Rightarrow> None)"

fun un_map :: "(json \<Rightarrow> 'a option) \<Rightarrow> (string \<times> json) list \<Rightarrow> 'a gomap option" where
  "un_map f [] = Some []"
| "un_map f ((k, j) # kjs) =
     (case (f j, un_map f kjs) of (Some x, Some xs) \<Rightarrow> Some ((k, x) # xs) | _ \<Rightarrow> None)"

definition un_object :: "(json \<Rightarrow> 'a option) \<Rightarrow> json \<Rightarrow> 'a gomap option" where
  "un_object f j = (case j of JObj kvs \<Rightarrow> un_map f kvs | _ \<Rightarrow> None)"

definition un_entry :: "json \<Rightarrow> host_entry option" where
  "un_entry j =
     (case (Option.bind (field ''namespace'' j) un_str, Option.bind (field ''name'' j) un_str,
            Option.bind (field ''ports'' j) (un_slice un_port),
            Option.bind (field ''allowed_ports'' j) (un_slice un_port)) of
        (Some ns, Some nm, Some ps, Some aps) \<Rightarrow>
          Some \<lparr>Namespace = ns, Name = nm, Ports = ps, AllowedPorts = aps\<rparr>
      | _ \<Rightarrow> None)"

definition un_wildcard :: "json \<Rightarrow> wildcard_entry option" where
  "un_wildcard j =
     (case (Option.bind (field ''Suffix'' j) un_str, Option.bind (field ''entry'' j) un_entry) of
        (Some s, Some e) \<Rightarrow> Some \<lparr>Suffix = s, Entry = e\<rparr>
      | _ \<Rightarrow> None)"

definition un_dump :: "json \<Rightarrow> watcher option" where
  "un_dump j =
     (case (Option.bind (field ''hosts'' j) (un_object un_entry),
            Option.bind (field ''wildcards'' j) (un_slice un_wildcard),
            Option.bind (field ''synced'' j) un_bool) of
        (Some hs, Some ws, Some b) \<Rightarrow> Some \<lparr>hosts = hs, wildcards = ws, synced = b\<rparr>
      | _ \<Rightarrow> None)"

lemma un_list_map: "(\<And>x. x \<in> set xs \<Longrightarrow> g (f x) = Some x) \<Longrightarrow> un_list g (map f xs) = Some xs"
  by (induction xs) simp_all

lemma un_slice_json: "(\<And>x. x \<in> set xs \<Longrightarrow> g (f x) = Some x) \<Longrightarrow> un_slice g (json_slice f xs) = Some xs"
  by (simp add: un_slice_def json_slice_def un_list_map)

lemma un_ports_json [simp]: "un_slice un_port (json_ports ps) = Some ps"
proof -
  have "unat p < 2 ^ 32" for p :: port using unsigned_less [of p, where 'a = nat] by simp
  then show ?thesis unfolding json_ports_def by (intro un_slice_json) (simp add: un_port_def)
qed

lemma un_entry_json [simp]: "un_entry (json_entry e) = Some e"
  by (cases e) (simp add: un_entry_def json_entry_def field_def un_str_def)

lemma un_wildcard_json [simp]: "un_wildcard (json_wildcard w) = Some w"
  by (cases w) (simp add: un_wildcard_def json_wildcard_def field_def un_str_def)

lemma un_map_entries [simp]: "un_map un_entry (map (\<lambda>(h, e). (h, json_entry e)) hs) = Some hs"
  by (induction hs) auto

lemma un_dump_payload: "un_dump (dump_payload w) = Some (w\<lparr>hosts := sort_key fst (hosts w)\<rparr>)"
  by (cases w) (simp add: un_dump_def dump_payload_def field_def un_object_def un_bool_def un_slice_json)

lemma map_of_sort:
  "map_ok (m :: 'v gomap) \<Longrightarrow> map_of (sort_key fst m) = map_of m"
  by (rule iffD2 [OF map_of_inject_set])
     (simp_all add: map_ok_def distinct_map inj_on_def)

lemma AllowHost_tables:
  "map_of (hosts w) = map_of (hosts w') \<Longrightarrow> wildcards w = wildcards w' \<Longrightarrow>
   AllowHost ul w h p = AllowHost ul w' h p"
  by (simp add: AllowHost_def Let_def split: option.splits)

section \<open>What the endpoints answer\<close>

lemma reply_ok_sent:
  "rw_sent rw = None \<Longrightarrow> rw_limit rw = None \<Longrightarrow>
   sent_status (reply_ok t rw) = Some 200 \<and> rw_body (reply_ok t rw) = rw_body rw @ t"
  by (simp add: reply_ok_def body_allowed_def WriteHeader_def StatusOK_def rw_Write_def sent_status_def Let_def)

lemma DumpJSON_sent:
  "rw_sent rw = None \<Longrightarrow> rw_limit rw = None \<Longrightarrow>
   sent_status (DumpJSON uj w rw) = Some 200 \<and>
   rw_body (DumpJSON uj w rw) = rw_body rw @ json_text uj 0 (dump_payload w) @ newline"
  by (simp add: DumpJSON_def body_allowed_def rw_Write_def sent_status_def Let_def)

text \<open>
  Readiness and liveness: /readyz answers 200 exactly if the watcher is synced and 503
  otherwise, /healthz always answers 200; neither depends on the client's address.
\<close>

lemma readyz_shows_synced:
  assumes "rw_sent rw = None" "rw_limit rw = None"
  shows "sent_status (metricsMux lib w ''/readyz'' r rw) = Some (if Synced w then 200 else 503) \<and>
    sent_status (metricsMux lib w ''/healthz'' r rw) = Some 200 \<and>
    metricsMux lib w ''/readyz'' r rw = metricsMux lib w ''/readyz'' r' rw"
  using assms reply_ok_sent [OF assms]
  by (simp add: metricsMux_def readyz_def healthz_def http_Error_status status_defs)

section \<open>Properties\<close>

text \<open>
  C30. The loopback test on a remote address: an IPv4 address with a port passes exactly if its
  first octet is 127, and no name without a dot passes, localhost included.
\<close>

theorem loopback_test_exact:
  assumes "length v4 = 4" "list_all (\<lambda>c. c \<noteq> dot \<and> c \<noteq> colon \<and> c \<noteq> percent \<and> c \<noteq> lbrack \<and> c \<noteq> rbrack) name"
  shows "(isLoopback (print_ipv4 v4 @ colon # nat_dec p) \<longleftrightarrow> v4 ! 0 = 127) \<and>
    \<not> isLoopback (name @ colon # nat_dec p)"
proof -
  have np: "colon \<notin> set name" "lbrack \<notin> set name" "rbrack \<notin> set name"
    using assms(2) by (auto simp: list_all_iff)
  have pp: "colon \<notin> set (nat_dec p)" "lbrack \<notin> set (nat_dec p)" "rbrack \<notin> set (nat_dec p)"
    using nat_dec_sep [of _ p] digit_sep by blast+
  have "ParseIP name = None" by (rule ParseIP_name) (use assms(2) in \<open>auto simp: list_all_iff\<close>)
  then have "\<not> isLoopback (name @ colon # nat_dec p)"
    by (simp add: isLoopback_def SplitHostPort_plain [OF np pp])
  then show ?thesis using isLoopback_ipv4 [OF assms(1)] by simp
qed

theorem loopback_test_exact_witness:
  "isLoopback (print_ipv4 [127, 0, 0, 1] @ colon # nat_dec 52344) \<and>
   \<not> isLoopback (print_ipv4 [10, 244, 0, 7] @ colon # nat_dec 52344) \<and>
   \<not> isLoopback (''localhost'' @ colon # nat_dec 52344)"
proof -
  have l: "list_all (\<lambda>c. c \<noteq> dot \<and> c \<noteq> colon \<and> c \<noteq> percent \<and> c \<noteq> lbrack \<and> c \<noteq> rbrack) ''localhost''"
    by code_simp
  show ?thesis
    using loopback_test_exact [OF _ l, of "[127, 0, 0, 1]" 52344]
      loopback_test_exact [OF _ l, of "[10, 244, 0, 7]" 52344] by simp
qed

text \<open>
  C29. The allowlist is shown to loopback clients only: any other client gets 403 and the fixed
  refusal, whatever the allowlist holds; a loopback client gets 200 and the dump.
\<close>

theorem allowlist_only_to_loopback:
  assumes "rw_sent rw = None" "rw_limit rw = None"
  shows "(\<not> isLoopback (RemoteAddr r) \<longrightarrow>
      sent_status (metricsMux lib w ''/debug/allowlist'' r rw) = Some 403 \<and>
      metricsMux lib w ''/debug/allowlist'' r rw = metricsMux lib NewWatcher ''/debug/allowlist'' r rw \<and>
      rw_body (metricsMux lib w ''/debug/allowlist'' r rw) = rw_body rw @ loopback_only @ newline) \<and>
    (isLoopback (RemoteAddr r) \<longrightarrow>
      sent_status (metricsMux lib w ''/debug/allowlist'' r rw) = Some 200 \<and>
      rw_body (metricsMux lib w ''/debug/allowlist'' r rw) =
        rw_body rw @ json_text (mx_uj lib) 0 (dump_payload w) @ newline)"
  using assms DumpJSON_sent [of "set_header ''Content-Type'' ''application/json'' rw" "mx_uj lib" w]
  by (simp add: metricsMux_def debug_allowlist_def http_Error_status http_Error_body body_allowed_def status_defs
      set_header_def)

definition ex_mux :: mux_lib where
  "ex_mux = \<lparr>mx_uj = (\<lambda>s. s), mx_metrics = (\<lambda>r w. w), mx_other = (\<lambda>p r w. w)\<rparr>"

definition ex_rw :: response_writer where
  "ex_rw = \<lparr>rw_header = [], rw_sent = None, rw_body = [], rw_limit = None\<rparr>"

definition ex_get :: "string \<Rightarrow> request" where
  "ex_get addr = \<lparr>Method = ''GET'', URL = \<lparr>Scheme = [], UHost = [], UText = ''/debug/allowlist''\<rparr>,
     Host = ''pod:9090'', RequestURI = ''/debug/allowlist'', Header = [], Body = NoBody,
     ContentLength = 0, TransferEncoding = [], RemoteAddr = addr, PeerCertificates = None\<rparr>"

theorem allowlist_only_to_loopback_witness:
  "sent_status (metricsMux ex_mux NewWatcher ''/debug/allowlist''
      (ex_get (print_ipv4 [10, 244, 0, 7] @ colon # nat_dec 52344)) ex_rw) = Some 403 \<and>
   sent_status (metricsMux ex_mux NewWatcher ''/debug/allowlist''
      (ex_get (print_ipv4 [127, 0, 0, 1] @ colon # nat_dec 52344)) ex_rw) = Some 200"
proof -
  have "\<not> isLoopback (print_ipv4 [10, 244, 0, 7] @ colon # nat_dec 52344)"
    "isLoopback (print_ipv4 [127, 0, 0, 1] @ colon # nat_dec 52344)"
    by (simp_all add: isLoopback_ipv4)
  moreover have "rw_sent ex_rw = None" "rw_limit ex_rw = None" by (simp_all add: ex_rw_def)
  ultimately show ?thesis
    using allowlist_only_to_loopback [of ex_rw "ex_get (print_ipv4 [10, 244, 0, 7] @ colon # nat_dec 52344)"]
      allowlist_only_to_loopback [of ex_rw "ex_get (print_ipv4 [127, 0, 0, 1] @ colon # nat_dec 52344)"]
    by (simp add: ex_get_def)
qed

text \<open>
  C31. The dump is complete: a reader that looks every value up under its field name
  (synced, hosts, wildcards; namespace, name, ports, allowed_ports; Suffix, entry) succeeds on the
  JSON value of the dump and gets the allowlist itself, its exact hosts sorted, its wildcards in
  matching order, and the synced flag, so every answer of \<open>AllowHost\<close> can be recomputed from it.
\<close>

theorem dump_reads_back:
  assumes "map_ok (hosts w)"
  shows "\<exists>v. un_dump (dump_payload w) = Some v \<and> v = w\<lparr>hosts := sort_key fst (hosts w)\<rparr> \<and>
    AllowHost ul v h p = AllowHost ul w h p \<and> Count v = Count w"
  using AllowHost_tables [of "w\<lparr>hosts := sort_key fst (hosts w)\<rparr>" w] map_of_sort [OF assms]
  by (simp add: un_dump_payload Count_def)

theorem dump_reads_back_witness:
  "\<exists>v. un_dump (dump_payload
        (rebuild (\<lambda>s. s) (Some [ex_se [''api.example.com'', ''*.example.com''] [443]]) NewWatcher)) = Some v \<and>
     AllowHost (\<lambda>s. s) v ''api.example.com'' 443 =
     AllowHost (\<lambda>s. s) (rebuild (\<lambda>s. s) (Some [ex_se [''api.example.com'', ''*.example.com''] [443]]) NewWatcher)
       ''api.example.com'' 443"
proof -
  have "map_ok (hosts (rebuild (\<lambda>s. s) (Some [ex_se [''api.example.com'', ''*.example.com''] [443]]) NewWatcher))"
    unfolding rebuild_tables by (rule exact_table_ok) simp
  then show ?thesis using dump_reads_back by blast
qed

end
