(* ===== verification/Config.thy ===== *)
theory Config
  imports Audit_Log
begin

text \<open>
  The configuration (cmd/main.go): \<open>envOr\<close>, \<open>envOrBool\<close>, \<open>parseLogLevel\<close>,
  \<open>headerNameFromEnv\<close> and \<open>parseFlags\<close>.

  The process environment is the list of its \<open>NAME=value\<close> entries in order, as
  \<open>os.Environ\<close> returns it; \<open>Getenv\<close> finds the first entry of a name. The command
  line, parsed by package flag, is the list of the flag settings in order (a later setting of
  the same flag wins); what the package does with a malformed command line (it exits) is not
  modelled. Durations are integers in nanoseconds.
\<close>

section \<open>The environment\<close>

definition equals :: char where "equals = CHR 0x3D"
definition underscore :: char where "underscore = CHR 0x5F"

text \<open>\<open>os.Getenv\<close>: the value of the first entry for the key, empty when there is none.\<close>

definition Getenv :: "string list \<Rightarrow> string \<Rightarrow> string" where
  "Getenv env key =
     (case List.find (\<lambda>e. HasPrefix e (key @ [equals])) env of
        None \<Rightarrow> []
      | Some e \<Rightarrow> drop (Suc (length key)) e)"

definition envOr :: "string list \<Rightarrow> string \<Rightarrow> string \<Rightarrow> string" where
  "envOr env key d = (let v = Getenv env key in if v \<noteq> [] then v else d)"

definition envOrBool :: "string list \<Rightarrow> string \<Rightarrow> bool \<Rightarrow> bool" where
  "envOrBool env key d =
     (let v = Getenv env key in
      if v \<in> set [''true'', ''1'', ''yes''] then True
      else if v \<in> set [''false'', ''0'', ''no''] then False
      else d)"

definition parseLogLevel :: "string \<Rightarrow> slog_level" where
  "parseLogLevel s =
     (if s = ''debug'' then LevelDebug
      else if s = ''warn'' then LevelWarn
      else if s = ''error'' then LevelError
      else LevelInfo)"

section \<open>Extra headers\<close>

text \<open>The loop of \<open>headerNameFromEnv\<close>; the flag is the variable \<open>upper\<close>.\<close>

fun header_name_loop :: "bool \<Rightarrow> string \<Rightarrow> string" where
  "header_name_loop up [] = []"
| "header_name_loop up (c # s) =
     (if c = underscore then CHR ''-'' # header_name_loop True s
      else if up then upper_byte c # header_name_loop False s
      else lower_byte c # header_name_loop False s)"

definition headerNameFromEnv :: "string \<Rightarrow> string" where
  "headerNameFromEnv s = header_name_loop True s"

definition extra_prefix :: string where
  "extra_prefix = ''EXTRA_HEADER_''"

text \<open>The inner loop: the first equals sign at or after position \<open>i\<close> splits the rest.\<close>

function split_equals :: "nat \<Rightarrow> string \<Rightarrow> (string \<times> string) option" where
  "split_equals i rest =
     (if i < length rest then
        (if rest ! i = equals then Some (take i rest, drop (i + 1) rest)
         else split_equals (i + 1) rest)
      else None)"
  by pat_completeness auto
termination by (relation "measure (\<lambda>(i, rest). length rest - i)") auto

declare split_equals.simps [simp del]

fun environ_loop :: "string list \<Rightarrow> string gomap \<Rightarrow> string gomap" where
  "environ_loop [] m = m"
| "environ_loop (e # es) m =
     (if length e > length extra_prefix \<and> take (length extra_prefix) e = extra_prefix then
        (case split_equals 0 (drop (length extra_prefix) e) of
           None \<Rightarrow> environ_loop es m
         | Some (n, v) \<Rightarrow> environ_loop es (AList.update (headerNameFromEnv n) v m))
      else environ_loop es m)"

section \<open>parseFlags\<close>

record config =
  c_listenAddr :: string
  c_metricsAddr :: string
  c_upstreamProxy :: string
  c_upstreamAuth :: string
  c_certDir :: string
  c_logLevel :: string
  c_extraHeaders :: "string gomap"
  c_dialTimeout :: int
  c_idleTimeout :: int
  c_readTimeout :: int
  c_writeTimeout :: int
  c_mtlsEnabled :: bool
  c_insecureSkipVerify :: bool
  c_trustXFCCHeader :: bool

definition second :: int where "second = 1000000000"

datatype flag_setting =
    FListen string
  | FMetrics string
  | FUpstream string
  | FUpstreamAuth string
  | FCertDir string
  | FLogLevel string
  | FMtls bool
  | FInsecureSkipVerify bool
  | FTrustXFCCHeader bool
  | FDialTimeout int
  | FIdleTimeout int
  | FReadTimeout int
  | FWriteTimeout int

text \<open>The defaults that the flag definitions give, from the environment where they read it.\<close>

definition default_config :: "string list \<Rightarrow> config" where
  "default_config env =
     \<lparr>c_listenAddr = envOr env ''LISTEN_ADDR'' '':3128'',
      c_metricsAddr = envOr env ''METRICS_ADDR'' '':9090'',
      c_upstreamProxy = envOr env ''UPSTREAM_PROXY'' [],
      c_upstreamAuth = envOr env ''UPSTREAM_AUTH'' [],
      c_certDir = envOr env ''CERT_DIR'' ''/etc/proxy/certs'',
      c_logLevel = envOr env ''LOG_LEVEL'' ''info'',
      c_extraHeaders = [],
      c_dialTimeout = 10 * second,
      c_idleTimeout = 90 * second,
      c_readTimeout = 60 * second,
      c_writeTimeout = 60 * second,
      c_mtlsEnabled = envOrBool env ''MTLS_ENABLED'' True,
      c_insecureSkipVerify = envOrBool env ''INSECURE_SKIP_VERIFY'' False,
      c_trustXFCCHeader = envOrBool env ''TRUST_XFCC_HEADER'' False\<rparr>"

fun set_flag :: "flag_setting \<Rightarrow> config \<Rightarrow> config" where
  "set_flag (FListen s) c = c\<lparr>c_listenAddr := s\<rparr>"
| "set_flag (FMetrics s) c = c\<lparr>c_metricsAddr := s\<rparr>"
| "set_flag (FUpstream s) c = c\<lparr>c_upstreamProxy := s\<rparr>"
| "set_flag (FUpstreamAuth s) c = c\<lparr>c_upstreamAuth := s\<rparr>"
| "set_flag (FCertDir s) c = c\<lparr>c_certDir := s\<rparr>"
| "set_flag (FLogLevel s) c = c\<lparr>c_logLevel := s\<rparr>"
| "set_flag (FMtls b) c = c\<lparr>c_mtlsEnabled := b\<rparr>"
| "set_flag (FInsecureSkipVerify b) c = c\<lparr>c_insecureSkipVerify := b\<rparr>"
| "set_flag (FTrustXFCCHeader b) c = c\<lparr>c_trustXFCCHeader := b\<rparr>"
| "set_flag (FDialTimeout d) c = c\<lparr>c_dialTimeout := d\<rparr>"
| "set_flag (FIdleTimeout d) c = c\<lparr>c_idleTimeout := d\<rparr>"
| "set_flag (FReadTimeout d) c = c\<lparr>c_readTimeout := d\<rparr>"
| "set_flag (FWriteTimeout d) c = c\<lparr>c_writeTimeout := d\<rparr>"

text \<open>Without an upstream the process exits with code 2 (Inl).\<close>

definition parseFlags :: "string list \<Rightarrow> flag_setting list \<Rightarrow> nat + config" where
  "parseFlags env args =
     (let c = fold set_flag args (default_config env) in
      if c_upstreamProxy c = [] then Inl 2
      else Inr (c\<lparr>c_extraHeaders := environ_loop env (c_extraHeaders c)\<rparr>))"

section \<open>Names of extra headers\<close>

text \<open>
  On the bytes that are token bytes of a header name the loop produces the canonical form:
  setting the header addresses exactly the name that was computed.
\<close>

lemma dash_upper: "upper_byte c = CHR ''-'' \<longleftrightarrow> c = CHR ''-''"
  by (cases c) (auto simp: upper_byte_Char is_lower_Char)

lemma dash_lower: "lower_byte c = CHR ''-'' \<longleftrightarrow> c = CHR ''-''"
  by (rule lower_byte_eq_sep) (simp_all add: is_lower_Char is_upper_Char)

lemma header_name_loop_canon:
  "CHR ''-'' \<notin> set s \<Longrightarrow> canon_loop up (header_name_loop up s) = header_name_loop up s"
  by (induction s arbitrary: up) (auto simp: Let_def dash_upper dash_lower)

lemma header_name_loop_valid:
  "list_all valid_header_byte s \<Longrightarrow> list_all valid_header_byte (header_name_loop up s)"
  by (induction up s rule: header_name_loop.induct)
     (auto simp: valid_upper_lower, simp add: valid_header_byte_def)

lemma header_name_loop_map:
  "map lower_byte (header_name_loop up s) =
     map (\<lambda>c. if c = underscore then CHR ''-'' else lower_byte c) s"
  by (induction up s rule: header_name_loop.induct) (auto simp: dash_lower)

section \<open>The entries of the environment\<close>

lemma split_equals_none: "equals \<notin> set (drop i rest) \<Longrightarrow> split_equals i rest = None"
proof (induction i rest rule: split_equals.induct)
  case (1 i rest)
  show ?case
  proof (cases "i < length rest")
    case True
    then have "drop i rest = rest ! i # drop (i + 1) rest" by (simp add: Cons_nth_drop_Suc)
    then show ?thesis using 1 True by (auto simp: split_equals.simps [of i rest])
  qed (simp add: split_equals.simps)
qed

lemma split_equals_at:
  "equals \<notin> set n \<Longrightarrow> split_equals (length p) (p @ n @ equals # v) = Some (p @ n, v)"
proof (induction n arbitrary: p)
  case Nil
  then show ?case by (simp add: split_equals.simps nth_append)
next
  case (Cons c n)
  have "split_equals (length p) (p @ (c # n) @ equals # v) =
    split_equals (length (p @ [c])) ((p @ [c]) @ n @ equals # v)"
    using Cons.prems by (subst split_equals.simps) (auto simp: nth_append)
  then show ?case using Cons.IH [of "p @ [c]"] Cons.prems by simp
qed

text \<open>What an entry of the environment sets, if it sets anything.\<close>

definition extra_entry :: "string \<Rightarrow> (string \<times> string) option" where
  "extra_entry e =
     (if length e > length extra_prefix \<and> take (length extra_prefix) e = extra_prefix
      then map_option (\<lambda>(n, v). (headerNameFromEnv n, v)) (split_equals 0 (drop (length extra_prefix) e))
      else None)"

lemma extra_entry_some:
  "equals \<notin> set n \<Longrightarrow> extra_entry (extra_prefix @ n @ equals # v) = Some (headerNameFromEnv n, v)"
  using split_equals_at [of n "[]" v] by (simp add: extra_entry_def)

text \<open>The loop is a fold of map updates: of two entries for one name the later one wins.\<close>

lemma environ_loop_fold:
  "environ_loop env m = fold (\<lambda>(k, v). AList.update k v) (List.map_filter extra_entry env) m"
  by (induction env m rule: environ_loop.induct)
     (auto simp: extra_entry_def List.map_filter_def split: option.splits)

lemma environ_loop_lookup:
  "map_of (environ_loop env m) x =
     (case map_of (rev (List.map_filter extra_entry env)) x of Some v \<Rightarrow> Some v | None \<Rightarrow> map_of m x)"
  by (simp add: environ_loop_fold map_of_foldr_update map_add_def)

lemma environ_loop_ok: "map_ok m \<Longrightarrow> map_ok (environ_loop env m)"
  by (induction env arbitrary: m) (auto intro: map_ok_update split: option.splits)

text \<open>The flags never touch the extra headers.\<close>

lemma set_flag_extra [simp]: "c_extraHeaders (set_flag f c) = c_extraHeaders c"
  by (cases f) simp_all

lemma fold_set_flag_extra [simp]: "c_extraHeaders (fold set_flag fs c) = c_extraHeaders c"
  by (induction fs arbitrary: c) simp_all

lemma parseFlags_Inr:
  "parseFlags env args = Inr c \<Longrightarrow>
   c_upstreamProxy c \<noteq> [] \<and> c_extraHeaders c = environ_loop env [] \<and>
   c = (fold set_flag args (default_config env))\<lparr>c_extraHeaders := environ_loop env []\<rparr>"
  by (auto simp: parseFlags_def default_config_def Let_def split: if_splits)

section \<open>Properties\<close>

text \<open>
  C39. The header name computed from an environment variable is canonical: for a name of token
  bytes without a dash the plain-HTTP path, which sets headers by canonical key, and the CONNECT
  path, which writes the name as it is, send the same name; up to case it is the variable's name
  with dashes for underscores.
\<close>

theorem env_header_name_canonical:
  assumes "list_all valid_header_byte s" "CHR ''-'' \<notin> set s"
  shows "CanonicalKey (headerNameFromEnv s) = headerNameFromEnv s \<and>
    list_all valid_header_byte (headerNameFromEnv s) \<and>
    map lower_byte (headerNameFromEnv s) =
      map (\<lambda>c. if c = underscore then CHR ''-'' else lower_byte c) s"
  using header_name_loop_canon [OF assms(2), of True] header_name_loop_valid [OF assms(1), of True]
  by (simp add: headerNameFromEnv_def CanonicalKey_def header_name_loop_map)

theorem env_header_name_canonical_witness:
  "CanonicalKey (headerNameFromEnv ''X_CORP_ID'') = headerNameFromEnv ''X_CORP_ID'' \<and>
   headerNameFromEnv ''X_CORP_ID'' = ''X-Corp-Id''"
proof -
  have "list_all valid_header_byte ''X_CORP_ID''" "CHR ''-'' \<notin> set ''X_CORP_ID''"
    "headerNameFromEnv ''X_CORP_ID'' = ''X-Corp-Id''" by code_simp+
  then show ?thesis using env_header_name_canonical [of "''X_CORP_ID''"] by blast
qed

text \<open>
  C38. Configuration of the extra headers: an entry EXTRA_HEADER_n=v of the environment sets the
  header named after n to the whole text v after the first equals sign, unless a later entry
  sets the same header; flags never change them. The process exits with code 2 exactly if no
  upstream is configured.
\<close>

theorem extra_header_from_env:
  assumes "equals \<notin> set n"
    and "\<forall>e \<in> set post. \<forall>v'. extra_entry e \<noteq> Some (headerNameFromEnv n, v')"
  shows "(case parseFlags (pre @ (extra_prefix @ n @ equals # v) # post) args of
       Inl code \<Rightarrow> code = 2 \<and>
         c_upstreamProxy (fold set_flag args
           (default_config (pre @ (extra_prefix @ n @ equals # v) # post))) = []
     | Inr c \<Rightarrow> c_upstreamProxy c \<noteq> [] \<and> map_of (c_extraHeaders c) (headerNameFromEnv n) = Some v)"
proof -
  let ?env = "pre @ (extra_prefix @ n @ equals # v) # post"
  have "headerNameFromEnv n \<notin> fst ` set (List.map_filter extra_entry post)"
    using assms(2) by (force simp: List.map_filter_def)
  then have "map_of (rev (List.map_filter extra_entry post)) (headerNameFromEnv n) = None"
    by (simp add: map_of_eq_None_iff)
  then have "map_of (environ_loop ?env []) (headerNameFromEnv n) = Some v"
    using extra_entry_some [OF assms(1), of v]
    by (simp add: environ_loop_lookup List.map_filter_def map_add_def)
  then show ?thesis by (simp add: parseFlags_def default_config_def Let_def)
qed

theorem extra_header_from_env_witness:
  "\<exists>c. parseFlags [''UPSTREAM_PROXY=squid:3128'', ''EXTRA_HEADER_X_CORP_ID=a=b''] [] = Inr c \<and>
     map_of (c_extraHeaders c) ''X-Corp-Id'' = Some ''a=b''"
proof -
  have e: "[''UPSTREAM_PROXY=squid:3128''] @ (extra_prefix @ ''X_CORP_ID'' @ equals # ''a=b'') # [] =
      [''UPSTREAM_PROXY=squid:3128'', ''EXTRA_HEADER_X_CORP_ID=a=b'']"
    by (simp add: extra_prefix_def equals_def)
  have q: "equals \<notin> set ''X_CORP_ID''" by (simp add: equals_def)
  have n: "headerNameFromEnv ''X_CORP_ID'' = ''X-Corp-Id''" by code_simp
  have u: "envOr [''UPSTREAM_PROXY=squid:3128'', ''EXTRA_HEADER_X_CORP_ID=a=b''] ''UPSTREAM_PROXY'' [] \<noteq> []"
    by code_simp
  then obtain c where c: "parseFlags [''UPSTREAM_PROXY=squid:3128'', ''EXTRA_HEADER_X_CORP_ID=a=b''] [] = Inr c"
    by (simp add: parseFlags_def default_config_def Let_def)
  show ?thesis
    using extra_header_from_env [OF q, where post = "[]" and pre = "[''UPSTREAM_PROXY=squid:3128'']"
        and v = "''a=b''" and args = "[]"] c
    unfolding e n by simp
qed

end
