(* ===== verification/Startup.thy ===== *)
theory Startup
  imports Config Connect_Path Watcher_Sync
begin

text \<open>
  The process (cmd/main.go, \<open>main\<close>; \<open>NewWatcher\<close> and \<open>loadKubeConfig\<close> of
  internal/serviceentry/watcher.go): what is built at the start and in which order it can fail,
  and the life of the process from then on as a state machine.
\<close>

section \<open>The Kubernetes client configuration\<close>

text \<open>
  The library's answers: the in-cluster configuration, the kubeconfig one, and whether a client
  can be made from a configuration.
\<close>

record 'k kube_lib =
  kl_in_cluster :: "'k option"
  kl_kubeconfig :: "'k option"
  kl_client :: "'k \<Rightarrow> bool"

definition loadKubeConfig :: "'k kube_lib \<Rightarrow> 'k option" where
  "loadKubeConfig k =
     (case kl_in_cluster k of Some cfg \<Rightarrow> Some cfg | None \<Rightarrow> kl_kubeconfig k)"

definition serviceentry_NewWatcher :: "'k kube_lib \<Rightarrow> watcher option" where
  "serviceentry_NewWatcher k =
     (case loadKubeConfig k of
        None \<Rightarrow> None
      | Some cfg \<Rightarrow> if kl_client k cfg then Some NewWatcher else None)"

section \<open>Start\<close>

record started =
  st_config :: config
  st_level :: slog_level
  st_handler :: handler
  st_watcher :: watcher

definition new_handler :: "config \<Rightarrow> manager option \<Rightarrow> handler" where
  "new_handler cfg cm =
     \<lparr>UpstreamProxy = c_upstreamProxy cfg, UpstreamAuth = c_upstreamAuth cfg, CertManager = cm,
      ExtraHeaders = c_extraHeaders cfg, DialTimeout = c_dialTimeout cfg,
      IdleTimeout = c_idleTimeout cfg, TLSEnabled = c_mtlsEnabled cfg,
      InsecureSkipVerify = c_insecureSkipVerify cfg, TrustXFCCHeader = c_trustXFCCHeader cfg\<rparr>"

text \<open>The start of \<open>main\<close>: Inl is the exit code of a start that fails.\<close>

definition startup ::
  "string list \<Rightarrow> flag_setting list \<Rightarrow> x509_lib \<Rightarrow> files \<Rightarrow> 'k kube_lib \<Rightarrow> nat + started" where
  "startup env args lib fs k =
     (case parseFlags env args of
        Inl code \<Rightarrow> Inl code
      | Inr cfg \<Rightarrow>
          (case (if c_mtlsEnabled cfg
                 then (case NewManager lib fs (c_certDir cfg) of Inl e \<Rightarrow> Inl e | Inr m \<Rightarrow> Inr (Some m))
                 else Inr None) of
             Inl e \<Rightarrow> Inl 1
           | Inr certManager \<Rightarrow>
               (case serviceentry_NewWatcher k of
                  None \<Rightarrow> Inl 1
                | Some w \<Rightarrow>
                    Inr \<lparr>st_config = cfg, st_level = parseLogLevel (c_logLevel cfg),
                         st_handler = new_handler cfg certManager, st_watcher = w\<rparr>)))"

text \<open>A handler that can dial: TLS is off, or there is a manager with a configuration.\<close>

definition handler_ok :: "handler \<Rightarrow> bool" where
  "handler_ok h \<longleftrightarrow> UpstreamProxy h \<noteq> [] \<and> map_ok (ExtraHeaders h) \<and>
     (TLSEnabled h \<longrightarrow> (\<exists>m cfg. CertManager h = Some m \<and> current m = Some cfg \<and> config_ok cfg))"

lemma startup_Inr:
  assumes "startup env args lib fs k = Inr s"
  shows "\<exists>cfg cm. parseFlags env args = Inr cfg \<and> st_config s = cfg \<and>
    st_level s = parseLogLevel (c_logLevel cfg) \<and>
    st_handler s = new_handler cfg cm \<and> st_watcher s = NewWatcher \<and>
    (if c_mtlsEnabled cfg then \<exists>m. cm = Some m \<and> NewManager lib fs (c_certDir cfg) = Inr m
     else cm = None)"
  using assms
  by (auto simp: startup_def serviceentry_NewWatcher_def split: sum.splits option.splits if_splits)

lemma startup_handler_ok:
  assumes "startup env args lib fs k = Inr s"
  shows "handler_ok (st_handler s)"
proof -
  obtain cfg cm where c: "parseFlags env args = Inr cfg" "st_handler s = new_handler cfg cm"
    "if c_mtlsEnabled cfg then \<exists>m. cm = Some m \<and> NewManager lib fs (c_certDir cfg) = Inr m
     else cm = None"
    using startup_Inr [OF assms] by blast
  show ?thesis
    using parseFlags_Inr [OF c(1)] c(2,3) environ_loop_ok [OF map_ok_Nil, of env]
    by (auto simp: handler_ok_def new_handler_def NewManager_ok files_config_ok split: if_splits)
qed

text \<open>The watch goroutine keeps it so: reloads never lose the configuration.\<close>

definition watch_handler ::
  "x509_lib \<Rightarrow> notify_ops \<Rightarrow> bool \<Rightarrow> bool \<Rightarrow> watch_event list \<Rightarrow> handler \<Rightarrow> handler" where
  "watch_handler lib n newErr addErr evs h =
     h\<lparr>CertManager := map_option (Watch lib n newErr addErr evs) (CertManager h)\<rparr>"

lemma Watch_current_ok:
  assumes "current m = Some cfg" "config_ok cfg"
  shows "\<exists>cfg'. current (Watch lib n newErr addErr evs m) = Some cfg' \<and> config_ok cfg'"
proof -
  let ?fs = "if newErr \<or> addErr then [] else reload_points n evs"
  let ?r = "\<lambda>fs m. fst (reload lib fs m)"
  have W: "Watch lib n newErr addErr evs m = fold ?r ?fs m"
    by (simp add: Watch_def watch_loop_attempts)
  obtain cfg' where c: "current (fold ?r ?fs m) = Some cfg'"
    using cert_store.stored_stays [of m lib ?fs] assms(1) by auto
  have "config_ok cfg'"
    by (rule cert_store.stored_good [of lib m config_ok, OF _ _ c])
      (use assms files_config_ok in auto)
  then show ?thesis using W c by simp
qed

lemma watch_handler_ok:
  assumes "handler_ok h"
  shows "handler_ok (watch_handler lib n newErr addErr evs h)"
proof (cases "TLSEnabled h")
  case True
  then obtain m cfg where m: "CertManager h = Some m" "current m = Some cfg" "config_ok cfg"
    using assms by (auto simp: handler_ok_def)
  show ?thesis
    using assms Watch_current_ok [OF m(2,3), of lib n newErr addErr evs] m(1)
    by (simp add: handler_ok_def watch_handler_def)
qed (use assms in \<open>simp add: handler_ok_def watch_handler_def\<close>)

lemma handler_ok_dials:
  "handler_ok h \<Longrightarrow> fst (dialUpstream h env) \<noteq> Inl NilManager \<and> fst (dialUpstream h env) \<noteq> Inl NilConfig"
  by (auto simp: handler_ok_def dialUpstream_def TLSConfig_def split: option.splits if_splits)

text \<open>So a CONNECT call of a process that started always returns.\<close>

lemma started_connect_returns:
  assumes "startup env args lib fs k = Inr s"
    and "h = watch_handler lib n newErr addErr evs (st_handler s)"
  shows "cr_end (snd (handleConnect go h w cenv r st)) = Returned"
proof -
  have ok: "fst (dialUpstream h (ce_dial cenv)) \<noteq> Inl NilConfig"
    using assms handler_ok_dials watch_handler_ok startup_handler_ok by blast
  show ?thesis
  proof (rule handleConnect_cases [where lib = go and w = w and r = r and env = cenv and h = h])
    fix client buffered conn
    assume a: "connect_allowed go w r" "ce_hijacker cenv" "ce_hijack cenv = Some (client, buffered)"
      "fst (dialUpstream h (ce_dial cenv)) = Inr conn"
    show ?thesis by (simp add: connect_connected [OF a] case_prod_unfold)
  qed (use ok in \<open>simp_all add: connect_branches\<close>)
qed

section \<open>The life of the process\<close>

text \<open>
  The main goroutine starts the two servers, registers for the signals, waits for a signal or for
  the cancelled context, shuts the proxy server down, then the metrics server, and returns, which
  cancels the context and ends the process. A server whose ListenAndServe fails logs it; only the
  proxy server's failure cancels the context. A signal before the registration kills the process.

  \<open>Shutdown\<close> closes the listener and then waits until no request is open or the deadline of
  15 seconds has passed. It does not wait for hijacked connections, so not for tunnels. Requests to
  the metrics server are answered at once, and its shutdown is one step.
\<close>

datatype server = Serving | Failed | Closed

datatype main_pc =
  MStart | MWait | MShutProxy | MDrainProxy | MShutMetrics | MReturn | MDone | MKilled

record process =
  pr_pc :: main_pc
  pr_proxy :: server
  pr_metrics :: server
  pr_ctx_done :: bool
  pr_signal :: bool
  pr_deadline :: bool
  pr_open :: nat
  pr_tunnels :: nat
  pr_log :: "(slog_level \<times> string) list"

definition first_process :: process where
  "first_process = \<lparr>pr_pc = MStart, pr_proxy = Serving, pr_metrics = Serving, pr_ctx_done = False,
     pr_signal = False, pr_deadline = False, pr_open = 0, pr_tunnels = 0, pr_log = []\<rparr>"

definition process_start :: "process \<Rightarrow> bool" where
  "process_start p \<longleftrightarrow> p = first_process"

definition plog :: "slog_level \<Rightarrow> string \<Rightarrow> process \<Rightarrow> process" where
  "plog l t p = p\<lparr>pr_log := pr_log p @ [(l, t)]\<rparr>"

definition close_server :: "server \<Rightarrow> server" where
  "close_server v = (case v of Serving \<Rightarrow> Closed | _ \<Rightarrow> v)"

text \<open>The process has not ended; \<open>Shutdown\<close> of the proxy server has not been called.\<close>

definition alive :: "process \<Rightarrow> bool" where
  "alive p \<longleftrightarrow> pr_pc p \<noteq> MDone \<and> pr_pc p \<noteq> MKilled"

definition accepting :: "process \<Rightarrow> bool" where
  "accepting p \<longleftrightarrow> pr_pc p = MStart \<or> pr_pc p = MWait \<or> pr_pc p = MShutProxy"

inductive main_step :: "process \<Rightarrow> process \<Rightarrow> bool" where
  notify: "pr_pc p = MStart \<Longrightarrow> main_step p (p\<lparr>pr_pc := MWait\<rparr>)"
| got_signal: "pr_pc p = MWait \<Longrightarrow> pr_signal p \<Longrightarrow>
    main_step p (plog LevelInfo ''shutdown signal received'' (p\<lparr>pr_pc := MShutProxy\<rparr>))"
| got_cancel: "pr_pc p = MWait \<Longrightarrow> pr_ctx_done p \<Longrightarrow>
    main_step p (plog LevelInfo ''context cancelled'' (p\<lparr>pr_pc := MShutProxy\<rparr>))"
| shut_proxy: "pr_pc p = MShutProxy \<Longrightarrow>
    main_step p (p\<lparr>pr_pc := MDrainProxy, pr_proxy := close_server (pr_proxy p)\<rparr>)"
| drained_proxy: "pr_pc p = MDrainProxy \<Longrightarrow> pr_open p = 0 \<or> pr_deadline p \<Longrightarrow>
    main_step p (p\<lparr>pr_pc := MShutMetrics\<rparr>)"
| shut_metrics: "pr_pc p = MShutMetrics \<Longrightarrow>
    main_step p (p\<lparr>pr_pc := MReturn, pr_metrics := close_server (pr_metrics p)\<rparr>)"
| return: "pr_pc p = MReturn \<Longrightarrow>
    main_step p (plog LevelInfo ''shutdown complete'' (p\<lparr>pr_pc := MDone, pr_ctx_done := True\<rparr>))"

inductive env_step :: "process \<Rightarrow> process \<Rightarrow> bool" where
  signal: "alive p \<Longrightarrow> pr_pc p \<noteq> MStart \<Longrightarrow> env_step p (p\<lparr>pr_signal := True\<rparr>)"
| kill: "pr_pc p = MStart \<Longrightarrow> env_step p (p\<lparr>pr_pc := MKilled\<rparr>)"
| proxy_fails: "alive p \<Longrightarrow> pr_proxy p = Serving \<Longrightarrow>
    env_step p (plog LevelError ''proxy server failed'' (p\<lparr>pr_proxy := Failed, pr_ctx_done := True\<rparr>))"
| metrics_fails: "alive p \<Longrightarrow> pr_metrics p = Serving \<Longrightarrow>
    env_step p (plog LevelError ''metrics server failed'' (p\<lparr>pr_metrics := Failed\<rparr>))"
| request_begins: "accepting p \<Longrightarrow> env_step p (p\<lparr>pr_open := pr_open p + 1\<rparr>)"
| request_ends: "alive p \<Longrightarrow> 0 < pr_open p \<Longrightarrow> env_step p (p\<lparr>pr_open := pr_open p - 1\<rparr>)"
| hijacked: "alive p \<Longrightarrow> 0 < pr_open p \<Longrightarrow>
    env_step p (p\<lparr>pr_open := pr_open p - 1, pr_tunnels := pr_tunnels p + 1\<rparr>)"
| tunnel_ends: "alive p \<Longrightarrow> 0 < pr_tunnels p \<Longrightarrow> env_step p (p\<lparr>pr_tunnels := pr_tunnels p - 1\<rparr>)"
| deadline_passes: "pr_pc p = MShutProxy \<or> pr_pc p = MDrainProxy \<or> pr_pc p = MShutMetrics \<Longrightarrow>
    env_step p (p\<lparr>pr_deadline := True\<rparr>)"

definition process_step :: "process \<Rightarrow> process \<Rightarrow> bool" where
  "process_step p q \<longleftrightarrow> main_step p q \<or> env_step p q"

inductive_cases main_stepE: "main_step p q"
inductive_cases env_stepE: "env_step p q"

text \<open>
  The context is cancelled only by a failed proxy server or at the very end; main leaves its
  wait only for a signal or such a failure; the proxy server is down and its open requests are
  over, or the deadline is, before the metrics server is closed.
\<close>

definition process_inv :: "process \<Rightarrow> bool" where
  "process_inv p \<longleftrightarrow>
     (pr_ctx_done p \<longrightarrow> pr_proxy p = Failed \<or> pr_pc p = MDone) \<and>
     (pr_pc p \<notin> {MStart, MWait, MKilled} \<longrightarrow> pr_signal p \<or> pr_proxy p = Failed) \<and>
     (pr_proxy p = Closed \<longrightarrow> pr_pc p \<in> {MDrainProxy, MShutMetrics, MReturn, MDone}) \<and>
     (pr_metrics p = Closed \<longrightarrow> pr_pc p \<in> {MReturn, MDone}) \<and>
     (pr_pc p \<in> {MDrainProxy, MShutMetrics, MReturn, MDone} \<longrightarrow> pr_proxy p \<noteq> Serving) \<and>
     (pr_pc p \<in> {MShutMetrics, MReturn, MDone} \<longrightarrow> pr_open p = 0 \<or> pr_deadline p) \<and>
     (pr_pc p \<in> {MReturn, MDone} \<longrightarrow> pr_metrics p \<noteq> Serving)"

lemma process_inv_start: "process_start p \<Longrightarrow> process_inv p"
  by (simp add: process_start_def first_process_def process_inv_def)

lemma process_inv_main: "process_inv p \<Longrightarrow> main_step p q \<Longrightarrow> process_inv q"
  by (elim main_stepE)
     (auto simp: process_inv_def plog_def close_server_def split: server.splits)

lemma process_inv_env: "process_inv p \<Longrightarrow> env_step p q \<Longrightarrow> process_inv q"
  by (erule env_stepE; cases "pr_pc p")
    (simp_all add: process_inv_def plog_def alive_def accepting_def)

lemma process_inv_step: "process_inv p \<Longrightarrow> process_step p q \<Longrightarrow> process_inv q"
  unfolding process_step_def using process_inv_main process_inv_env by blast

interpretation process_sys: inv_system process_start process_step process_inv
  by unfold_locales (auto intro: process_inv_start process_inv_step)

definition main_rank :: "process \<Rightarrow> nat" where
  "main_rank p = (case pr_pc p of MStart \<Rightarrow> 6 | MWait \<Rightarrow> 5 | MShutProxy \<Rightarrow> 4 | MDrainProxy \<Rightarrow> 3
     | MShutMetrics \<Rightarrow> 2 | MReturn \<Rightarrow> 1 | MDone \<Rightarrow> 0 | MKilled \<Rightarrow> 0)"

lemma main_step_rank: "main_step p q \<Longrightarrow> main_rank q < main_rank p"
  by (erule main_stepE) (simp_all add: main_rank_def plog_def)

interpretation main_ends: terminating_system process_start main_step process_inv main_rank
  by unfold_locales (auto intro: process_inv_start process_inv_main main_step_rank)

text \<open>Where main rests: at the end, in its wait, or while it waits for open requests.\<close>

lemma main_stuck:
  "(\<forall>q. \<not> main_step p q) \<longleftrightarrow> \<not> alive p \<or> pr_pc p = MWait \<and> \<not> pr_signal p \<and> \<not> pr_ctx_done p \<or>
     pr_pc p = MDrainProxy \<and> 0 < pr_open p \<and> \<not> pr_deadline p"
  by (cases "pr_pc p") (auto simp: alive_def elim: main_stepE intro: main_step.intros)

definition may_end :: "process \<Rightarrow> bool" where
  "may_end p \<longleftrightarrow> (pr_signal p \<or> pr_ctx_done p) \<and> pr_pc p \<noteq> MKilled \<and> (pr_open p = 0 \<or> pr_deadline p)"

lemma main_run_keeps: "main_step\<^sup>*\<^sup>* p q \<Longrightarrow> may_end p \<Longrightarrow> may_end q"
  by (induction rule: rtranclp_induct) (auto elim!: main_stepE simp: may_end_def plog_def)

lemma may_end_stuck: "may_end p \<Longrightarrow> (\<forall>q. \<not> main_step p q) \<Longrightarrow> pr_pc p = MDone"
  by (auto simp: main_stuck may_end_def alive_def)

section \<open>Properties\<close>

text \<open>
  C17. A process that started can dial: with mTLS enabled the handler has a certificate manager
  with a sound configuration (the start fails with code 1 otherwise), and no sequence of file
  events changes that, so the two nil cases of \<open>dialUpstream\<close> never occur.
\<close>

theorem started_process_can_dial:
  assumes "startup env args lib fs k = Inr s"
    and "h = watch_handler lib n newErr addErr evs (st_handler s)"
  shows "UpstreamProxy h \<noteq> [] \<and>
    (TLSEnabled h \<longrightarrow> (\<exists>m cfg. CertManager h = Some m \<and> TLSConfig m = Some cfg \<and> config_ok cfg)) \<and>
    fst (dialUpstream h denv) \<noteq> Inl NilManager \<and> fst (dialUpstream h denv) \<noteq> Inl NilConfig"
proof -
  have ok: "handler_ok h" using assms watch_handler_ok startup_handler_ok by blast
  then show ?thesis using handler_ok_dials [OF ok] by (auto simp: handler_ok_def TLSConfig_def)
qed

definition ex_environ :: "string list" where
  "ex_environ = [''UPSTREAM_PROXY=squid.corp:3128'', ''CERT_DIR=/certs/'']"

definition ex_kube :: "nat kube_lib" where
  "ex_kube = \<lparr>kl_in_cluster = None, kl_kubeconfig = Some 1, kl_client = (\<lambda>c. True)\<rparr>"

lemma ex_startup: "\<exists>s. startup ex_environ [] ex_lib ex_files ex_kube = Inr s \<and> TLSEnabled (st_handler s)"
proof -
  have e: "envOr ex_environ ''UPSTREAM_PROXY'' [] \<noteq> []" "envOr ex_environ ''CERT_DIR'' ''/etc/proxy/certs'' = ''/certs/''"
    "envOrBool ex_environ ''MTLS_ENABLED'' True" by code_simp+
  obtain cfg where c: "files_config ex_lib ''/certs/'' ex_files = Some cfg" using ex_files_config by blast
  then have "NewManager ex_lib ex_files ''/certs/'' = Inr \<lparr>dir = ''/certs/'', current = Some cfg\<rparr>"
    by (simp add: NewManager_ok)
  then show ?thesis
    using e by (simp add: startup_def parseFlags_def default_config_def Let_def serviceentry_NewWatcher_def
        loadKubeConfig_def ex_kube_def new_handler_def)
qed

theorem started_process_can_dial_witness:
  "\<exists>s. startup ex_environ [] ex_lib ex_files ex_kube = Inr s \<and>
     fst (dialUpstream (watch_handler ex_lib ex_notify False False
       [FileEvent 4 (\<lambda>p. None), FileEvent 1 ex_files] (st_handler s)) (ex_dial ''squid.corp'')) \<noteq> Inl NilConfig"
proof -
  obtain s where s: "startup ex_environ [] ex_lib ex_files ex_kube = Inr s" using ex_startup by blast
  show ?thesis using started_process_can_dial [OF s refl] s by blast
qed

text \<open>
  C32. Shutdown. In every reachable state of the process: the context is cancelled only because
  the proxy server failed or main has returned; main has left its wait only after a signal or that
  failure; main has closed the metrics server only if the proxy server does not serve any more and
  its open requests are over or the deadline of the shutdown is; and when main has returned both
  servers are down. Once there was a signal or that failure, and no request is open or the
  deadline has passed, every run of main's own steps that goes on as long as it can ends with main
  returned; such a run has at most six steps.
\<close>

theorem shutdown_in_order:
  assumes "reachable process_start process_step p"
  shows "(pr_ctx_done p \<longrightarrow> pr_proxy p = Failed \<or> pr_pc p = MDone) \<and>
    (pr_pc p \<notin> {MStart, MWait, MKilled} \<longrightarrow> pr_signal p \<or> pr_proxy p = Failed) \<and>
    (pr_metrics p = Closed \<longrightarrow> pr_proxy p \<noteq> Serving \<and> (pr_open p = 0 \<or> pr_deadline p)) \<and>
    (pr_pc p = MDone \<longrightarrow> pr_proxy p \<noteq> Serving \<and> pr_metrics p \<noteq> Serving \<and> (pr_open p = 0 \<or> pr_deadline p)) \<and>
    ((pr_signal p \<or> pr_ctx_done p) \<and> pr_pc p \<noteq> MKilled \<and> (pr_open p = 0 \<or> pr_deadline p) \<longrightarrow>
       (\<exists>q. main_step\<^sup>*\<^sup>* p q \<and> (\<forall>u. \<not> main_step q u)) \<and>
       (\<forall>q. main_step\<^sup>*\<^sup>* p q \<and> (\<forall>u. \<not> main_step q u) \<longrightarrow> pr_pc q = MDone)) \<and>
    (\<forall>n q. (main_step ^^ n) p q \<longrightarrow> n \<le> 6)"
proof -
  have inv: "process_inv p" by (rule process_sys.reachable_good [OF assms])
  have "main_rank p \<le> 6" by (simp add: main_rank_def split: main_pc.splits)
  then have bound: "\<forall>n q. (main_step ^^ n) p q \<longrightarrow> n \<le> 6"
    using main_ends.run_length [OF _ inv] by fastforce
  have "may_end p \<Longrightarrow> main_step\<^sup>*\<^sup>* p q \<Longrightarrow> (\<forall>u. \<not> main_step q u) \<Longrightarrow> pr_pc q = MDone" for q
    using main_run_keeps may_end_stuck by blast
  then show ?thesis using inv bound main_ends.ends [OF inv]
    unfolding process_inv_def may_end_def by blast
qed

text \<open>
  A run in which a tunnel is open when the signal comes: main returns without the deadline
  having passed, and the tunnel is still open.
\<close>

theorem shutdown_in_order_witness:
  "\<exists>p q. reachable process_start process_step p \<and> pr_signal p \<and> main_step\<^sup>*\<^sup>* p q \<and> pr_pc q = MDone \<and>
     pr_tunnels p = 1 \<and> \<not> pr_deadline p"
proof -
  let ?p1 = "first_process\<lparr>pr_pc := MWait\<rparr>"
  let ?p2 = "?p1\<lparr>pr_open := 1\<rparr>"
  let ?p3 = "?p2\<lparr>pr_open := 0, pr_tunnels := 1\<rparr>"
  let ?p4 = "?p3\<lparr>pr_signal := True\<rparr>"
  have steps: "process_step first_process ?p1" "process_step ?p1 ?p2" "process_step ?p2 ?p3"
    "process_step ?p3 ?p4"
    using main_step.notify [of first_process] env_step.request_begins [of ?p1]
      env_step.hijacked [of ?p2] env_step.signal [of ?p3]
    by (simp_all add: process_step_def first_process_def accepting_def alive_def)
  have "reachable process_start process_step first_process"
    by (rule reachable_start) (simp add: process_start_def)
  then have "reachable process_start process_step ?p1" by (rule reachable_step) (rule steps(1))
  then have "reachable process_start process_step ?p2" by (rule reachable_step) (rule steps(2))
  then have "reachable process_start process_step ?p3" by (rule reachable_step) (rule steps(3))
  then have r: "reachable process_start process_step ?p4" by (rule reachable_step) (rule steps(4))
  have e: "(pr_signal ?p4 \<or> pr_ctx_done ?p4) \<and> pr_pc ?p4 \<noteq> MKilled \<and> (pr_open ?p4 = 0 \<or> pr_deadline ?p4)"
    by (simp add: first_process_def)
  have "\<exists>q. main_step\<^sup>*\<^sup>* ?p4 q \<and> pr_pc q = MDone"
    using shutdown_in_order [OF r] e by metis
  moreover have "pr_signal ?p4" "pr_tunnels ?p4 = 1" "\<not> pr_deadline ?p4"
    by (simp_all add: first_process_def)
  ultimately show ?thesis using r by blast
qed

end
