(* ===== verification/Spec2Isabelle.thy ===== *)
theory Spec2Isabelle
  imports Proxy_System Idle_Timer Admin Startup
begin

text \<open>
  A verification development of istio-forward-proxy: a forward proxy for a service mesh that
  lets a client reach the external hosts which the cluster's ServiceEntries name, by passing
  plain-HTTP requests (in absolute form) and CONNECT tunnels on to one upstream proxy, over mTLS.

  \<^bold>\<open>Parts of the program and their theories.\<close> Paths are under src/.

  \<^item> \<open>Prelude\<close>, \<open>Go_Strings\<close>, \<open>Go_Net\<close>, \<open>Http_Header\<close>, \<open>Http_Msg\<close>: what
    the program uses of Go's language and standard library, defined to the byte: maps as
    association lists whose order is the iteration order, strings as byte lists, integers as
    words, \<open>strings\<close>, \<open>strconv.ParseUint\<close>, \<open>net.SplitHostPort\<close>,
    \<open>net.ParseIP\<close>, header maps with canonical keys, \<open>http.Error\<close> and the response
    writer. \<open>Http_Header\<close> also has \<open>isHopByHop\<close> of internal/proxy/handler.go.
    The locales \<open>inv_system\<close>, \<open>terminating_system\<close> (step systems with an invariant,
    with a rank) and \<open>reloadable\<close> (a value replaced by successful attempts only) are the
    interfaces that several components implement.
  \<^item> \<open>Watcher\<close>, \<open>Watcher_Sync\<close> (internal/serviceentry/watcher.go, handlers.go): the
    allowlist. \<open>Watcher\<close> has the tables, \<open>AllowHost\<close> and \<open>rebuild\<close> and, as the
    abstract specification, a listing as the flat list of its rules with the decision by scanning
    it; the refinement lemma is \<open>AllowHost_rebuild\<close>. \<open>Watcher_Sync\<close> is the concurrent
    machine: informer, event handlers, the read-write lock, \<open>Run\<close>, with the two assignments
    of \<open>rebuild\<close> as separate steps.
  \<^item> \<open>Certs\<close> (internal/certs/manager.go): the certificate manager, its reload and the
    watch loop over file events.
  \<^item> \<open>Audit_Log\<close> (internal/audit/audit.go) and \<open>Identity\<close> (\<open>spiffeFromRequest\<close>):
    the audit record and the identity in it.
  \<^item> \<open>Target\<close>, \<open>Upstream_Request\<close>, \<open>Forward\<close> (internal/proxy/handler.go): host
    and port of a request, the request that goes upstream with its counting body and the pooled
    transport, and the handler of plain-HTTP requests as a function from the shared state (response,
    metrics calls, audit lines, requests sent) to the next one, with every early return a branch.
  \<^item> \<open>Conn\<close>, \<open>Tunnel\<close>, \<open>Idle_Timer\<close>, \<open>Connect\<close>, \<open>Connect_Path\<close>
    (internal/proxy/handler.go): connections as scripts of what the network does, dialing, the two
    copying goroutines of a tunnel as an interleaving machine, the idle timeout in time, the
    handler of CONNECT with its reads and writes, and what each side has received in the end.
  \<^item> \<open>Serve\<close>, \<open>Proxy_System\<close>: the dispatcher \<open>ServeHTTP\<close>, and requests served
    while the watcher runs.
  \<^item> \<open>Config\<close>, \<open>Admin\<close>, \<open>Startup\<close> (cmd/main.go): flags and environment, the
    administration endpoints with the JSON dump of the allowlist (watcher.go, \<open>DumpJSON\<close>),
    the start of the process and its shutdown.

  \<^bold>\<open>What the lemmas show.\<close> The ACL: the tables answer as the rules of the last good listing do, an
  allowed target is covered by a ServiceEntry, answers do not depend on spelling, concurrent
  readers never see half a listing and rebuilds catch up. Forwarding: exactly the allowed
  requests go upstream, once, without the client's fields of the eight listed hop-by-hop names and
  with the proxy's own credentials; each either gets one answer and is counted once or, for an
  upstream status that \<open>WriteHeader\<close> refuses, panics; responses are relayed whole. Tunnels:
  every interleaving ends in the same result, bytes are relayed in both directions as prefixes and
  completely when nothing fails, the idle timeout counts from the last activity in either direction,
  and every connection that was taken over or opened is closed (but for the raw one of a call that
  panics on a nil configuration, which a started process never has). Certificates: reloads are all
  or nothing, and a started process can always dial. Audit: every line is true and of level info, and every denial has one. The dump of
  the allowlist is read back by field name, and the shutdown waits for open requests, not for
  tunnels.

  \<^bold>\<open>Where the code and its documents part.\<close> Some theorems state behaviour that a reader of the
  documents would not expect: entries for one host are not merged
  (\<open>last_exact_entry_decides\<close>), a port beyond 32 bits is checked as the default one
  (\<open>oversized_port_checked_as_default\<close>), half-close never crosses a tunnel with an idle timeout
  (\<open>half_close_needs_no_timeout\<close>), bytes read together with the upstream's reply are lost
  (\<open>connect_end_to_end\<close>), a rejection repeats the status code
  (\<open>reject_repeats_status_code\<close>), an upstream status outside 100 to 999 ends the request in a
  panic (\<open>forward_answered_and_counted_once\<close>), hop-by-hop fields that are not listed pass on
  (\<open>hop_by_hop_does_not_pass\<close>), and the audit log is silent above level info
  (\<open>audit_lines_need_info_level\<close>).

  \<^bold>\<open>Parameters.\<close> Lowering of non-ASCII strings (\<open>ul\<close>), URL parsing, X.509 and PEM decoding,
  MIME header parsing of the upstream's reply, what \<open>RoundTrip\<close> answers, the informer, the
  Kubernetes client configuration, the Prometheus handler and the file notifier's bit values are
  arguments of the definitions; the theorems hold for all of them. Networks, clocks and file
  systems are given by environments or scripts.

  \<^bold>\<open>Bounds and fuel.\<close> No definition takes fuel: loops are structural or have a termination proof
  (copy loops and reply reading by the length of the read script, IPv6 parsing and line reading by
  the text). Ports are 32-bit words, parsed through 64-bit words with the overflow checks of
  \<open>ParseUint\<close>; the body counter is a 64-bit word; times are unbounded integers.

  \<^bold>\<open>Not modelled.\<close> The effects of one request on the shared state are one step of
  \<open>Proxy_System\<close>: the metrics, the log and the lazily built transport are each atomic, so only
  the order of entries depends on the interleaving. Log output other than the audit lines is its
  level and message; the JSON printing of log lines, the pool inside \<open>http.Transport\<close>, the
  HTTP server's parsing and timeouts, and the exit of package flag on a malformed command line are
  left out. Of the idle timer in time (\<open>Idle_Timer\<close>), a failing \<open>SetDeadline\<close> and the time
  a write takes are left out; of the shutdown, requests to the metrics server that are still open.
\<close>

section \<open>Properties that span components\<close>

text \<open>
  C1. Only covered requests go upstream, whatever the interleaving of requests and watcher: the
  requests passed on are, in order and once each, the built forms of the served plain-HTTP
  requests that the listing published at that moment allows, and each of them has a ServiceEntry
  in that listing that covers its host and port.
\<close>

theorem forwarded_requests_are_covered:
  assumes "reachable proxy_start (proxy_step lib h) p"
  shows "p_sent (px_state p) = map (built lib h \<circ> fst) (filter (forwarded lib) (px_served p)) \<and>
    (\<forall>q \<in> set (p_sent (px_state p)). \<exists>re \<in> set (px_served p). q = built lib h (fst re) \<and>
       (\<exists>se \<in> set (snd re). se_covers (unicode_lower lib) se (fst (forward_target (fst re)))
          (snd (forward_target (fst re)))))"
proof -
  have sent: "p_sent (px_state p) = map (built lib h \<circ> fst) (filter (forwarded lib) (px_served p))"
    using proxy_sys.reachable_good [OF assms] by (simp add: proxy_inv_def)
  have cov: "\<exists>se \<in> set (snd re). se_covers (unicode_lower lib) se (fst (forward_target (fst re)))
      (snd (forward_target (fst re)))" if "forwarded lib re" for re
    using that AllowHost_sound [of "unicode_lower lib" "snd re" NewWatcher]
    by (auto simp: forwarded_def listing_allows_def AllowHost_rebuild request_target_def)
  show ?thesis
  proof (intro conjI ballI)
    fix q
    assume "q \<in> set (p_sent (px_state p))"
    then obtain re where re: "re \<in> set (px_served p)" "forwarded lib re" "q = built lib h (fst re)"
      by (auto simp: sent simp del: split_paired_Ex)
    then show "\<exists>re \<in> set (px_served p). q = built lib h (fst re) \<and>
        (\<exists>se \<in> set (snd re). se_covers (unicode_lower lib) se (fst (forward_target (fst re)))
          (snd (forward_target (fst re))))"
      using cov [OF re(2)] by blast
  qed (rule sent)
qed

theorem forwarded_requests_are_covered_witness:
  "\<exists>p. reachable proxy_start (proxy_step ex_go ex_handler) p \<and>
     p_sent (px_state p) = [built ex_go ex_handler ex_request]"
proof -
  obtain p where p: "reachable proxy_start (proxy_step ex_go ex_handler) p"
    "px_served p = [(ex_request, [ex_se [''api.example.com''] [80, 443]])]"
    using ex_proxy_run by blast
  have "\<not> is_connect ex_request" by (simp add: is_connect_def ex_request_def MethodConnect_def)
  moreover have "forward_allowed ex_go ex_watcher ex_request" by (rule ex_allowed)
  ultimately have "forwarded ex_go (ex_request, [ex_se [''api.example.com''] [80, 443]])"
    by (simp add: forwarded_def listing_allows_def forward_allowed_def ex_watcher_def AllowHost_rebuild
        request_target_def ex_go_def)
  then have "filter (forwarded ex_go) (px_served p) =
      [(ex_request, [ex_se [''api.example.com''] [80, 443]])]" by (simp add: p(2))
  then have "p_sent (px_state p) = [built ex_go ex_handler ex_request]"
    using conjunct1 [OF forwarded_requests_are_covered [OF p(1)]] by simp
  then show ?thesis using p(1) by blast
qed

text \<open>
  C3. The audit trail tells the truth: every line is about a served request that reached the ACL
  check, with its target, client and identity, and says allow or deny as the published listing
  did; and every denied request has its line. Between requests the gauge of active connections is
  zero, no response body is open and the transport has been built at most once.
\<close>

theorem audit_trail_is_true:
  assumes "reachable proxy_start (proxy_step lib h) p"
  shows "(\<forall>l \<in> set (p_audit (px_state p)). \<exists>re \<in> set (px_served p). reaches_acl (fst re) \<and>
      audits lib h (fst re) (if listing_allows lib re then ''allow'' else ''deny'') l) \<and>
    (\<forall>re \<in> set (px_served p). reaches_acl (fst re) \<and> \<not> listing_allows lib re \<longrightarrow>
      (\<exists>l \<in> set (p_audit (px_state p)). audits lib h (fst re) ''deny'' l)) \<and>
    active_connections (p_metrics (px_state p)) = 0 \<and> p_bodies (px_state p) = 0 \<and>
    tr_builds (p_cell (px_state p)) \<le> 1"
  using proxy_sys.reachable_good [OF assms]
  by (auto simp: proxy_inv_def audit_line_for_def decision_of_def cell_ok_def split: if_splits)

theorem audit_trail_is_true_witness:
  "\<exists>p. reachable proxy_start (proxy_step ex_go ex_handler) p \<and> px_served p \<noteq> [] \<and>
     active_connections (p_metrics (px_state p)) = 0"
proof -
  obtain p where p: "reachable proxy_start (proxy_step ex_go ex_handler) p"
    "px_served p = [(ex_request, [ex_se [''api.example.com''] [80, 443]])]"
    using ex_proxy_run by blast
  then show ?thesis using audit_trail_is_true [OF p(1)] by auto
qed

text \<open>
  C40. The audit log depends on the log level. In every reachable state of the proxy each line of
  its audit log is a record of level info; so of a process that was started with the level warn or
  error none of them is printed, and with any other level (also an unknown one) all are.
\<close>

theorem audit_lines_need_info_level:
  assumes "startup env args lib fs k = Inr st"
    and "reachable proxy_start (proxy_step go h) p"
  shows "(\<forall>l \<in> set (p_audit (px_state p)). line_level l = LevelInfo) \<and>
    emitted (st_level st) (p_audit (px_state p)) =
      (if c_logLevel (st_config st) \<in> {''warn'', ''error''} then [] else p_audit (px_state p))"
proof -
  have st: "st_level st = parseLogLevel (c_logLevel (st_config st))" using startup_Inr [OF assms(1)] by auto
  have info: "\<forall>l \<in> set (p_audit (px_state p)). line_level l = LevelInfo"
    using reachable_lines_info [OF assms(2)] by blast
  have "emitted (st_level st) (p_audit (px_state p)) =
      (if c_logLevel (st_config st) \<in> {''warn'', ''error''} then [] else p_audit (px_state p))"
    using info unfolding st
    by (auto simp: emitted_def parseLogLevel_def less_eq_slog_level_def level_num_def filter_empty_conv
        filter_id_conv)
  then show ?thesis using info by blast
qed

text \<open>A denied request leaves a line, which a process with the level warn does not print.\<close>

theorem audit_lines_need_info_level_witness:
  "\<exists>st p. startup [''UPSTREAM_PROXY=squid.corp:3128'', ''MTLS_ENABLED=no'', ''LOG_LEVEL=warn''] [] ex_lib ex_files
       ex_kube = Inr st \<and>
     reachable proxy_start (proxy_step ex_go ex_handler) p \<and> p_audit (px_state p) \<noteq> [] \<and>
     emitted (st_level st) (p_audit (px_state p)) = []"
proof -
  let ?env = "[''UPSTREAM_PROXY=squid.corp:3128'', ''MTLS_ENABLED=no'', ''LOG_LEVEL=warn'']"
  have e: "envOr ?env ''UPSTREAM_PROXY'' [] \<noteq> []" "\<not> envOrBool ?env ''MTLS_ENABLED'' True"
    "envOr ?env ''LOG_LEVEL'' ''info'' = ''warn''" by code_simp+
  obtain st where st: "startup ?env [] ex_lib ex_files ex_kube = Inr st"
    "c_logLevel (st_config st) = ''warn''"
    using e by (simp add: startup_def parseFlags_def default_config_def Let_def serviceentry_NewWatcher_def
        loadKubeConfig_def ex_kube_def)
  let ?q = "ex_connect\<lparr>Host := ''example.com''\<rparr>" and ?es = "[ex_se [''api.example.com''] [80, 443]]"
  obtain p where p: "reachable proxy_start (proxy_step ex_go ex_handler) p" "px_served p = [(?q, ?es)]"
    using example_proxy_run by blast
  have "reaches_acl ?q"
    by (simp add: reaches_acl_def is_connect_def ex_connect_def MethodConnect_def)
  moreover have "request_target ?q = (''example.com'', 443)"
    by (simp add: request_target_def is_connect_def connect_target_def ex_connect_def MethodConnect_def
        splitHostPort_no_colon colon_def)
  then have "\<not> listing_allows ex_go (?q, ?es)"
    by (simp add: listing_allows_def ex_go_def example_eval)
  ultimately have "p_audit (px_state p) \<noteq> []"
    using proxy_sys.reachable_good [OF p(1)] p(2) by (force simp: proxy_inv_def)
  then show ?thesis using audit_lines_need_info_level [OF st(1) p(1)] st p(1) by auto
qed

end
